theory Spec2Isabelle
  imports Complex_Main "HOL-Library.AList"
begin

section \<open>JavaScript values used by the time tracker\<close>

text \<open>
  The time tracker (\<^verbatim>\<open>TimeTracking\<close> state module) and the archive service are
  JavaScript. Timestamps are milliseconds since the epoch as returned by
  \<^verbatim>\<open>Date.now()\<close> and are modelled as \<open>int\<close>. Numbers read back from the persisted
  JSON dataset may be anything a JavaScript number can be, so they are modelled by
  \<open>jsnum\<close>: a finite value, \<^verbatim>\<open>NaN\<close> or one of the infinities. A field that is
  missing (\<^verbatim>\<open>undefined\<close>) behaves like \<^verbatim>\<open>NaN\<close> in every expression modelled here
  (\<^verbatim>\<open>Number.isFinite\<close> is false, every comparison is false, \<^verbatim>\<open>x || 0\<close> is 0).
  Arithmetic on finite values is exact: the program only adds integer millisecond
  counts far below \<open>2^53\<close>.
\<close>

datatype jsnum = Fin real | NaN | PosInf | NegInf

fun isFinite :: "jsnum \<Rightarrow> bool" where
  "isFinite (Fin _) = True"
| "isFinite _ = False"

text \<open>The relational operators \<^verbatim>\<open><\<close> and \<^verbatim>\<open><=\<close>; \<^verbatim>\<open>x > y\<close> is \<open>js_less y x\<close>.\<close>

fun js_less :: "jsnum \<Rightarrow> jsnum \<Rightarrow> bool" where
  "js_less (Fin a) (Fin b) = (a < b)"
| "js_less NaN _ = False"
| "js_less _ NaN = False"
| "js_less _ NegInf = False"
| "js_less PosInf _ = False"
| "js_less NegInf _ = True"
| "js_less (Fin _) PosInf = True"

fun js_le :: "jsnum \<Rightarrow> jsnum \<Rightarrow> bool" where
  "js_le (Fin a) (Fin b) = (a \<le> b)"
| "js_le NaN _ = False"
| "js_le _ NaN = False"
| "js_le NegInf _ = True"
| "js_le _ PosInf = True"
| "js_le PosInf _ = False"
| "js_le (Fin _) NegInf = False"

text \<open>\<^verbatim>\<open>x || 0\<close> on a number: 0 and \<^verbatim>\<open>NaN\<close> are falsy.\<close>

fun or0 :: "jsnum \<Rightarrow> jsnum" where
  "or0 (Fin a) = Fin a"
| "or0 NaN = Fin 0"
| "or0 x = x"

text \<open>\<^verbatim>\<open>x + d\<close> for a finite \<open>d\<close>.\<close>

fun js_add :: "jsnum \<Rightarrow> real \<Rightarrow> jsnum" where
  "js_add (Fin a) d = Fin (a + d)"
| "js_add x d = x"

text \<open>Decimal rendering of an integer, as a template literal renders a number.\<close>

definition digit_char :: "nat \<Rightarrow> char" where
  "digit_char d = ''0123456789'' ! d"

function show_nat :: "nat \<Rightarrow> string" where
  "show_nat n = (if n < 10 then [digit_char n] else show_nat (n div 10) @ [digit_char (n mod 10)])"
  by pat_completeness auto
termination
  by (relation "measure (\<lambda>n. n)") auto

declare show_nat.simps [simp del]

definition show_int :: "int \<Rightarrow> string" where
  "show_int i = (if i < 0 then CHR ''-'' # show_nat (nat (- i)) else show_nat (nat i))"

text \<open>\<^verbatim>\<open>String(x).padStart(2, '0')\<close>.\<close>

definition padStart2 :: "string \<Rightarrow> string" where
  "padStart2 s = (if length s < 2 then replicate (2 - length s) CHR ''0'' @ s else s)"

text \<open>A string is truthy unless it is empty.\<close>

definition truthy_str :: "string \<Rightarrow> bool" where
  "truthy_str s = (s \<noteq> [])"

text \<open>
  A nullable timestamp such as \<^verbatim>\<open>sessionStartTime\<close> is truthy when it is set and
  not 0.
\<close>

fun truthy_ts :: "int option \<Rightarrow> bool" where
  "truthy_ts None = False"
| "truthy_ts (Some t) = (t \<noteq> 0)"

section \<open>The JavaScript runtime as a parameter\<close>

text \<open>
  The program reads the local calendar through \<^verbatim>\<open>Date\<close>, draws random session
  identifiers and writes files. None of this is code of the repository, so it is a
  parameter of the model: the calendar fields of a timestamp in the local time zone,
  \<^verbatim>\<open>setHours(0, 0, 0, 0)\<close> (local midnight of the timestamp's day),
  \<^verbatim>\<open>setDate\<close>, \<^verbatim>\<open>toISOString\<close>, the timestamp a string parses to
  (\<open>None\<close> for an invalid date, whose \<^verbatim>\<open>getTime()\<close> is \<^verbatim>\<open>NaN\<close>), the
  \<open>n\<close>-th value of \<^verbatim>\<open>Math.random().toString(36).substr(2, 9)\<close> and whether the
  \<open>n\<close>-th archive write succeeds.
\<close>

record runtime =
  getFullYear :: "int \<Rightarrow> int"
  getMonth :: "int \<Rightarrow> int"
  getDate :: "int \<Rightarrow> int"
  getDay :: "int \<Rightarrow> int"
  setHours0 :: "int \<Rightarrow> int"
  setDate :: "int \<Rightarrow> int \<Rightarrow> int"
  toISOString :: "int \<Rightarrow> string"
  parseDate :: "string \<Rightarrow> int option"
  randomSuffix :: "nat \<Rightarrow> string"
  writeOk :: "nat \<Rightarrow> bool"

section \<open>Persisted sessions and the archive service\<close>

text \<open>
  A persisted session \<^verbatim>\<open>{ id, startTime, endTime, duration }\<close>. The field \<^verbatim>\<open>id\<close>
  is called \<open>sid\<close> here.
\<close>

record psession =
  sid :: string
  startTime :: string
  endTime :: string
  duration :: jsnum

text \<open>
  One project's part of an archive, \<^verbatim>\<open>{ projectName, sessions }\<close>; the same shape
  is the value type of the \<^verbatim>\<open>projectSessionsMap\<close> argument.
\<close>

record archive_entry =
  projectName :: string
  entrySessions :: "psession list"

record archive =
  version :: int
  month :: string
  createdAt :: string
  lastModifiedAt :: string
  globalSessions :: "psession list"
  projectSessions :: "string \<rightharpoonup> archive_entry"

record cache_entry =
  data :: archive
  loadedAt :: int

text \<open>
  The state of the archive service: the archive files by file name (a file that is
  missing, empty or not valid JSON reads as \<open>None\<close>; a file that parses is taken to
  have the archive shape and to read back as it was written), the cache, a
  \<^verbatim>\<open>Map\<close> in insertion order, and the number of writes attempted so far.
\<close>

record archive_store =
  files :: "string \<rightharpoonup> archive"
  archiveCache :: "(string \<times> cache_entry) list"
  writes :: nat

definition MONTH_NAMES :: "string list" where
  "MONTH_NAMES = [''january'', ''february'', ''march'', ''april'', ''may'', ''june'',
     ''july'', ''august'', ''september'', ''october'', ''november'', ''december'']"

definition MAX_CACHE_SIZE :: nat where
  "MAX_CACHE_SIZE = 3"

definition getCacheKey :: "int \<Rightarrow> int \<Rightarrow> string" where
  "getCacheKey year mon = show_int year @ ''-'' @ padStart2 (show_int (mon + 1))"

definition getArchiveFilename :: "int \<Rightarrow> int \<Rightarrow> string" where
  "getArchiveFilename year mon =
     (if 0 \<le> mon \<and> mon < 12 then MONTH_NAMES ! nat mon else ''undefined'')
       @ ''_'' @ show_int year @ ''.json''"

text \<open>The archives directory is fixed, so a file is identified by its name.\<close>

definition getArchiveFilePath :: "int \<Rightarrow> int \<Rightarrow> string" where
  "getArchiveFilePath year mon = getArchiveFilename year mon"

definition createEmptyArchive :: "runtime \<Rightarrow> int \<Rightarrow> int \<Rightarrow> int \<Rightarrow> archive" where
  "createEmptyArchive rt now year mon =
     \<lparr> version = 1, month = getCacheKey year mon,
       createdAt = toISOString rt now, lastModifiedAt = toISOString rt now,
       globalSessions = [], projectSessions = Map.empty \<rparr>"

definition readArchiveFromDisk :: "archive_store \<Rightarrow> string \<Rightarrow> archive option" where
  "readArchiveFromDisk st filePath = files st filePath"

text \<open>
  The eviction scan of \<^verbatim>\<open>loadArchive\<close>: the first entry with the least
  \<^verbatim>\<open>loadedAt\<close>; \<open>oldestTime = None\<close> stands for \<^verbatim>\<open>Infinity\<close>.
\<close>

fun oldestEntry :: "(string \<times> cache_entry) list \<Rightarrow> string option \<times> int option
    \<Rightarrow> string option \<times> int option" where
  "oldestEntry [] acc = acc"
| "oldestEntry ((k, v) # rest) (oldestKey, oldestTime) =
     (if (case oldestTime of None \<Rightarrow> True | Some t \<Rightarrow> loadedAt v < t)
      then oldestEntry rest (Some k, Some (loadedAt v))
      else oldestEntry rest (oldestKey, oldestTime))"

definition loadArchive :: "int \<Rightarrow> int \<Rightarrow> int \<Rightarrow> archive_store
    \<Rightarrow> archive option \<times> archive_store" where
  "loadArchive now year mon st =
     (let key = getCacheKey year mon in
      case map_of (archiveCache st) key of
        Some e \<Rightarrow> (Some (data e), st)
      | None \<Rightarrow>
          (case readArchiveFromDisk st (getArchiveFilePath year mon) of
             None \<Rightarrow> (None, st)
           | Some d \<Rightarrow>
               (let cache1 =
                      (if length (archiveCache st) \<ge> MAX_CACHE_SIZE
                       then (case fst (oldestEntry (archiveCache st) (None, None)) of
                               Some k \<Rightarrow> if truthy_str k then AList.delete k (archiveCache st)
                                          else archiveCache st
                             | None \<Rightarrow> archiveCache st)
                       else archiveCache st);
                    cache2 = AList.update key \<lparr> data = d, loadedAt = now \<rparr> cache1
                in (Some d, st\<lparr> archiveCache := cache2 \<rparr>))))"

text \<open>
  \<^verbatim>\<open>writeArchive\<close> writes a temporary file and renames it over the target; a
  failure is caught and logged, and the target is left as it was.
\<close>

definition writeArchive :: "runtime \<Rightarrow> int \<Rightarrow> int \<Rightarrow> archive \<Rightarrow> archive_store
    \<Rightarrow> archive_store" where
  "writeArchive rt year mon archiveData st =
     (if writeOk rt (writes st)
      then st\<lparr> files := (files st)(getArchiveFilePath year mon \<mapsto> archiveData),
               writes := Suc (writes st) \<rparr>
      else st\<lparr> writes := Suc (writes st) \<rparr>)"

definition invalidateArchiveCache :: "int \<Rightarrow> int \<Rightarrow> archive_store \<Rightarrow> archive_store" where
  "invalidateArchiveCache year mon st =
     st\<lparr> archiveCache := AList.delete (getCacheKey year mon) (archiveCache st) \<rparr>"

text \<open>
  The deduplicating loop of \<^verbatim>\<open>appendToArchive\<close>: \<open>existingIds\<close> is computed once,
  before the loop, and each incoming session whose id is not in it is pushed.
\<close>

fun pushNew :: "string set \<Rightarrow> psession list \<Rightarrow> psession list \<Rightarrow> psession list" where
  "pushNew existingIds [] target = target"
| "pushNew existingIds (s # rest) target =
     pushNew existingIds rest (if sid s \<notin> existingIds then target @ [s] else target)"

definition mergeProject :: "string \<times> archive_entry \<Rightarrow> archive \<Rightarrow> archive" where
  "mergeProject entry arch =
     (let projectId = fst entry; d = snd entry;
          e0 = (case projectSessions arch projectId of
                  Some e \<Rightarrow> e
                | None \<Rightarrow> \<lparr> projectName = (if truthy_str (projectName d) then projectName d
                                             else ''Unknown''),
                             entrySessions = [] \<rparr>);
          existingIds = set (map sid (entrySessions e0));
          e1 = e0\<lparr> entrySessions := pushNew existingIds (entrySessions d) (entrySessions e0) \<rparr>;
          e2 = (if truthy_str (projectName d) then e1\<lparr> projectName := projectName d \<rparr> else e1)
      in arch\<lparr> projectSessions := (projectSessions arch)(projectId \<mapsto> e2) \<rparr>)"

definition appendToArchive :: "runtime \<Rightarrow> int \<Rightarrow> int \<Rightarrow> int \<Rightarrow> psession list
    \<Rightarrow> (string \<times> archive_entry) list \<Rightarrow> archive_store \<Rightarrow> archive_store" where
  "appendToArchive rt now year mon gSessions projectSessionsMap st =
     (let filePath = getArchiveFilePath year mon;
          a0 = (case readArchiveFromDisk st filePath of
                  Some a \<Rightarrow> a
                | None \<Rightarrow> createEmptyArchive rt now year mon);
          a1 = (if gSessions \<noteq> []
                then a0\<lparr> globalSessions :=
                       pushNew (set (map sid (globalSessions a0))) gSessions (globalSessions a0) \<rparr>
                else a0);
          a2 = fold mergeProject projectSessionsMap a1;
          a3 = a2\<lparr> lastModifiedAt := toISOString rt now \<rparr>
      in invalidateArchiveCache year mon (writeArchive rt year mon a3 st))"


section \<open>The live dataset\<close>

text \<open>
  The persistence collaborator holds one value: the projects, each with an optional
  \<^verbatim>\<open>timeTracking\<close> record, and the optional \<^verbatim>\<open>globalTimeTracking\<close> record. The
  global record has the fields of a project's record and four more. The fields
  \<^verbatim>\<open>id\<close> and \<^verbatim>\<open>name\<close> of a project are called \<open>pid\<close> and \<open>pname\<close>; a
  missing name is the empty string, which is falsy as \<^verbatim>\<open>undefined\<close> is. A
  \<^verbatim>\<open>sessions\<close> field is an array of session objects.
\<close>

record time_tracking =
  totalTime :: jsnum
  todayTime :: jsnum
  lastActiveDate :: "string option"
  sessions :: "psession list"

record global_time_tracking = time_tracking +
  weekTime :: jsnum
  monthTime :: jsnum
  weekStart :: "string option"
  monthStart :: "string option"

record project =
  pid :: string
  pname :: string
  timeTracking :: "time_tracking option"

record projects_state =
  projects :: "project list"
  globalTimeTracking :: "global_time_tracking option"

section \<open>The tracker's state\<close>

text \<open>
  \<^verbatim>\<open>trackingState\<close> holds the runtime intervals: \<^verbatim>\<open>activeSessions\<close>, a
  \<^verbatim>\<open>Map\<close> from project id to \<^verbatim>\<open>{ sessionStartTime, lastActivityTime, isIdle }\<close>
  (an association list in insertion order; \<open>map_of\<close> is \<^verbatim>\<open>get\<close>,
  \<open>AList.update\<close> is \<^verbatim>\<open>set\<close>, \<open>AList.delete\<close> is \<^verbatim>\<open>delete\<close>), and the
  three fields of the global interval.
\<close>

record tracked =
  sessionStartTime :: "int option"
  lastActivityTime :: int
  isIdle :: bool

record tracking_state =
  activeSessions :: "(string \<times> tracked) list"
  globalSessionStartTime :: "int option"
  globalLastActivityTime :: "int option"
  globalIsIdle :: bool

text \<open>
  The module's variables. A timer set by \<^verbatim>\<open>setTimeout(f, delay)\<close> at time \<open>now\<close>
  is recorded by the time \<open>now + delay\<close> at which it is due: \<open>idleTimers w p = Some d\<close>
  says that the idle timer of \<open>p\<close> is pending and due at \<open>d\<close>, and \<open>None\<close> that
  none is pending (\<^verbatim>\<open>clearTimeout\<close>). \<open>projectsStateRef\<close> is \<open>None\<close> until
  \<^verbatim>\<open>initTimeTracking\<close> has stored the references to the persistence collaborator,
  and then holds the collaborator's current value; \<open>saveRequests\<close> counts the calls
  of \<^verbatim>\<open>saveProjects\<close>, \<open>draws\<close> the random suffixes drawn so far, and \<open>archives\<close>
  is the state of the archive service.
\<close>

record tracker =
  trackingState :: tracking_state
  idleTimers :: "string \<rightharpoonup> int"
  lastOutputTimes :: "string \<rightharpoonup> int"
  globalLastOutputTime :: int
  globalIdleTimer :: "int option"
  lastHeartbeat :: int
  lastKnownDate :: "string option"
  projectsStateRef :: "projects_state option"
  saveRequests :: nat
  draws :: nat
  archives :: archive_store

definition IDLE_TIMEOUT :: int where
  "IDLE_TIMEOUT = 15 * 60 * 1000"

definition OUTPUT_IDLE_TIMEOUT :: int where
  "OUTPUT_IDLE_TIMEOUT = 2 * 60 * 1000"

definition SLEEP_GAP_THRESHOLD :: int where
  "SLEEP_GAP_THRESHOLD = 2 * 60 * 1000"

definition CHECKPOINT_INTERVAL :: int where
  "CHECKPOINT_INTERVAL = 5 * 60 * 1000"

section \<open>The startup sanitizer\<close>

definition maxReasonableDuration :: real where
  "maxReasonableDuration = 24 * 60 * 60 * 1000"

text \<open>The callback of the two \<^verbatim>\<open>sessions.filter\<close> calls, one early return per line.\<close>

definition validSession :: "runtime \<Rightarrow> psession \<Rightarrow> bool" where
  "validSession rt s =
     (if \<not> truthy_str (startTime s) \<or> \<not> truthy_str (endTime s) then False
      else if \<not> isFinite (duration s) \<or> js_le (duration s) (Fin 0) then False
      else if js_less (Fin maxReasonableDuration) (duration s) then False
      else (case parseDate rt (startTime s) of
              None \<Rightarrow> False
            | Some start \<Rightarrow>
                (case parseDate rt (endTime s) of
                   None \<Rightarrow> False
                 | Some end' \<Rightarrow> if end' < start then False else True)))"

text \<open>
  The sanitizer repairs a copy of a tracking record step by step and keeps a flag
  that says whether anything was changed. Each step takes and returns the record with
  the flag. Clamping a counter: \<^verbatim>\<open>!Number.isFinite(x) || x < 0\<close> resets it to 0.
\<close>

definition badCounter :: "jsnum \<Rightarrow> bool" where
  "badCounter x = (\<not> isFinite x \<or> js_less x (Fin 0))"

definition clampCounter :: "('a \<Rightarrow> jsnum) \<Rightarrow> ((jsnum \<Rightarrow> jsnum) \<Rightarrow> 'a \<Rightarrow> 'a) \<Rightarrow> 'a \<times> bool
    \<Rightarrow> 'a \<times> bool" where
  "clampCounter getField updateField tc =
     (if badCounter (getField (fst tc)) then (updateField (\<lambda>x. Fin 0) (fst tc), True) else tc)"

text \<open>A \<^verbatim>\<open>lastActiveDate\<close> more than one day after \<open>now\<close> (projects only).\<close>

definition fixFutureDate :: "runtime \<Rightarrow> int \<Rightarrow> time_tracking \<times> bool \<Rightarrow> time_tracking \<times> bool" where
  "fixFutureDate rt now tc =
     (case lastActiveDate (fst tc) of
        None \<Rightarrow> tc
      | Some d \<Rightarrow>
          if truthy_str d
          then (case parseDate rt (d @ ''T00:00:00'') of
                  None \<Rightarrow> tc
                | Some lastDate \<Rightarrow>
                    if lastDate > now + 86400000
                    then ((fst tc)\<lparr> lastActiveDate := None, todayTime := Fin 0 \<rparr>, True)
                    else tc)
          else tc)"

text \<open>The session filter, the same code in the project block and in the global block.\<close>

definition filterSessions :: "runtime \<Rightarrow> 'a time_tracking_scheme \<times> bool
    \<Rightarrow> 'a time_tracking_scheme \<times> bool" where
  "filterSessions rt tc =
     (let validSessions = filter (validSession rt) (sessions (fst tc))
      in if length validSessions \<noteq> length (sessions (fst tc))
         then ((fst tc)\<lparr> sessions := validSessions \<rparr>, True) else tc)"

text \<open>
  The body of the \<^verbatim>\<open>projects.map\<close> callback: the project and whether it was
  changed.
\<close>

definition sanitizeProject :: "runtime \<Rightarrow> int \<Rightarrow> project \<Rightarrow> project \<times> bool" where
  "sanitizeProject rt now p =
     (case timeTracking p of
        None \<Rightarrow> (p, False)
      | Some t0 \<Rightarrow>
          (let tc = filterSessions rt
                      (fixFutureDate rt now
                         (clampCounter todayTime todayTime_update
                            (clampCounter totalTime totalTime_update (t0, False))))
           in if snd tc then (p\<lparr> timeTracking := Some (fst tc) \<rparr>, True) else (p, False)))"

text \<open>
  The global block: the loop over \<^verbatim>\<open>['totalTime', 'todayTime', 'weekTime',
  'monthTime']\<close> and the session filter. It has no step for \<^verbatim>\<open>lastActiveDate\<close>.
\<close>

definition sanitizeGlobal :: "runtime \<Rightarrow> global_time_tracking
    \<Rightarrow> global_time_tracking \<times> bool" where
  "sanitizeGlobal rt g0 =
     filterSessions rt
       (clampCounter monthTime monthTime_update
          (clampCounter weekTime weekTime_update
             (clampCounter todayTime todayTime_update
                (clampCounter totalTime totalTime_update (g0, False)))))"

definition sanitizeTimeTrackingData :: "runtime \<Rightarrow> int \<Rightarrow> tracker \<Rightarrow> tracker" where
  "sanitizeTimeTrackingData rt now w =
     (case projectsStateRef w of
        None \<Rightarrow> w
      | Some currentState \<Rightarrow>
          (let results = map (sanitizeProject rt now) (projects currentState);
               projects' = map fst results;
               globalResult = map_option (sanitizeGlobal rt) (globalTimeTracking currentState);
               needsSave = (list_ex snd results
                            \<or> (case globalResult of None \<Rightarrow> False | Some gc \<Rightarrow> snd gc))
           in if needsSave
              then w\<lparr> projectsStateRef :=
                        Some (currentState\<lparr> projects := projects',
                           globalTimeTracking :=
                             (case globalResult of
                                None \<Rightarrow> globalTimeTracking currentState
                              | Some gc \<Rightarrow> Some (fst gc)) \<rparr>),
                      saveRequests := Suc (saveRequests w) \<rparr>
              else w))"

section \<open>Date strings and session ids\<close>

definition getTodayString :: "runtime \<Rightarrow> int \<Rightarrow> string" where
  "getTodayString rt now =
     show_int (getFullYear rt now) @ ''-'' @ padStart2 (show_int (getMonth rt now + 1))
       @ ''-'' @ padStart2 (show_int (getDate rt now))"

definition getWeekStartString :: "runtime \<Rightarrow> int \<Rightarrow> string" where
  "getWeekStartString rt now =
     (let day = getDay rt now;
          diff = (if day = 0 then 6 else day - 1);
          monday = setHours0 rt (setDate rt now (getDate rt now - diff))
      in takeWhile (\<lambda>c. c \<noteq> CHR ''T'') (toISOString rt monday))"

definition getMonthString :: "runtime \<Rightarrow> int \<Rightarrow> string" where
  "getMonthString rt now =
     show_int (getFullYear rt now) @ ''-'' @ padStart2 (show_int (getMonth rt now + 1))"

definition generateSessionId :: "runtime \<Rightarrow> int \<Rightarrow> nat \<Rightarrow> string" where
  "generateSessionId rt now n = ''sess-'' @ show_int now @ ''-'' @ randomSuffix rt n"

section \<open>Persisting a closed interval\<close>

definition isActive :: "tracked \<Rightarrow> bool" where
  "isActive session = (truthy_ts (sessionStartTime session) \<and> \<not> isIdle session)"

definition getActiveNonIdleCount :: "tracker \<Rightarrow> nat" where
  "getActiveNonIdleCount w =
     length (filter (\<lambda>(k, session). isActive session) (activeSessions (trackingState w)))"

text \<open>
  \<^verbatim>\<open>saveGlobalSession\<close>. A session that started in the current month is appended to
  the live list; any other goes to the archive of its month.
\<close>

definition saveGlobalSession :: "runtime \<Rightarrow> int \<Rightarrow> int \<Rightarrow> int \<Rightarrow> int \<Rightarrow> tracker \<Rightarrow> tracker" where
  "saveGlobalSession rt now startT endT dur w =
     (case projectsStateRef w of
        None \<Rightarrow> w
      | Some currentState \<Rightarrow>
          (let today = getTodayString rt now;
               wkStart = getWeekStartString rt now;
               moStart = getMonthString rt now;
               prev = (case globalTimeTracking currentState of
                         Some g \<Rightarrow> g
                       | None \<Rightarrow> \<lparr> totalTime = Fin 0, todayTime = Fin 0, lastActiveDate = None,
                                   sessions = [], weekTime = Fin 0, monthTime = Fin 0,
                                   weekStart = None, monthStart = None \<rparr>);
               todayTime' = js_add (if lastActiveDate prev \<noteq> Some today then Fin 0
                                    else or0 (todayTime prev)) (of_int dur);
               weekTime' = js_add (if weekStart prev \<noteq> Some wkStart then Fin 0
                                   else or0 (weekTime prev)) (of_int dur);
               monthTime' = js_add (if monthStart prev \<noteq> Some moStart then Fin 0
                                    else or0 (monthTime prev)) (of_int dur);
               newSession = \<lparr> sid = generateSessionId rt now (draws w),
                              startTime = toISOString rt startT,
                              endTime = toISOString rt endT,
                              duration = Fin (of_int dur) \<rparr>;
               isCurrentMonthSession = (getFullYear rt startT = getFullYear rt now
                                        \<and> getMonth rt startT = getMonth rt now);
               sessions' = (if isCurrentMonthSession then sessions prev @ [newSession]
                            else sessions prev);
               archives' = (if isCurrentMonthSession then archives w
                            else appendToArchive rt now (getFullYear rt startT)
                                   (getMonth rt startT) [newSession] [] (archives w));
               globalTracking = prev\<lparr> totalTime := js_add (or0 (totalTime prev)) (of_int dur),
                                       todayTime := todayTime', weekTime := weekTime',
                                       monthTime := monthTime', lastActiveDate := Some today,
                                       weekStart := Some wkStart, monthStart := Some moStart,
                                       sessions := sessions' \<rparr>
           in w\<lparr> projectsStateRef :=
                     Some (currentState\<lparr> globalTimeTracking := Some globalTracking \<rparr>),
                   saveRequests := Suc (saveRequests w),
                   draws := Suc (draws w),
                   archives := archives' \<rparr>))"

text \<open>
  \<^verbatim>\<open>saveSession\<close>. The callback of \<^verbatim>\<open>projects.map\<close> returns the updated project
  and, for a session of another month, calls \<^verbatim>\<open>appendToArchive\<close>:
  \<open>saveSessionProject\<close> is the value the callback returns and \<open>saveSessionArchive\<close>
  its effect on the archive service, applied project by project in the order of the
  list. A project that has no \<^verbatim>\<open>timeTracking\<close> starts from the zero record.
\<close>

definition saveSessionProject :: "string \<Rightarrow> string \<Rightarrow> psession \<Rightarrow> bool \<Rightarrow> int
    \<Rightarrow> project \<Rightarrow> project" where
  "saveSessionProject projectId today newSession isCurrentMonthSession dur p =
     (if pid p \<noteq> projectId then p
      else
        (let t0 = (case timeTracking p of
                     Some t \<Rightarrow> t
                   | None \<Rightarrow> \<lparr> totalTime = Fin 0, todayTime = Fin 0, lastActiveDate = None,
                               sessions = [] \<rparr>);
             t1 = (if lastActiveDate t0 \<noteq> Some today then t0\<lparr> todayTime := Fin 0 \<rparr> else t0);
             t2 = t1\<lparr> totalTime := js_add (or0 (totalTime t1)) (of_int dur) \<rparr>;
             t3 = t2\<lparr> todayTime := js_add (or0 (todayTime t2)) (of_int dur) \<rparr>;
             t4 = t3\<lparr> lastActiveDate := Some today \<rparr>;
             t5 = (if isCurrentMonthSession then t4\<lparr> sessions := sessions t4 @ [newSession] \<rparr>
                   else t4)
         in p\<lparr> timeTracking := Some t5 \<rparr>))"

definition saveSessionArchive :: "runtime \<Rightarrow> int \<Rightarrow> string \<Rightarrow> int \<Rightarrow> psession \<Rightarrow> bool
    \<Rightarrow> project \<Rightarrow> archive_store \<Rightarrow> archive_store" where
  "saveSessionArchive rt now projectId startT newSession isCurrentMonthSession p st =
     (if pid p \<noteq> projectId \<or> isCurrentMonthSession then st
      else appendToArchive rt now (getFullYear rt startT) (getMonth rt startT) []
             [(projectId, \<lparr> projectName = pname p, entrySessions = [newSession] \<rparr>)] st)"

definition saveSession :: "runtime \<Rightarrow> int \<Rightarrow> string \<Rightarrow> int \<Rightarrow> int \<Rightarrow> int \<Rightarrow> tracker
    \<Rightarrow> tracker" where
  "saveSession rt now projectId startT endT dur w =
     (case projectsStateRef w of
        None \<Rightarrow> w
      | Some currentState \<Rightarrow>
          (let today = getTodayString rt now;
               newSession = \<lparr> sid = generateSessionId rt now (draws w),
                              startTime = toISOString rt startT,
                              endTime = toISOString rt endT,
                              duration = Fin (of_int dur) \<rparr>;
               isCurrentMonthSession = (getFullYear rt startT = getFullYear rt now
                                        \<and> getMonth rt startT = getMonth rt now);
               projects' = map (saveSessionProject projectId today newSession
                                  isCurrentMonthSession dur) (projects currentState);
               archives' = fold (saveSessionArchive rt now projectId startT newSession
                                   isCurrentMonthSession) (projects currentState) (archives w)
           in w\<lparr> projectsStateRef := Some (currentState\<lparr> projects := projects' \<rparr>),
                   saveRequests := Suc (saveRequests w),
                   draws := Suc (draws w),
                   archives := archives' \<rparr>))"

section \<open>The global interval\<close>

definition globalActive :: "tracking_state \<Rightarrow> bool" where
  "globalActive state = (truthy_ts (globalSessionStartTime state) \<and> \<not> globalIsIdle state)"

definition startGlobalTimer :: "int \<Rightarrow> tracker \<Rightarrow> tracker" where
  "startGlobalTimer now w =
     (let state = trackingState w in
      if globalActive state then w
      else w\<lparr> trackingState := state\<lparr> globalSessionStartTime := Some now,
                                          globalLastActivityTime := Some now,
                                          globalIsIdle := False \<rparr>,
              globalIdleTimer := Some (now + IDLE_TIMEOUT) \<rparr>)"

definition pauseGlobalTimer :: "runtime \<Rightarrow> int \<Rightarrow> tracker \<Rightarrow> tracker" where
  "pauseGlobalTimer rt now w =
     (let state = trackingState w in
      case globalSessionStartTime state of
        None \<Rightarrow> w
      | Some start \<Rightarrow>
          if start = 0 \<or> globalIsIdle state then w
          else
            (let dur = now - start;
                 w1 = (if dur > 1000 then saveGlobalSession rt now start now dur w else w)
             in w1\<lparr> trackingState := state\<lparr> globalSessionStartTime := None,
                                                 globalIsIdle := True \<rparr> \<rparr>))"

definition resumeGlobalTimer :: "int \<Rightarrow> tracker \<Rightarrow> tracker" where
  "resumeGlobalTimer now w =
     (let state = trackingState w in
      if \<not> globalIsIdle state then w
      else w\<lparr> trackingState := state\<lparr> globalSessionStartTime := Some now,
                                          globalLastActivityTime := Some now,
                                          globalIsIdle := False \<rparr>,
              globalIdleTimer := Some (now + IDLE_TIMEOUT) \<rparr>)"

definition stopGlobalTimer :: "runtime \<Rightarrow> int \<Rightarrow> tracker \<Rightarrow> tracker" where
  "stopGlobalTimer rt now w =
     (let state = trackingState w;
          w1 = (case globalSessionStartTime state of
                  None \<Rightarrow> w
                | Some start \<Rightarrow>
                    if start \<noteq> 0 \<and> \<not> globalIsIdle state \<and> now - start > 1000
                    then saveGlobalSession rt now start now (now - start) w
                    else w)
      in w1\<lparr> globalIdleTimer := None,
               trackingState := state\<lparr> globalSessionStartTime := None,
                                          globalLastActivityTime := None,
                                          globalIsIdle := False \<rparr> \<rparr>)"

definition resetGlobalIdleTimer :: "int \<Rightarrow> tracker \<Rightarrow> tracker" where
  "resetGlobalIdleTimer now w =
     (let state = trackingState w in
      if globalIsIdle state then resumeGlobalTimer now w
      else if truthy_ts (globalSessionStartTime state)
      then w\<lparr> globalIdleTimer := Some (now + IDLE_TIMEOUT),
              trackingState := state\<lparr> globalLastActivityTime := Some now \<rparr> \<rparr>
      else w)"

section \<open>Per-project tracking\<close>

definition resumeTracking :: "int \<Rightarrow> string \<Rightarrow> tracker \<Rightarrow> tracker" where
  "resumeTracking now projectId w =
     (case map_of (activeSessions (trackingState w)) projectId of
        None \<Rightarrow> w
      | Some session \<Rightarrow>
          if \<not> isIdle session then w
          else
            (let wasAllIdle = (getActiveNonIdleCount w = 0);
                 activeSessions' = AList.update projectId
                     \<lparr> sessionStartTime = Some now, lastActivityTime = now, isIdle = False \<rparr>
                     (activeSessions (trackingState w));
                 w1 = w\<lparr> trackingState := (trackingState w)\<lparr> activeSessions := activeSessions' \<rparr> \<rparr>;
                 w2 = (if wasAllIdle then resumeGlobalTimer now w1 else w1)
             in w2\<lparr> idleTimers := (idleTimers w2)(projectId \<mapsto> now + IDLE_TIMEOUT) \<rparr>))"

definition startTracking :: "int \<Rightarrow> string \<Rightarrow> tracker \<Rightarrow> tracker" where
  "startTracking now projectId w =
     (if \<not> truthy_str projectId then w
      else
        (let existingSession = map_of (activeSessions (trackingState w)) projectId in
         if (case existingSession of None \<Rightarrow> False | Some e \<Rightarrow> isActive e) then w
         else if (case existingSession of None \<Rightarrow> False | Some e \<Rightarrow> isIdle e)
         then resumeTracking now projectId w
         else
           (let wasEmpty = (getActiveNonIdleCount w = 0);
                activeSessions' = AList.update projectId
                    \<lparr> sessionStartTime = Some now, lastActivityTime = now, isIdle = False \<rparr>
                    (activeSessions (trackingState w));
                w1 = w\<lparr> trackingState := (trackingState w)\<lparr> activeSessions := activeSessions' \<rparr> \<rparr>;
                w2 = (if wasEmpty then startGlobalTimer now w1 else w1)
            in w2\<lparr> idleTimers := (idleTimers w2)(projectId \<mapsto> now + IDLE_TIMEOUT) \<rparr>)))"

definition stopTracking :: "runtime \<Rightarrow> int \<Rightarrow> string \<Rightarrow> tracker \<Rightarrow> tracker" where
  "stopTracking rt now projectId w =
     (let activeSessions' = AList.delete projectId (activeSessions (trackingState w)) in
      case map_of (activeSessions (trackingState w)) projectId of
        None \<Rightarrow> w\<lparr> trackingState := (trackingState w)\<lparr> activeSessions := activeSessions' \<rparr> \<rparr>
      | Some session \<Rightarrow>
          if \<not> truthy_ts (sessionStartTime session)
          then w\<lparr> trackingState := (trackingState w)\<lparr> activeSessions := activeSessions' \<rparr> \<rparr>
          else
            (let start = the (sessionStartTime session);
                 dur = now - start;
                 w1 = (if dur > 1000 then saveSession rt now projectId start now dur w else w);
                 w2 = w1\<lparr> idleTimers := (idleTimers w1)(projectId := None),
                          lastOutputTimes := (lastOutputTimes w1)(projectId := None),
                          trackingState := (trackingState w1)\<lparr> activeSessions := activeSessions' \<rparr> \<rparr>
             in if getActiveNonIdleCount w2 = 0 then stopGlobalTimer rt now w2 else w2))"

definition pauseTracking :: "runtime \<Rightarrow> int \<Rightarrow> string \<Rightarrow> tracker \<Rightarrow> tracker" where
  "pauseTracking rt now projectId w =
     (case map_of (activeSessions (trackingState w)) projectId of
        None \<Rightarrow> w
      | Some session \<Rightarrow>
          if \<not> truthy_ts (sessionStartTime session) \<or> isIdle session then w
          else
            (let start = the (sessionStartTime session);
                 dur = now - start;
                 w1 = (if dur > 1000 then saveSession rt now projectId start now dur w else w);
                 activeSessions' = AList.update projectId
                     (session\<lparr> sessionStartTime := None, isIdle := True \<rparr>)
                     (activeSessions (trackingState w));
                 w2 = w1\<lparr> trackingState := (trackingState w1)\<lparr> activeSessions := activeSessions' \<rparr> \<rparr>
             in if getActiveNonIdleCount w2 = 0 then pauseGlobalTimer rt now w2 else w2))"

definition recordActivity :: "int \<Rightarrow> string \<Rightarrow> tracker \<Rightarrow> tracker" where
  "recordActivity now projectId w =
     (if \<not> truthy_str projectId then w
      else
        (case map_of (activeSessions (trackingState w)) projectId of
           None \<Rightarrow> startTracking now projectId w
         | Some session \<Rightarrow>
             if isIdle session then resumeTracking now projectId w
             else
               (let w1 = w\<lparr> idleTimers := (idleTimers w)(projectId \<mapsto> now + IDLE_TIMEOUT) \<rparr>;
                    w2 = resetGlobalIdleTimer now w1;
                    activeSessions' = AList.update projectId
                        (session\<lparr> lastActivityTime := now \<rparr>)
                        (activeSessions (trackingState w))
                in w2\<lparr> trackingState := (trackingState w2)\<lparr> activeSessions := activeSessions' \<rparr> \<rparr>)))"

text \<open>The callbacks of the two idle timers, and \<^verbatim>\<open>recordOutputActivity\<close>.\<close>

definition checkAndPauseTracking :: "runtime \<Rightarrow> int \<Rightarrow> string \<Rightarrow> tracker \<Rightarrow> tracker" where
  "checkAndPauseTracking rt now projectId w =
     (let lastOutput = (case lastOutputTimes w projectId of None \<Rightarrow> 0 | Some t \<Rightarrow> t);
          timeSinceOutput = now - lastOutput
      in if timeSinceOutput < OUTPUT_IDLE_TIMEOUT
         then (let delay = OUTPUT_IDLE_TIMEOUT - timeSinceOutput + 100
               in w\<lparr> idleTimers := (idleTimers w)(projectId \<mapsto> now + delay) \<rparr>)
         else pauseTracking rt now projectId w)"

definition checkAndPauseGlobalTimer :: "runtime \<Rightarrow> int \<Rightarrow> tracker \<Rightarrow> tracker" where
  "checkAndPauseGlobalTimer rt now w =
     (let timeSinceOutput = now - globalLastOutputTime w
      in if timeSinceOutput < OUTPUT_IDLE_TIMEOUT
         then (let delay = OUTPUT_IDLE_TIMEOUT - timeSinceOutput + 100
               in w\<lparr> globalIdleTimer := Some (now + delay) \<rparr>)
         else pauseGlobalTimer rt now w)"

definition recordOutputActivity :: "int \<Rightarrow> string \<Rightarrow> tracker \<Rightarrow> tracker" where
  "recordOutputActivity now projectId w =
     (if \<not> truthy_str projectId then w
      else
        (case map_of (activeSessions (trackingState w)) projectId of
           None \<Rightarrow> w
         | Some session \<Rightarrow>
             if isIdle session then w
             else w\<lparr> lastOutputTimes := (lastOutputTimes w)(projectId \<mapsto> now),
                     globalLastOutputTime := now \<rparr>))"

definition isTracking :: "tracker \<Rightarrow> string \<Rightarrow> bool" where
  "isTracking w projectId =
     (case map_of (activeSessions (trackingState w)) projectId of
        None \<Rightarrow> False
      | Some session \<Rightarrow> isActive session)"

definition getActiveProjectCount :: "tracker \<Rightarrow> nat" where
  "getActiveProjectCount w =
     length (filter (\<lambda>(k, session). isActive session) (activeSessions (trackingState w)))"

section \<open>The boundary detectors\<close>

text \<open>
  The three detectors loop over a copy of \<^verbatim>\<open>activeSessions\<close>, save the closed part
  of every active interval and \<^verbatim>\<open>set\<close> the entry they are visiting. Setting the
  entry of the key being visited changes neither the keys nor the order, and
  \<^verbatim>\<open>saveSession\<close> does not read the runtime intervals, so each loop is the list of
  updated entries (a \<open>map\<close>) together with the saves in the order of the entries
  (a \<open>fold\<close>).
\<close>

definition sleepCutEntry :: "int \<Rightarrow> string \<times> tracked \<Rightarrow> string \<times> tracked" where
  "sleepCutEntry wakeTime entry =
     (let session = snd entry in
      if isActive session
      then (fst entry, session\<lparr> sessionStartTime := Some wakeTime, lastActivityTime := wakeTime \<rparr>)
      else entry)"

definition sleepCutSave :: "runtime \<Rightarrow> int \<Rightarrow> int \<Rightarrow> string \<times> tracked \<Rightarrow> tracker \<Rightarrow> tracker" where
  "sleepCutSave rt now sleepStart entry w =
     (let session = snd entry in
      if isActive session \<and> sleepStart - the (sessionStartTime session) > 1000
      then saveSession rt now (fst entry) (the (sessionStartTime session)) sleepStart
             (sleepStart - the (sessionStartTime session)) w
      else w)"

definition handleSleepWake :: "runtime \<Rightarrow> int \<Rightarrow> int \<Rightarrow> int \<Rightarrow> tracker \<Rightarrow> tracker" where
  "handleSleepWake rt now sleepStart wakeTime w =
     (let state = trackingState w;
          w1 = (if globalActive state
                then (let start = the (globalSessionStartTime state);
                          dur = sleepStart - start;
                          wa = (if dur > 1000
                                then saveGlobalSession rt now start sleepStart dur w else w)
                      in wa\<lparr> trackingState := (trackingState wa)
                               \<lparr> globalSessionStartTime := Some wakeTime,
                                 globalLastActivityTime := Some wakeTime \<rparr> \<rparr>)
                else w);
          entries = activeSessions (trackingState w1);
          w2 = fold (sleepCutSave rt now sleepStart) entries w1
      in w2\<lparr> trackingState := (trackingState w2)
               \<lparr> activeSessions := map (sleepCutEntry wakeTime) entries \<rparr> \<rparr>)"

definition checkSleepWake :: "runtime \<Rightarrow> int \<Rightarrow> tracker \<Rightarrow> tracker" where
  "checkSleepWake rt now w =
     (let elapsed = now - lastHeartbeat w;
          w1 = w\<lparr> lastHeartbeat := now \<rparr>
      in if elapsed > SLEEP_GAP_THRESHOLD then handleSleepWake rt now (now - elapsed) now w1
         else w1)"

definition midnightEntry :: "int \<Rightarrow> int \<Rightarrow> string \<times> tracked \<Rightarrow> string \<times> tracked" where
  "midnightEntry now midnightTs entry =
     (let session = snd entry in
      if isActive session
      then (fst entry, session\<lparr> sessionStartTime := Some midnightTs, lastActivityTime := now \<rparr>)
      else entry)"

definition midnightSave :: "runtime \<Rightarrow> int \<Rightarrow> int \<Rightarrow> string \<times> tracked \<Rightarrow> tracker \<Rightarrow> tracker" where
  "midnightSave rt now midnightTs entry w =
     (let session = snd entry in
      if isActive session \<and> midnightTs - the (sessionStartTime session) > 1000
      then saveSession rt now (fst entry) (the (sessionStartTime session)) midnightTs
             (midnightTs - the (sessionStartTime session)) w
      else w)"

definition splitSessionsAtMidnight :: "runtime \<Rightarrow> int \<Rightarrow> tracker \<Rightarrow> tracker" where
  "splitSessionsAtMidnight rt now w =
     (let state = trackingState w;
          midnightTs = setHours0 rt now;
          w1 = (if globalActive state
                then (let start = the (globalSessionStartTime state);
                          dur = midnightTs - start;
                          wa = (if dur > 1000
                                then saveGlobalSession rt now start midnightTs dur w else w)
                      in wa\<lparr> trackingState := (trackingState wa)
                               \<lparr> globalSessionStartTime := Some midnightTs,
                                 globalLastActivityTime := Some now \<rparr> \<rparr>)
                else w);
          entries = activeSessions (trackingState w1);
          w2 = fold (midnightSave rt now midnightTs) entries w1
      in w2\<lparr> trackingState := (trackingState w2)
               \<lparr> activeSessions := map (midnightEntry now midnightTs) entries \<rparr> \<rparr>)"

definition checkpointDue :: "int \<Rightarrow> tracked \<Rightarrow> bool" where
  "checkpointDue now session =
     (isActive session \<and> now - the (sessionStartTime session) > 1000)"

definition checkpointEntry :: "int \<Rightarrow> string \<times> tracked \<Rightarrow> string \<times> tracked" where
  "checkpointEntry now entry =
     (if checkpointDue now (snd entry)
      then (fst entry, (snd entry)\<lparr> sessionStartTime := Some now \<rparr>)
      else entry)"

definition checkpointSave :: "runtime \<Rightarrow> int \<Rightarrow> string \<times> tracked \<Rightarrow> tracker \<Rightarrow> tracker" where
  "checkpointSave rt now entry w =
     (if checkpointDue now (snd entry)
      then saveSession rt now (fst entry) (the (sessionStartTime (snd entry))) now
             (now - the (sessionStartTime (snd entry))) w
      else w)"

definition saveCheckpoints :: "runtime \<Rightarrow> int \<Rightarrow> tracker \<Rightarrow> tracker" where
  "saveCheckpoints rt now w =
     (let state = trackingState w;
          entries = activeSessions state;
          projectsChanged = list_ex (\<lambda>entry. checkpointDue now (snd entry)) entries;
          w1 = fold (checkpointSave rt now) entries w;
          globalChanged = (globalActive state \<and> now - the (globalSessionStartTime state) > 1000);
          w2 = (if globalChanged
                then saveGlobalSession rt now (the (globalSessionStartTime state)) now
                       (now - the (globalSessionStartTime state)) w1
                else w1);
          s1 = (if projectsChanged
                then (trackingState w2)\<lparr> activeSessions := map (checkpointEntry now) entries \<rparr>
                else trackingState w2);
          s2 = (if globalChanged then s1\<lparr> globalSessionStartTime := Some now \<rparr> else s1)
      in if projectsChanged \<or> globalChanged then w2\<lparr> trackingState := s2 \<rparr> else w2)"

section \<open>Runs of the tracker\<close>

text \<open>
  What can happen to the tracker once it runs: one of the four inbound signals, the
  callback of a project's idle timer or of the global idle timer, a heartbeat tick, a
  midnight split or a checkpoint tick, each at the time the clock shows when it
  happens. The event loop runs one callback at a time, so a run is a list of timed
  events.
\<close>

datatype event =
    StartTracking string
  | StopTracking string
  | RecordActivity string
  | RecordOutputActivity string
  | IdleTimeout string
  | GlobalIdleTimeout
  | HeartbeatTick
  | MidnightSplit
  | CheckpointTick

fun step :: "runtime \<Rightarrow> int \<times> event \<Rightarrow> tracker \<Rightarrow> tracker" where
  "step rt (now, StartTracking p) w = startTracking now p w"
| "step rt (now, StopTracking p) w = stopTracking rt now p w"
| "step rt (now, RecordActivity p) w = recordActivity now p w"
| "step rt (now, RecordOutputActivity p) w = recordOutputActivity now p w"
| "step rt (now, IdleTimeout p) w = checkAndPauseTracking rt now p w"
| "step rt (now, GlobalIdleTimeout) w = checkAndPauseGlobalTimer rt now w"
| "step rt (now, HeartbeatTick) w = checkSleepWake rt now w"
| "step rt (now, MidnightSplit) w = splitSessionsAtMidnight rt now w"
| "step rt (now, CheckpointTick) w = saveCheckpoints rt now w"

definition run :: "runtime \<Rightarrow> (int \<times> event) list \<Rightarrow> tracker \<Rightarrow> tracker" where
  "run rt evs w = fold (step rt) evs w"

section \<open>A concrete runtime: the UTC calendar\<close>

text \<open>
  The concrete evaluations below run the model in a runtime whose local time zone is
  UTC: the proleptic Gregorian calendar on days since the epoch, ISO strings for the
  years 0 to 9999, a parser for the two shapes of date string the program itself
  produces (\<^verbatim>\<open>YYYY-MM-DDTHH:mm:ss\<close> and \<^verbatim>\<open>YYYY-MM-DDTHH:mm:ss.sssZ\<close>; every other
  string is an invalid date here), random suffixes \<^verbatim>\<open>r0\<close>, \<^verbatim>\<open>r1\<close>, ... and
  writes that always succeed.
\<close>

definition msPerDay :: int where
  "msPerDay = 86400000"

definition civil_from_days :: "int \<Rightarrow> int \<times> int \<times> int" where
  "civil_from_days z0 =
     (let z = z0 + 719468;
          era = z div 146097;
          doe = z - era * 146097;
          yoe = (doe - doe div 1460 + doe div 36524 - doe div 146096) div 365;
          y = yoe + era * 400;
          doy = doe - (365 * yoe + yoe div 4 - yoe div 100);
          mp = (5 * doy + 2) div 153;
          d = doy - (153 * mp + 2) div 5 + 1;
          m = (if mp < 10 then mp + 3 else mp - 9)
      in (if m \<le> 2 then y + 1 else y, m, d))"

definition days_from_civil :: "int \<Rightarrow> int \<Rightarrow> int \<Rightarrow> int" where
  "days_from_civil y0 m d =
     (let y = (if m \<le> 2 then y0 - 1 else y0);
          era = y div 400;
          yoe = y - era * 400;
          doy = (153 * (if m > 2 then m - 3 else m + 9) + 2) div 5 + d - 1;
          doe = yoe * 365 + yoe div 4 - yoe div 100 + doy
      in era * 146097 + doe - 719468)"

definition utc_getFullYear :: "int \<Rightarrow> int" where
  "utc_getFullYear t = fst (civil_from_days (t div msPerDay))"

definition utc_getMonth :: "int \<Rightarrow> int" where
  "utc_getMonth t = fst (snd (civil_from_days (t div msPerDay))) - 1"

definition utc_getDate :: "int \<Rightarrow> int" where
  "utc_getDate t = snd (snd (civil_from_days (t div msPerDay)))"

definition utc_getDay :: "int \<Rightarrow> int" where
  "utc_getDay t = (t div msPerDay + 4) mod 7"

definition utc_setHours0 :: "int \<Rightarrow> int" where
  "utc_setHours0 t = t - t mod msPerDay"

definition utc_setDate :: "int \<Rightarrow> int \<Rightarrow> int" where
  "utc_setDate t d = t + (d - utc_getDate t) * msPerDay"

definition padNum :: "nat \<Rightarrow> int \<Rightarrow> string" where
  "padNum w n = (let s = show_int n in replicate (w - length s) CHR ''0'' @ s)"

definition utc_toISOString :: "int \<Rightarrow> string" where
  "utc_toISOString t =
     (let r = t mod msPerDay in
      padNum 4 (utc_getFullYear t) @ ''-'' @ padNum 2 (utc_getMonth t + 1) @ ''-''
        @ padNum 2 (utc_getDate t) @ ''T'' @ padNum 2 (r div 3600000) @ '':''
        @ padNum 2 (r div 60000 mod 60) @ '':'' @ padNum 2 (r div 1000 mod 60) @ ''.''
        @ padNum 3 (r mod 1000) @ ''Z'')"

definition digit_val :: "char \<Rightarrow> int option" where
  "digit_val c = map_of (zip ''0123456789'' [0, 1, 2, 3, 4, 5, 6, 7, 8, 9]) c"

fun read_digits :: "string \<Rightarrow> int \<Rightarrow> int option" where
  "read_digits [] acc = Some acc"
| "read_digits (c # cs) acc =
     (case digit_val c of None \<Rightarrow> None | Some d \<Rightarrow> read_digits cs (10 * acc + d))"

definition field :: "string \<Rightarrow> nat \<Rightarrow> nat \<Rightarrow> int option" where
  "field s i n = read_digits (take n (drop i s)) 0"

definition utc_parseDate :: "string \<Rightarrow> int option" where
  "utc_parseDate s =
     (if (length s = 19 \<or> length s = 24 \<and> s ! 19 = CHR ''.'' \<and> s ! 23 = CHR ''Z'')
         \<and> s ! 4 = CHR ''-'' \<and> s ! 7 = CHR ''-'' \<and> s ! 10 = CHR ''T''
         \<and> s ! 13 = CHR '':'' \<and> s ! 16 = CHR '':''
      then (case (field s 0 4, field s 5 2, field s 8 2, field s 11 2, field s 14 2,
                  field s 17 2, if length s = 24 then field s 20 3 else Some 0) of
              (Some y, Some m, Some d, Some h, Some mi, Some sec, Some ms) \<Rightarrow>
                (if 1 \<le> m \<and> m \<le> 12 \<and> 1 \<le> d \<and> d \<le> 31 \<and> h < 24 \<and> mi < 60 \<and> sec < 60
                 then Some (days_from_civil y m d * msPerDay + h * 3600000 + mi * 60000
                            + sec * 1000 + ms)
                 else None)
            | _ \<Rightarrow> None)
      else None)"

definition utc_runtime :: runtime where
  "utc_runtime =
     \<lparr> getFullYear = utc_getFullYear, getMonth = utc_getMonth, getDate = utc_getDate,
       getDay = utc_getDay, setHours0 = utc_setHours0, setDate = utc_setDate,
       toISOString = utc_toISOString, parseDate = utc_parseDate,
       randomSuffix = (\<lambda>n. CHR ''r'' # show_nat n), writeOk = (\<lambda>n. True) \<rparr>"

section \<open>Observations and sample data\<close>

text \<open>
  What is on disk for a month, read without the cache, and the condition under which an
  incoming list merges cleanly into a stored one: neither list repeats an id, and an
  incoming session whose id is already stored is the stored session.
\<close>

definition mergeable :: "psession list \<Rightarrow> psession list \<Rightarrow> bool" where
  "mergeable old new \<longleftrightarrow> distinct (map sid old) \<and> distinct (map sid new)
     \<and> (\<forall>s \<in> set new. \<forall>s' \<in> set old. sid s = sid s' \<longrightarrow> s = s')"

definition diskGlobalSessions :: "archive_store \<Rightarrow> int \<Rightarrow> int \<Rightarrow> psession list" where
  "diskGlobalSessions st year mon =
     (case readArchiveFromDisk st (getArchiveFilePath year mon) of
        None \<Rightarrow> [] | Some a \<Rightarrow> globalSessions a)"

definition diskProjectSessions :: "archive_store \<Rightarrow> int \<Rightarrow> int \<Rightarrow> string \<Rightarrow> psession list" where
  "diskProjectSessions st year mon projectId =
     (case readArchiveFromDisk st (getArchiveFilePath year mon) of
        None \<Rightarrow> []
      | Some a \<Rightarrow> (case projectSessions a projectId of None \<Rightarrow> [] | Some e \<Rightarrow> entrySessions e))"

text \<open>An empty archive directory, a runtime whose writes fail, and an archive of January 2026.\<close>

definition emptyStore :: archive_store where
  "emptyStore = \<lparr> files = Map.empty, archiveCache = [], writes = 0 \<rparr>"

definition failingWrites :: runtime where
  "failingWrites = utc_runtime\<lparr> writeOk := (\<lambda>n. False) \<rparr>"

definition sessA :: psession where
  "sessA = \<lparr> sid = ''sess-1769817600000-k3x9q2m1z'', startTime = ''2026-01-31T00:00:00.000Z'',
     endTime = ''2026-01-31T00:05:00.000Z'', duration = Fin 300000 \<rparr>"

definition sessB :: psession where
  "sessB = \<lparr> sid = ''sess-1769818200000-p0v8w7c4d'', startTime = ''2026-01-31T00:10:00.000Z'',
     endTime = ''2026-01-31T00:15:00.000Z'', duration = Fin 300000 \<rparr>"

definition januaryStore :: archive_store where
  "januaryStore =
     \<lparr> files = [''january_2026.json'' \<mapsto>
         \<lparr> version = 1, month = ''2026-01'', createdAt = ''2026-02-01T00:00:00.000Z'',
           lastModifiedAt = ''2026-02-01T00:00:00.000Z'', globalSessions = [sessA],
           projectSessions = [''proj-1'' \<mapsto> \<lparr> projectName = ''Alpha'', entrySessions = [sessA] \<rparr>] \<rparr>],
       archiveCache = [], writes = 0 \<rparr>"


text \<open>
  The tracker as the module leaves it when it is loaded (no reference to the
  persistence collaborator yet), a small dataset, the tracker after
  \<^verbatim>\<open>initTimeTracking\<close> on that dataset, and a tracker whose only project is idle.
\<close>

definition initialTracker :: "int \<Rightarrow> tracker" where
  "initialTracker loadTime =
     \<lparr> trackingState = \<lparr> activeSessions = [], globalSessionStartTime = None,
                          globalLastActivityTime = None, globalIsIdle = False \<rparr>,
       idleTimers = Map.empty, lastOutputTimes = Map.empty, globalLastOutputTime = 0,
       globalIdleTimer = None, lastHeartbeat = loadTime, lastKnownDate = None,
       projectsStateRef = None, saveRequests = 0, draws = 0, archives = emptyStore \<rparr>"

definition sampleProjects :: projects_state where
  "sampleProjects =
     \<lparr> projects = [\<lparr> pid = ''proj-1'', pname = ''Alpha'', timeTracking = None \<rparr>,
                    \<lparr> pid = ''proj-2'', pname = ''Beta'', timeTracking = None \<rparr>],
       globalTimeTracking = None \<rparr>"

definition readyTracker :: "int \<Rightarrow> tracker" where
  "readyTracker initTime =
     (initialTracker initTime)\<lparr> projectsStateRef := Some sampleProjects,
        lastKnownDate := Some (getTodayString utc_runtime initTime) \<rparr>"

definition idleEntry :: tracked where
  "idleEntry = \<lparr> sessionStartTime = None, lastActivityTime = 1769903000000, isIdle = True \<rparr>"

definition idleTracker :: tracker where
  "idleTracker =
     (readyTracker 1769900000000)\<lparr> trackingState :=
        \<lparr> activeSessions = [(''proj-1'', idleEntry)], globalSessionStartTime = None,
          globalLastActivityTime = Some 1769903000000, globalIsIdle = True \<rparr> \<rparr>"

text \<open>
  The invariant of a persisted session in the words of the specification: the duration
  is finite with \<open>0 < duration \<le> 24h\<close>, both timestamps parse, and the end is not
  before the start. The sessions a dataset holds: each project's list and the global
  list.
\<close>

definition sessionInvariant :: "runtime \<Rightarrow> psession \<Rightarrow> bool" where
  "sessionInvariant rt s =
     ((case duration s of Fin d \<Rightarrow> 0 < d \<and> d \<le> 24 * 60 * 60 * 1000 | _ \<Rightarrow> False)
      \<and> (case parseDate rt (startTime s) of
            None \<Rightarrow> False
          | Some start \<Rightarrow>
              (case parseDate rt (endTime s) of None \<Rightarrow> False | Some end' \<Rightarrow> start \<le> end')))"

definition projectSessionsOf :: "project \<Rightarrow> psession list" where
  "projectSessionsOf p = (case timeTracking p of None \<Rightarrow> [] | Some t \<Rightarrow> sessions t)"

definition globalSessionsOf :: "projects_state \<Rightarrow> psession list" where
  "globalSessionsOf ds = (case globalTimeTracking ds of None \<Rightarrow> [] | Some g \<Rightarrow> sessions g)"

definition allSessions :: "projects_state \<Rightarrow> psession list" where
  "allSessions ds = concat (map projectSessionsOf (projects ds)) @ globalSessionsOf ds"

text \<open>
  A dataset as a damaged file could hold it on 1 February 2026: counters that are
  \<^verbatim>\<open>NaN\<close>, negative or infinite, a \<^verbatim>\<open>lastActiveDate\<close> in the year 2999 on the
  project and on the global record, and sessions with a \<^verbatim>\<open>NaN\<close> duration, a
  duration of 25 hours, an end before the start and an unparseable start.
\<close>

definition nanSession :: psession where
  "nanSession = \<lparr> sid = ''sess-1769819000000-aaaaaaaaa'', startTime = ''2026-01-31T00:23:20.000Z'',
     endTime = ''2026-01-31T00:25:00.000Z'', duration = NaN \<rparr>"

definition longSession :: psession where
  "longSession = \<lparr> sid = ''sess-1769820000000-bbbbbbbbb'', startTime = ''2026-01-29T00:00:00.000Z'',
     endTime = ''2026-01-30T01:00:00.000Z'', duration = Fin 90000000 \<rparr>"

definition backwardsSession :: psession where
  "backwardsSession = \<lparr> sid = ''sess-1769821000000-ccccccccc'', startTime = ''2026-01-31T02:00:00.000Z'',
     endTime = ''2026-01-31T01:00:00.000Z'', duration = Fin 3600000 \<rparr>"

definition unparseableSession :: psession where
  "unparseableSession = \<lparr> sid = ''sess-1769822000000-ddddddddd'', startTime = ''yesterday'',
     endTime = ''2026-01-31T01:00:00.000Z'', duration = Fin 3600000 \<rparr>"

definition dirtyProject :: project where
  "dirtyProject =
     \<lparr> pid = ''proj-1'', pname = ''Alpha'',
       timeTracking = Some \<lparr> totalTime = NaN, todayTime = Fin 5000,
         lastActiveDate = Some ''2999-01-01'',
         sessions = [sessA, nanSession, longSession, backwardsSession] \<rparr> \<rparr>"

definition dirtyGlobal :: global_time_tracking where
  "dirtyGlobal =
     \<lparr> totalTime = Fin 600000, todayTime = Fin 5000,
       lastActiveDate = Some ''2999-01-01'', sessions = [unparseableSession, sessB],
       weekTime = Fin (- 1), monthTime = PosInf,
       weekStart = Some ''2026-01-26'', monthStart = Some ''2026-01'' \<rparr>"

definition dirtyProjects :: projects_state where
  "dirtyProjects = \<lparr> projects = [dirtyProject], globalTimeTracking = Some dirtyGlobal \<rparr>"

definition dirtyTracker :: tracker where
  "dirtyTracker = (initialTracker 1769904000000)\<lparr> projectsStateRef := Some dirtyProjects \<rparr>"

text \<open>
  What the tracker has persisted: the live dataset, the archive service and the number
  of save requests.
\<close>

definition persistedPart :: "tracker \<Rightarrow> projects_state option \<times> archive_store \<times> nat" where
  "persistedPart w = (projectsStateRef w, archives w, saveRequests w)"

text \<open>
  The sessions an archive file holds, by file name, and the archive that
  \<^verbatim>\<open>appendToArchive\<close> starts from and the one it hands to \<^verbatim>\<open>writeArchive\<close>.
\<close>

definition entrySessionsAt :: "archive \<Rightarrow> string \<Rightarrow> psession list" where
  "entrySessionsAt a k = (case projectSessions a k of None \<Rightarrow> [] | Some e \<Rightarrow> entrySessions e)"

definition fileGlobal :: "archive_store \<Rightarrow> string \<Rightarrow> psession list" where
  "fileGlobal st path = (case files st path of None \<Rightarrow> [] | Some a \<Rightarrow> globalSessions a)"

definition fileProject :: "archive_store \<Rightarrow> string \<Rightarrow> string \<Rightarrow> psession list" where
  "fileProject st path k = (case files st path of None \<Rightarrow> [] | Some a \<Rightarrow> entrySessionsAt a k)"

definition startArchive :: "runtime \<Rightarrow> int \<Rightarrow> int \<Rightarrow> int \<Rightarrow> archive_store \<Rightarrow> archive" where
  "startArchive rt now year mon st =
     (case files st (getArchiveFilePath year mon) of
        Some a \<Rightarrow> a | None \<Rightarrow> createEmptyArchive rt now year mon)"

definition mergedArchive :: "runtime \<Rightarrow> int \<Rightarrow> int \<Rightarrow> int \<Rightarrow> psession list
    \<Rightarrow> (string \<times> archive_entry) list \<Rightarrow> archive_store \<Rightarrow> archive" where
  "mergedArchive rt now year mon G P st =
     (let a0 = startArchive rt now year mon st;
          a1 = (if G \<noteq> [] then a0\<lparr> globalSessions :=
                  pushNew (set (map sid (globalSessions a0))) G (globalSessions a0) \<rparr> else a0)
      in (fold mergeProject P a1)\<lparr> lastModifiedAt := toISOString rt now \<rparr>)"

text \<open>
  Where a closed interval ends up. A session saved for the interval from \<open>startT\<close>
  to \<open>endT\<close> carries the two ISO strings and the duration \<open>endT - startT\<close>
  (\<open>covers\<close>). Such a session of project \<open>p\<close> is persisted when it is in the live
  list of \<open>p\<close> or in the list of \<open>p\<close> in the archive of the month of \<open>startT\<close>;
  likewise for the global lists. A session saved at \<open>now\<close> reaches storage
  (\<open>persistable\<close>) when \<open>startT\<close> is in the current month, so that it goes to the
  live list, or else when archive writes succeed and the month's archive does not
  already hold the id that is generated. \<open>cutSave\<close> is the save that the three
  detector loops have in common.
\<close>

definition liveProjectSessions :: "tracker \<Rightarrow> string \<Rightarrow> psession list" where
  "liveProjectSessions w p =
     (case projectsStateRef w of
        None \<Rightarrow> []
      | Some ds \<Rightarrow> concat (map projectSessionsOf (filter (\<lambda>q. pid q = p) (projects ds))))"

definition liveGlobalSessions :: "tracker \<Rightarrow> psession list" where
  "liveGlobalSessions w =
     (case projectsStateRef w of None \<Rightarrow> [] | Some ds \<Rightarrow> globalSessionsOf ds)"

definition covers :: "runtime \<Rightarrow> int \<Rightarrow> int \<Rightarrow> psession \<Rightarrow> bool" where
  "covers rt startT endT s =
     (startTime s = toISOString rt startT \<and> endTime s = toISOString rt endT
      \<and> duration s = Fin (of_int (endT - startT)))"

definition projectSessionPersisted :: "runtime \<Rightarrow> tracker \<Rightarrow> string \<Rightarrow> int \<Rightarrow> int \<Rightarrow> bool" where
  "projectSessionPersisted rt w p startT endT =
     list_ex (covers rt startT endT)
       (liveProjectSessions w p
        @ diskProjectSessions (archives w) (getFullYear rt startT) (getMonth rt startT) p)"

definition globalSessionPersisted :: "runtime \<Rightarrow> tracker \<Rightarrow> int \<Rightarrow> int \<Rightarrow> bool" where
  "globalSessionPersisted rt w startT endT =
     list_ex (covers rt startT endT)
       (liveGlobalSessions w
        @ diskGlobalSessions (archives w) (getFullYear rt startT) (getMonth rt startT))"

definition projectIds :: "tracker \<Rightarrow> string list" where
  "projectIds w = (case projectsStateRef w of None \<Rightarrow> [] | Some ds \<Rightarrow> map pid (projects ds))"

definition persistable :: "runtime \<Rightarrow> int \<Rightarrow> int \<Rightarrow> psession list \<Rightarrow> bool" where
  "persistable rt now startT stored =
     ((getFullYear rt startT = getFullYear rt now \<and> getMonth rt startT = getMonth rt now)
      \<or> ((\<forall>n. writeOk rt n) \<and> (\<forall>n. generateSessionId rt now n \<notin> sid ` set stored)))"

definition cutSave :: "runtime \<Rightarrow> int \<Rightarrow> int \<Rightarrow> string \<times> tracked \<Rightarrow> tracker \<Rightarrow> tracker" where
  "cutSave rt now endT entry w =
     (if isActive (snd entry) \<and> endT - the (sessionStartTime (snd entry)) > 1000
      then saveSession rt now (fst entry) (the (sessionStartTime (snd entry))) endT
             (endT - the (sessionStartTime (snd entry))) w
      else w)"

text \<open>
  The tracker is initialised once the references are stored. \<open>activeCount\<close> counts
  the active entries of a \<^verbatim>\<open>Map\<close> of intervals. Two episodes on the sample dataset:
  both projects started and stopped within 300 ms, and within 90 s.
\<close>

definition initialised :: "tracker \<Rightarrow> bool" where
  "initialised w = (projectsStateRef w \<noteq> None)"

definition activeCount :: "(string \<times> tracked) list \<Rightarrow> nat" where
  "activeCount al = length (filter (\<lambda>(k, session). isActive session) al)"

definition quickRun :: tracker where
  "quickRun =
     stopTracking utc_runtime 1769903880300 ''proj-2''
       (stopTracking utc_runtime 1769903880200 ''proj-1''
          (startTracking 1769903880100 ''proj-2''
             (startTracking 1769903880000 ''proj-1'' (readyTracker 1769900000000))))"

definition slowRun :: tracker where
  "slowRun =
     stopTracking utc_runtime 1769903970000 ''proj-2''
       (stopTracking utc_runtime 1769903940000 ''proj-1''
          (startTracking 1769903910000 ''proj-2''
             (startTracking 1769903880000 ''proj-1'' (readyTracker 1769900000000))))"

text \<open>
  \<open>globalCut\<close> is the save of the global interval that the sleep and the midnight
  detector have in common. \<open>workingTracker start heartbeat\<close> is the initialised
  tracker on the sample dataset with \<^verbatim>\<open>proj-1\<close> and the global interval active since
  \<open>start\<close> and the last heartbeat at \<open>heartbeat\<close>.
\<close>

definition globalCut :: "runtime \<Rightarrow> int \<Rightarrow> int \<Rightarrow> tracker \<Rightarrow> tracker" where
  "globalCut rt now endT w =
     (if globalActive (trackingState w)
         \<and> endT - the (globalSessionStartTime (trackingState w)) > 1000
      then saveGlobalSession rt now (the (globalSessionStartTime (trackingState w))) endT
             (endT - the (globalSessionStartTime (trackingState w))) w
      else w)"

definition workingTracker :: "int \<Rightarrow> int \<Rightarrow> tracker" where
  "workingTracker start heartbeat =
     (readyTracker 1769900000000)
       \<lparr> trackingState :=
           \<lparr> activeSessions = [(''proj-1'', \<lparr> sessionStartTime = Some start,
                                  lastActivityTime = start, isIdle = False \<rparr>)],
             globalSessionStartTime = Some start, globalLastActivityTime = Some start,
             globalIsIdle = False \<rparr>,
         idleTimers := [''proj-1'' \<mapsto> start + IDLE_TIMEOUT],
         globalIdleTimer := Some (start + IDLE_TIMEOUT),
         lastHeartbeat := heartbeat \<rparr>"

text \<open>
  Observations for the output grace window: the entry of a project in the map of active
  sessions, the output time the idle callback reads (\<open>lastOutputTimes.get(id) || 0\<close>), and
  conditions on a list of timed events. \<open>outputFresh\<close> follows the most recent output
  of the project through the list and asks that each idle callback of the project finds it
  less than \<open>OUTPUT_IDLE_TIMEOUT\<close> old, \<open>globalFresh\<close> asks the same of each callback of
  the global timer; \<open>outputWithin\<close> asks that at every event the last output is at most
  \<open>gap\<close> old; \<open>inOrder\<close> asks that the clock readings do not go backwards; \<open>clockSane\<close>
  asks that no clock reading and no local midnight is the epoch (a start time of 0 is falsy
  in the code).
\<close>

definition entryOf :: "tracker \<Rightarrow> string \<Rightarrow> tracked option" where
  "entryOf w p = map_of (activeSessions (trackingState w)) p"

definition lastOutputOf :: "tracker \<Rightarrow> string \<Rightarrow> int" where
  "lastOutputOf w p = (case lastOutputTimes w p of None \<Rightarrow> 0 | Some t \<Rightarrow> t)"

fun outputFresh :: "string \<Rightarrow> int \<Rightarrow> (int \<times> event) list \<Rightarrow> bool" where
  "outputFresh p lastOutput [] = True"
| "outputFresh p lastOutput ((t, RecordOutputActivity q) # evs) =
     outputFresh p (if q = p then t else lastOutput) evs"
| "outputFresh p lastOutput ((t, IdleTimeout q) # evs) =
     ((q = p \<longrightarrow> t - lastOutput < OUTPUT_IDLE_TIMEOUT) \<and> outputFresh p lastOutput evs)"
| "outputFresh p lastOutput ((t, e) # evs) = outputFresh p lastOutput evs"

definition neverStopped :: "string \<Rightarrow> (int \<times> event) list \<Rightarrow> bool" where
  "neverStopped p evs = list_all (\<lambda>te. snd te \<noteq> StopTracking p) evs"

definition clockSane :: "runtime \<Rightarrow> (int \<times> event) list \<Rightarrow> bool" where
  "clockSane rt evs = list_all (\<lambda>te. fst te \<noteq> 0 \<and> setHours0 rt (fst te) \<noteq> 0) evs"

fun outputWithin :: "string \<Rightarrow> int \<Rightarrow> int \<Rightarrow> (int \<times> event) list \<Rightarrow> bool" where
  "outputWithin p gap lastOutput [] = True"
| "outputWithin p gap lastOutput ((t, e) # evs) =
     (t - lastOutput \<le> gap
      \<and> outputWithin p gap (if e = RecordOutputActivity p then t else lastOutput) evs)"

fun globalFresh :: "string \<Rightarrow> int \<Rightarrow> (int \<times> event) list \<Rightarrow> bool" where
  "globalFresh p lastOutput [] = True"
| "globalFresh p lastOutput ((t, RecordOutputActivity q) # evs) =
     globalFresh p (if q = p then t else lastOutput) evs"
| "globalFresh p lastOutput ((t, GlobalIdleTimeout) # evs) =
     (t - lastOutput < OUTPUT_IDLE_TIMEOUT \<and> globalFresh p lastOutput evs)"
| "globalFresh p lastOutput ((t, e) # evs) = globalFresh p lastOutput evs"

fun inOrder :: "int \<Rightarrow> (int \<times> event) list \<Rightarrow> bool" where
  "inOrder previous [] = True"
| "inOrder previous ((t, e) # evs) = (previous \<le> t \<and> inOrder t evs)"

definition outputTracker :: "int \<Rightarrow> int \<Rightarrow> tracker" where
  "outputTracker start lastOutput =
     (workingTracker start start)\<lparr> lastOutputTimes := [''proj-1'' \<mapsto> lastOutput],
        globalLastOutputTime := lastOutput \<rparr>"

definition graceRun :: "int \<Rightarrow> (int \<times> event) list" where
  "graceRun t0 =
     [(t0 + 30000, HeartbeatTick),
      (t0 + 90000, RecordOutputActivity ''proj-1''),
      (t0 + 180000, RecordOutputActivity ''proj-1''),
      (t0 + 270000, RecordOutputActivity ''proj-1''),
      (t0 + 300000, CheckpointTick),
      (t0 + 360000, RecordOutputActivity ''proj-1''),
      (t0 + 450000, RecordOutputActivity ''proj-1''),
      (t0 + 540000, RecordOutputActivity ''proj-1''),
      (t0 + 630000, RecordOutputActivity ''proj-1''),
      (t0 + 720000, RecordOutputActivity ''proj-1''),
      (t0 + 810000, RecordOutputActivity ''proj-1''),
      (t0 + 900000, IdleTimeout ''proj-1''),
      (t0 + 900000, GlobalIdleTimeout),
      (t0 + 900000, RecordOutputActivity ''proj-1''),
      (t0 + 930100, IdleTimeout ''proj-1''),
      (t0 + 930100, GlobalIdleTimeout),
      (t0 + 990000, RecordOutputActivity ''proj-1''),
      (t0 + 1020100, IdleTimeout ''proj-1'')]"

definition boundaryRun :: "int \<Rightarrow> (int \<times> event) list" where
  "boundaryRun t0 =
     [(t0 + 60000, RecordOutputActivity ''proj-1''),
      (t0 + 180000, RecordOutputActivity ''proj-1''),
      (t0 + 300000, RecordOutputActivity ''proj-1''),
      (t0 + 420000, RecordOutputActivity ''proj-1''),
      (t0 + 540000, RecordOutputActivity ''proj-1''),
      (t0 + 660000, RecordOutputActivity ''proj-1''),
      (t0 + 780000, RecordOutputActivity ''proj-1''),
      (t0 + 900000, IdleTimeout ''proj-1''),
      (t0 + 900000, RecordOutputActivity ''proj-1'')]"

section \<open>The archive service: merging and reading back\<close>

lemma pushNew_conv: "pushNew ids xs t = t @ filter (\<lambda>s. sid s \<notin> ids) xs"
  by (induction xs arbitrary: t) auto

lemma count_list_distinct: "distinct xs \<Longrightarrow> x \<in> set xs \<Longrightarrow> count_list xs x = 1"
  by (induction xs) auto

lemma merged_distinct:
  assumes "distinct (map sid old)" and "distinct (map sid new)"
  shows "distinct (map sid (pushNew (set (map sid old)) new old))"
proof -
  have "sid x \<noteq> sid y" if "x \<in> set old" and "y \<in> set new" and "sid y \<notin> set (map sid old)" for x y
  proof
    assume "sid x = sid y"
    then have "sid y \<in> sid ` set old" using that(1) by (metis imageI)
    with that(3) show False by simp
  qed
  then show ?thesis
    using assms by (auto simp: pushNew_conv distinct_map_filter)
qed

lemma merged_member:
  assumes "mergeable old new" and "s \<in> set new"
  shows "s \<in> set (pushNew (set (map sid old)) new old)"
proof (cases "sid s \<in> set (map sid old)")
  case True
  then obtain s' where "s' \<in> set old" and "sid s' = sid s" by auto
  with assms have "s = s'" unfolding mergeable_def by metis
  with \<open>s' \<in> set old\<close> show ?thesis by (simp add: pushNew_conv)
next
  case False
  with assms(2) show ?thesis by (simp add: pushNew_conv)
qed

lemma merged_once:
  assumes "mergeable old new" and "s \<in> set new"
  shows "count_list (pushNew (set (map sid old)) new old) s = 1"
proof -
  have "distinct (map sid (pushNew (set (map sid old)) new old))"
    using assms(1) merged_distinct [of old new] unfolding mergeable_def by blast
  then have "distinct (pushNew (set (map sid old)) new old)"
    by (simp add: distinct_map)
  then show ?thesis
    using merged_member [OF assms] by (rule count_list_distinct)
qed

lemma mergeProject_other:
  "k \<noteq> fst entry \<Longrightarrow> projectSessions (mergeProject entry a) k = projectSessions a k"
  by (simp add: mergeProject_def Let_def)

lemma mergeProject_global: "globalSessions (mergeProject entry a) = globalSessions a"
  by (simp add: mergeProject_def Let_def)

lemma fold_mergeProject_global: "globalSessions (fold mergeProject P a) = globalSessions a"
  by (induction P arbitrary: a) (simp_all add: mergeProject_global)

lemma fold_mergeProject_other:
  "k \<notin> fst ` set P \<Longrightarrow> projectSessions (fold mergeProject P a) k = projectSessions a k"
  by (induction P arbitrary: a) (simp_all add: mergeProject_other)

lemma mergeProject_sessions:
  "\<exists>e. projectSessions (mergeProject (k, d) a) k = Some e \<and>
       entrySessions e =
         (let old = (case projectSessions a k of None \<Rightarrow> [] | Some e0 \<Rightarrow> entrySessions e0)
          in pushNew (set (map sid old)) (entrySessions d) old)"
  by (simp add: mergeProject_def Let_def split: option.splits)

lemma fold_mergeProject_sessions:
  assumes "distinct (map fst P)" and "(k, d) \<in> set P"
  shows "\<exists>e. projectSessions (fold mergeProject P a) k = Some e \<and>
       entrySessions e =
         (let old = (case projectSessions a k of None \<Rightarrow> [] | Some e0 \<Rightarrow> entrySessions e0)
          in pushNew (set (map sid old)) (entrySessions d) old)"
  using assms
proof (induction P arbitrary: a)
  case Nil
  then show ?case by simp
next
  case (Cons p P)
  show ?case
  proof (cases "p = (k, d)")
    case True
    with Cons.prems have "k \<notin> fst ` set P" by auto
    then have "projectSessions (fold mergeProject (p # P) a) k
        = projectSessions (mergeProject (k, d) a) k"
      using True by (simp add: fold_mergeProject_other)
    then show ?thesis using mergeProject_sessions [of k d a] by simp
  next
    case False
    with Cons.prems have in_rest: "(k, d) \<in> set P" and dist: "distinct (map fst P)"
      and "fst p \<noteq> k" by (auto simp: rev_image_eqI)
    then have same: "projectSessions (mergeProject p a) k = projectSessions a k"
      by (simp add: mergeProject_other)
    from Cons.IH [OF dist in_rest, of "mergeProject p a"] show ?thesis
      by (simp add: same)
  qed
qed

lemma load_after_append:
  "fst (loadArchive now' year mon (appendToArchive rt now year mon G P st))
     = files (appendToArchive rt now year mon G P st) (getArchiveFilePath year mon)"
  by (simp add: loadArchive_def appendToArchive_def invalidateArchiveCache_def Let_def
      delete_conv' readArchiveFromDisk_def split: option.splits)









text \<open>
  C6 (no duplicate ids after appending twice). The set of existing ids is computed once
  before the loop and not extended as sessions are pushed, so a batch that repeats an id
  is stored with the repetition. Appending the batch \<open>[sessA, sessA]\<close> twice to an
  empty archive leaves the id of \<open>sessA\<close> twice in \<^verbatim>\<open>globalSessions\<close>.
\<close>

theorem appendToArchive_twice_duplicate_ids:
  "map sid (diskGlobalSessions
     (appendToArchive utc_runtime 1769904060000 2026 0 [sessA, sessA] []
        (appendToArchive utc_runtime 1769904000000 2026 0 [sessA, sessA] [] emptyStore))
     2026 0)
   = [''sess-1769817600000-k3x9q2m1z'', ''sess-1769817600000-k3x9q2m1z'']"
  by (simp add: diskGlobalSessions_def readArchiveFromDisk_def appendToArchive_def
      writeArchive_def invalidateArchiveCache_def createEmptyArchive_def Let_def
      utc_runtime_def emptyStore_def sessA_def)

section \<open>Output activity\<close>

text \<open>
  C5. \<^verbatim>\<open>recordOutputActivity\<close> leaves the runtime intervals as they are (no
  \<^verbatim>\<open>sessionStartTime\<close>, \<^verbatim>\<open>lastActivityTime\<close> or idle flag changes, for no
  project and not for the global interval), changes nothing but the two recorded output
  times, and changes nothing at all when the project is untracked or idle; in
  particular an idle project stays idle.
\<close>

theorem recordOutputActivity_frame:
  "trackingState (recordOutputActivity now p w) = trackingState w
   \<and> recordOutputActivity now p w =
        w\<lparr> lastOutputTimes := lastOutputTimes (recordOutputActivity now p w),
           globalLastOutputTime := globalLastOutputTime (recordOutputActivity now p w) \<rparr>
   \<and> ((case map_of (activeSessions (trackingState w)) p of
          None \<Rightarrow> True | Some session \<Rightarrow> isIdle session)
        \<longrightarrow> recordOutputActivity now p w = w)"
  by (simp add: recordOutputActivity_def split: option.splits)

text \<open>The theorem on a tracker whose project \<^verbatim>\<open>proj-1\<close> is idle.\<close>

theorem recordOutputActivity_frame_witness:
  "(case map_of (activeSessions (trackingState idleTracker)) ''proj-1'' of
      None \<Rightarrow> True | Some session \<Rightarrow> isIdle session)
   \<and> recordOutputActivity 1769903960000 ''proj-1'' idleTracker = idleTracker
   \<and> \<not> isTracking (recordOutputActivity 1769903960000 ''proj-1'' idleTracker) ''proj-1''"
proof -
  have idle: "(case map_of (activeSessions (trackingState idleTracker)) ''proj-1'' of
      None \<Rightarrow> True | Some session \<Rightarrow> isIdle session)"
    by (simp add: idleTracker_def idleEntry_def)
  have same: "recordOutputActivity 1769903960000 ''proj-1'' idleTracker = idleTracker"
    using recordOutputActivity_frame [of 1769903960000 "''proj-1''" idleTracker] idle by blast
  have "\<not> isTracking idleTracker ''proj-1''"
    by (simp add: isTracking_def isActive_def idleTracker_def idleEntry_def)
  with idle same show ?thesis by simp
qed

section \<open>The startup sanitizer: what survives\<close>

lemma validSession_iff:
  "validSession rt s \<longleftrightarrow>
     sessionInvariant rt s \<and> startTime s \<noteq> [] \<and> endTime s \<noteq> []"
  by (cases "duration s")
     (auto simp: validSession_def sessionInvariant_def truthy_str_def maxReasonableDuration_def
        split: option.splits)

lemma filter_same_length: "length (filter P xs) = length xs \<Longrightarrow> filter P xs = xs"
proof (induction xs)
  case Nil
  then show ?case by simp
next
  case (Cons a xs)
  have le: "length (filter P xs) \<le> length xs" by (rule length_filter_le)
  show ?case
  proof (cases "P a")
    case True
    with Cons show ?thesis by simp
  next
    case False
    with Cons.prems le show ?thesis by simp
  qed
qed

lemma clampCounter_flag: "snd tc \<Longrightarrow> snd (clampCounter g u tc)"
  by (simp add: clampCounter_def)

lemma clampCounter_unchanged: "\<not> snd (clampCounter g u tc) \<Longrightarrow> clampCounter g u tc = tc"
  by (simp add: clampCounter_def split: if_splits)

lemma fixFutureDate_unchanged: "\<not> snd (fixFutureDate rt now tc) \<Longrightarrow> fixFutureDate rt now tc = tc"
  by (simp add: fixFutureDate_def split: option.splits if_splits)

lemma fixFutureDate_flag: "snd tc \<Longrightarrow> snd (fixFutureDate rt now tc)"
  by (simp add: fixFutureDate_def split: option.splits)

lemma filterSessions_unchanged: "\<not> snd (filterSessions rt tc) \<Longrightarrow> filterSessions rt tc = tc"
  by (simp add: filterSessions_def Let_def split: if_splits)

lemma filterSessions_flag: "snd tc \<Longrightarrow> snd (filterSessions rt tc)"
  by (simp add: filterSessions_def Let_def)

lemma filterSessions_sessions:
  "sessions (fst (filterSessions rt tc)) = filter (validSession rt) (sessions (fst tc))"
  by (simp add: filterSessions_def Let_def filter_same_length)

lemma fixFutureDate_sessions: "sessions (fst (fixFutureDate rt now tc)) = sessions (fst tc)"
  by (simp add: fixFutureDate_def split: option.splits)

lemma clamp_sessions:
  "sessions (fst (clampCounter totalTime totalTime_update tc)) = sessions (fst tc)"
  "sessions (fst (clampCounter todayTime todayTime_update tc)) = sessions (fst tc)"
  "sessions (fst (clampCounter weekTime weekTime_update gc)) = sessions (fst gc)"
  "sessions (fst (clampCounter monthTime monthTime_update gc)) = sessions (fst gc)"
  by (simp_all add: clampCounter_def)

lemma sanitizeProject_sessions:
  "projectSessionsOf (fst (sanitizeProject rt now p)) = filter (validSession rt) (projectSessionsOf p)"
proof (cases "timeTracking p")
  case None
  then show ?thesis by (simp add: sanitizeProject_def projectSessionsOf_def)
next
  case (Some t0)
  define tc where "tc = filterSessions rt (fixFutureDate rt now
      (clampCounter todayTime todayTime_update (clampCounter totalTime totalTime_update (t0, False))))"
  have s: "sessions (fst tc) = filter (validSession rt) (sessions t0)"
    by (simp add: tc_def filterSessions_sessions fixFutureDate_sessions clamp_sessions)
  show ?thesis
  proof (cases "snd tc")
    case True
    with Some s show ?thesis
      by (simp add: sanitizeProject_def projectSessionsOf_def Let_def tc_def [symmetric])
  next
    case False
    then have "tc = (t0, False)"
      unfolding tc_def
      by (metis filterSessions_unchanged fixFutureDate_unchanged clampCounter_unchanged)
    with s have "filter (validSession rt) (sessions t0) = sessions t0" by simp
    with Some False show ?thesis
      by (simp add: sanitizeProject_def projectSessionsOf_def Let_def tc_def [symmetric])
  qed
qed

lemma sanitizeProject_unchanged:
  "\<not> snd (sanitizeProject rt now p) \<Longrightarrow> fst (sanitizeProject rt now p) = p"
  by (simp add: sanitizeProject_def Let_def split: option.splits if_splits)

lemma sanitizeGlobal_sessions:
  "sessions (fst (sanitizeGlobal rt g)) = filter (validSession rt) (sessions g)"
  by (simp add: sanitizeGlobal_def filterSessions_sessions clamp_sessions)

lemma sanitizeGlobal_unchanged:
  "\<not> snd (sanitizeGlobal rt g) \<Longrightarrow> fst (sanitizeGlobal rt g) = g"
  unfolding sanitizeGlobal_def
  by (metis filterSessions_unchanged clampCounter_unchanged fst_conv)


lemma sanitize_projects:
  assumes "projectsStateRef w = Some ds"
  shows "\<exists>ds'. projectsStateRef (sanitizeTimeTrackingData rt now w) = Some ds'
           \<and> projects ds' = map (\<lambda>p. fst (sanitizeProject rt now p)) (projects ds)
           \<and> globalSessionsOf ds' = filter (validSession rt) (globalSessionsOf ds)"
proof (cases "list_ex snd (map (sanitizeProject rt now) (projects ds))
    \<or> (case map_option (sanitizeGlobal rt) (globalTimeTracking ds) of
          None \<Rightarrow> False | Some gc \<Rightarrow> snd gc)")
  case True
  then show ?thesis using assms
    by (auto simp: sanitizeTimeTrackingData_def Let_def globalSessionsOf_def
        sanitizeGlobal_sessions comp_def split: option.splits)
next
  case False
  then have same: "sanitizeTimeTrackingData rt now w = w"
    using assms by (simp add: sanitizeTimeTrackingData_def Let_def)
  from False have "\<forall>p \<in> set (projects ds). \<not> snd (sanitizeProject rt now p)"
    by (auto simp: list_ex_iff)
  then have p: "map (\<lambda>p. fst (sanitizeProject rt now p)) (projects ds) = projects ds"
    by (simp add: sanitizeProject_unchanged map_idI)
  have g: "filter (validSession rt) (globalSessionsOf ds) = globalSessionsOf ds"
  proof (cases "globalTimeTracking ds")
    case None
    then show ?thesis by (simp add: globalSessionsOf_def)
  next
    case (Some g)
    with False have "\<not> snd (sanitizeGlobal rt g)" by simp
    then have "fst (sanitizeGlobal rt g) = g" by (rule sanitizeGlobal_unchanged)
    then have "filter (validSession rt) (sessions g) = sessions g"
      using sanitizeGlobal_sessions [of rt g] by simp
    with Some show ?thesis by (simp add: globalSessionsOf_def)
  qed
  from same assms p g show ?thesis by simp
qed

text \<open>
  C8. After the sanitizer has run on an initialised tracker, every session left in a
  project's list or in the global list satisfies the invariant (finite duration with
  \<open>0 < duration \<le> 24h\<close>, both timestamps parse, end not before start); each list is
  the old list without the sessions that violate it (and without those whose
  \<^verbatim>\<open>startTime\<close> or \<^verbatim>\<open>endTime\<close> is empty, which are dropped before parsing).
\<close>

theorem sanitizer_keeps_valid_sessions:
  assumes "projectsStateRef w = Some ds"
  shows "\<exists>ds'. projectsStateRef (sanitizeTimeTrackingData rt now w) = Some ds'
           \<and> (\<forall>s \<in> set (allSessions ds'). sessionInvariant rt s)
           \<and> map projectSessionsOf (projects ds')
               = map (\<lambda>p. filter (\<lambda>s. sessionInvariant rt s \<and> startTime s \<noteq> [] \<and> endTime s \<noteq> [])
                            (projectSessionsOf p)) (projects ds)
           \<and> globalSessionsOf ds'
               = filter (\<lambda>s. sessionInvariant rt s \<and> startTime s \<noteq> [] \<and> endTime s \<noteq> [])
                   (globalSessionsOf ds)"
proof -
  have v: "validSession rt = (\<lambda>s. sessionInvariant rt s \<and> startTime s \<noteq> [] \<and> endTime s \<noteq> [])"
    by (rule ext) (rule validSession_iff)
  from sanitize_projects [OF assms, of rt now]
  obtain ds' where ref: "projectsStateRef (sanitizeTimeTrackingData rt now w) = Some ds'"
    and ps: "projects ds' = map (\<lambda>p. fst (sanitizeProject rt now p)) (projects ds)"
    and gs: "globalSessionsOf ds' = filter (validSession rt) (globalSessionsOf ds)"
    by blast
  have lists: "map projectSessionsOf (projects ds')
      = map (\<lambda>p. filter (validSession rt) (projectSessionsOf p)) (projects ds)"
    by (simp add: ps sanitizeProject_sessions comp_def)
  have "validSession rt s" if "s \<in> set (allSessions ds')" for s
    using that unfolding allSessions_def lists gs by auto
  then have inv: "\<forall>s \<in> set (allSessions ds'). sessionInvariant rt s"
    by (simp add: validSession_iff)
  from ref inv lists gs show ?thesis unfolding v by blast
qed


lemma sample_sessions_valid:
  "validSession utc_runtime sessA" "validSession utc_runtime sessB"
  "\<not> validSession utc_runtime nanSession" "\<not> validSession utc_runtime longSession"
  "\<not> validSession utc_runtime backwardsSession" "\<not> validSession utc_runtime unparseableSession"
  by code_simp+

lemma future_date_parses:
  "parseDate utc_runtime (''2999-01-01'' @ ''T00:00:00'') = Some 32472144000000"
  by code_simp

lemma sample_sessions_invariant:
  "sessionInvariant utc_runtime sessA" "sessionInvariant utc_runtime sessB"
  "\<not> sessionInvariant utc_runtime nanSession" "\<not> sessionInvariant utc_runtime longSession"
  "\<not> sessionInvariant utc_runtime backwardsSession"
  "\<not> sessionInvariant utc_runtime unparseableSession"
  by code_simp+

text \<open>The theorem on the damaged dataset: one session of each list survives.\<close>

theorem sanitizer_keeps_valid_sessions_witness:
  "projectsStateRef dirtyTracker = Some dirtyProjects
   \<and> (\<exists>ds'. projectsStateRef (sanitizeTimeTrackingData utc_runtime 1769904000000 dirtyTracker)
               = Some ds'
          \<and> list_all (sessionInvariant utc_runtime) (allSessions ds')
          \<and> allSessions ds' = [sessA, sessB])"
proof -
  have ref: "projectsStateRef dirtyTracker = Some dirtyProjects"
    by (simp add: dirtyTracker_def)
  have nonempty: "startTime sessA \<noteq> []" "endTime sessA \<noteq> []"
      "startTime sessB \<noteq> []" "endTime sessB \<noteq> []"
    by (simp_all add: sessA_def sessB_def)
  from sanitizer_keeps_valid_sessions [OF ref, of utc_runtime 1769904000000]
  obtain ds' where r: "projectsStateRef (sanitizeTimeTrackingData utc_runtime 1769904000000 dirtyTracker)
        = Some ds'"
    and inv: "\<forall>s \<in> set (allSessions ds'). sessionInvariant utc_runtime s"
    and ps: "map projectSessionsOf (projects ds')
        = map (\<lambda>p. filter (\<lambda>s. sessionInvariant utc_runtime s \<and> startTime s \<noteq> [] \<and> endTime s \<noteq> [])
                     (projectSessionsOf p)) (projects dirtyProjects)"
    and gs: "globalSessionsOf ds'
        = filter (\<lambda>s. sessionInvariant utc_runtime s \<and> startTime s \<noteq> [] \<and> endTime s \<noteq> [])
            (globalSessionsOf dirtyProjects)"
    by blast
  have "allSessions ds' = [sessA, sessB]"
    unfolding allSessions_def ps gs
    by (simp add: dirtyProjects_def dirtyProject_def dirtyGlobal_def projectSessionsOf_def
        globalSessionsOf_def sample_sessions_invariant nonempty)
  with ref r inv show ?thesis by (auto simp: list_all_iff)
qed


text \<open>
  C9 (a \<^verbatim>\<open>lastActiveDate\<close> more than a day in the future is reset on every tracking
  record). The project block of the sanitizer does it; the global block has no such
  step. On the damaged dataset, whose two records both carry the date 2999-01-01, the
  project's \<^verbatim>\<open>lastActiveDate\<close> becomes null and its \<^verbatim>\<open>todayTime\<close> 0, while the
  global record keeps the date and its \<^verbatim>\<open>todayTime\<close> of 5000.
\<close>

theorem sanitizer_global_future_date:
  "parseDate utc_runtime (''2999-01-01'' @ ''T00:00:00'') = Some 32472144000000
   \<and> 32472144000000 > (1769904000000 :: int) + 86400000
   \<and> projectsStateRef (sanitizeTimeTrackingData utc_runtime 1769904000000 dirtyTracker)
       = Some \<lparr> projects =
                  [\<lparr> pid = ''proj-1'', pname = ''Alpha'',
                     timeTracking = Some \<lparr> totalTime = Fin 0, todayTime = Fin 0,
                       lastActiveDate = None, sessions = [sessA] \<rparr> \<rparr>],
                globalTimeTracking =
                  Some \<lparr> totalTime = Fin 600000, todayTime = Fin 5000,
                    lastActiveDate = Some ''2999-01-01'', sessions = [sessB],
                    weekTime = Fin 0, monthTime = Fin 0,
                    weekStart = Some ''2026-01-26'', monthStart = Some ''2026-01'' \<rparr> \<rparr>"
proof -
  have p: "sanitizeProject utc_runtime 1769904000000 dirtyProject
      = (\<lparr> pid = ''proj-1'', pname = ''Alpha'',
           timeTracking = Some \<lparr> totalTime = Fin 0, todayTime = Fin 0,
             lastActiveDate = None, sessions = [sessA] \<rparr> \<rparr>, True)"
    using future_date_parses
    by (simp add: dirtyProject_def sanitizeProject_def clampCounter_def badCounter_def
        fixFutureDate_def filterSessions_def truthy_str_def sample_sessions_valid Let_def)
  have g: "sanitizeGlobal utc_runtime dirtyGlobal
      = (\<lparr> totalTime = Fin 600000, todayTime = Fin 5000,
           lastActiveDate = Some ''2999-01-01'', sessions = [sessB],
           weekTime = Fin 0, monthTime = Fin 0,
           weekStart = Some ''2026-01-26'', monthStart = Some ''2026-01'' \<rparr>, True)"
    by (simp add: dirtyGlobal_def sanitizeGlobal_def clampCounter_def badCounter_def
        filterSessions_def sample_sessions_valid Let_def)
  show ?thesis
    using future_date_parses
    by (simp add: sanitizeTimeTrackingData_def dirtyTracker_def dirtyProjects_def Let_def p g)
qed

section \<open>Saving leaves the runtime state alone; operations before initialisation\<close>

lemma saveSession_uninit [simp]:
  "projectsStateRef w = None \<Longrightarrow> saveSession rt now p a b d w = w"
  by (simp add: saveSession_def)

lemma saveGlobalSession_uninit [simp]:
  "projectsStateRef w = None \<Longrightarrow> saveGlobalSession rt now a b d w = w"
  by (simp add: saveGlobalSession_def)

lemma saveSession_runtime [simp]:
  "trackingState (saveSession rt now p a b d w) = trackingState w"
  "idleTimers (saveSession rt now p a b d w) = idleTimers w"
  "lastOutputTimes (saveSession rt now p a b d w) = lastOutputTimes w"
  "globalLastOutputTime (saveSession rt now p a b d w) = globalLastOutputTime w"
  "globalIdleTimer (saveSession rt now p a b d w) = globalIdleTimer w"
  "lastHeartbeat (saveSession rt now p a b d w) = lastHeartbeat w"
  "lastKnownDate (saveSession rt now p a b d w) = lastKnownDate w"
  by (simp_all add: saveSession_def Let_def split: option.splits)

lemma saveGlobalSession_runtime [simp]:
  "trackingState (saveGlobalSession rt now a b d w) = trackingState w"
  "idleTimers (saveGlobalSession rt now a b d w) = idleTimers w"
  "lastOutputTimes (saveGlobalSession rt now a b d w) = lastOutputTimes w"
  "globalLastOutputTime (saveGlobalSession rt now a b d w) = globalLastOutputTime w"
  "globalIdleTimer (saveGlobalSession rt now a b d w) = globalIdleTimer w"
  "lastHeartbeat (saveGlobalSession rt now a b d w) = lastHeartbeat w"
  "lastKnownDate (saveGlobalSession rt now a b d w) = lastKnownDate w"
  by (simp_all add: saveGlobalSession_def Let_def split: option.splits)

lemma startGlobalTimer_persisted [simp]:
  "persistedPart (startGlobalTimer now w) = persistedPart w"
  by (simp add: startGlobalTimer_def persistedPart_def Let_def)

lemma resumeGlobalTimer_persisted [simp]:
  "persistedPart (resumeGlobalTimer now w) = persistedPart w"
  by (simp add: resumeGlobalTimer_def persistedPart_def Let_def)

lemma resetGlobalIdleTimer_persisted [simp]:
  "persistedPart (resetGlobalIdleTimer now w) = persistedPart w"
  using resumeGlobalTimer_persisted [of now w]
  by (simp add: resetGlobalIdleTimer_def persistedPart_def Let_def)

lemma resumeTracking_persisted [simp]:
  "persistedPart (resumeTracking now p w) = persistedPart w"
proof -
  have "persistedPart (resumeGlobalTimer now w') = persistedPart w'" for w'
    by simp
  then show ?thesis
    by (simp add: resumeTracking_def persistedPart_def Let_def split: option.splits)
qed

lemma startTracking_persisted [simp]:
  "persistedPart (startTracking now p w) = persistedPart w"
proof -
  have g: "persistedPart (startGlobalTimer now w') = persistedPart w'" for w'
    by simp
  have r: "persistedPart (resumeTracking now p w) = persistedPart w" by simp
  show ?thesis
    using r g by (simp add: startTracking_def persistedPart_def Let_def)
qed

lemma recordActivity_persisted [simp]:
  "persistedPart (recordActivity now p w) = persistedPart w"
proof -
  have g: "persistedPart (resetGlobalIdleTimer now w') = persistedPart w'" for w'
    by simp
  have r: "persistedPart (resumeTracking now p w) = persistedPart w"
    and s: "persistedPart (startTracking now p w) = persistedPart w" by simp_all
  show ?thesis
    using r s g by (simp add: recordActivity_def persistedPart_def Let_def split: option.splits)
qed

lemma stopGlobalTimer_uninit:
  "projectsStateRef w = None \<Longrightarrow> persistedPart (stopGlobalTimer rt now w) = persistedPart w"
  by (simp add: stopGlobalTimer_def persistedPart_def Let_def split: option.splits)

lemma stopTracking_uninit:
  assumes "projectsStateRef w = None"
  shows "persistedPart (stopTracking rt now p w) = persistedPart w"
proof -
  have g: "persistedPart (stopGlobalTimer rt now w') = persistedPart w'"
    if "projectsStateRef w' = None" for w'
    using that by (rule stopGlobalTimer_uninit)
  show ?thesis
    using assms
    by (auto simp: stopTracking_def Let_def g split: option.splits)
       (simp_all add: persistedPart_def)
qed


lemma getActiveNonIdleCount_cong:
  "trackingState w = trackingState w' \<Longrightarrow> getActiveNonIdleCount w = getActiveNonIdleCount w'"
  by (simp add: getActiveNonIdleCount_def)

lemma stopGlobalTimer_trackingState [simp]:
  "trackingState (stopGlobalTimer rt now w) =
     (trackingState w)\<lparr> globalSessionStartTime := None, globalLastActivityTime := None,
                          globalIsIdle := False \<rparr>"
  by (simp add: stopGlobalTimer_def Let_def split: option.splits)

lemma stopTracking_trackingState:
  "trackingState (stopTracking rt now p w) =
     (let state = (trackingState w)\<lparr> activeSessions :=
                     AList.delete p (activeSessions (trackingState w)) \<rparr>
      in case map_of (activeSessions (trackingState w)) p of
           None \<Rightarrow> state
         | Some session \<Rightarrow>
             if truthy_ts (sessionStartTime session)
                \<and> filter (\<lambda>(k, session). isActive session) (activeSessions state) = []
             then state\<lparr> globalSessionStartTime := None, globalLastActivityTime := None,
                         globalIsIdle := False \<rparr>
             else state)"
  by (simp add: stopTracking_def Let_def getActiveNonIdleCount_def split: option.splits)

lemma runtime_ignores_init:
  "trackingState (startTracking now p (w\<lparr> projectsStateRef := r \<rparr>)) = trackingState (startTracking now p w)"
  "trackingState (stopTracking rt now p (w\<lparr> projectsStateRef := r \<rparr>)) = trackingState (stopTracking rt now p w)"
  "trackingState (recordActivity now p (w\<lparr> projectsStateRef := r \<rparr>)) = trackingState (recordActivity now p w)"
  "trackingState (recordOutputActivity now p (w\<lparr> projectsStateRef := r \<rparr>)) = trackingState (recordOutputActivity now p w)"
proof -
  show "trackingState (stopTracking rt now p (w\<lparr> projectsStateRef := r \<rparr>)) = trackingState (stopTracking rt now p w)"
    by (simp add: stopTracking_trackingState)
  have rt: "resumeTracking now p (w\<lparr> projectsStateRef := r \<rparr>) = (resumeTracking now p w)\<lparr> projectsStateRef := r \<rparr>"
    by (simp add: resumeTracking_def resumeGlobalTimer_def Let_def getActiveNonIdleCount_def
        split: option.splits)
  have st: "startTracking now p (w\<lparr> projectsStateRef := r \<rparr>) = (startTracking now p w)\<lparr> projectsStateRef := r \<rparr>"
    by (simp add: startTracking_def startGlobalTimer_def Let_def getActiveNonIdleCount_def rt)
  from st show "trackingState (startTracking now p (w\<lparr> projectsStateRef := r \<rparr>)) = trackingState (startTracking now p w)"
    by simp
  have "recordActivity now p (w\<lparr> projectsStateRef := r \<rparr>) = (recordActivity now p w)\<lparr> projectsStateRef := r \<rparr>"
    by (simp add: recordActivity_def resetGlobalIdleTimer_def resumeGlobalTimer_def Let_def st rt
        split: option.splits)
  then show "trackingState (recordActivity now p (w\<lparr> projectsStateRef := r \<rparr>)) = trackingState (recordActivity now p w)"
    by simp
  show "trackingState (recordOutputActivity now p (w\<lparr> projectsStateRef := r \<rparr>)) = trackingState (recordOutputActivity now p w)"
    by (simp add: recordOutputActivity_def split: option.splits)
qed

text \<open>
  C10, as amended. Before \<^verbatim>\<open>initTimeTracking\<close> has stored the references, each of
  \<^verbatim>\<open>startTracking\<close>, \<^verbatim>\<open>stopTracking\<close>, \<^verbatim>\<open>recordActivity\<close> and
  \<^verbatim>\<open>recordOutputActivity\<close> persists nothing: the dataset reference, the archives and
  the number of save requests are as before. (No path of these operations throws, which
  is why the model has no error value.) The runtime intervals are not left alone: they
  are updated exactly as they would be with the references in place.
\<close>

theorem operations_before_init:
  assumes "projectsStateRef w = None"
  shows "persistedPart (startTracking now p w) = persistedPart w
       \<and> persistedPart (stopTracking rt now p w) = persistedPart w
       \<and> persistedPart (recordActivity now p w) = persistedPart w
       \<and> persistedPart (recordOutputActivity now p w) = persistedPart w
       \<and> trackingState (startTracking now p w)
           = trackingState (startTracking now p (w\<lparr> projectsStateRef := Some ds \<rparr>))
       \<and> trackingState (stopTracking rt now p w)
           = trackingState (stopTracking rt now p (w\<lparr> projectsStateRef := Some ds \<rparr>))
       \<and> trackingState (recordActivity now p w)
           = trackingState (recordActivity now p (w\<lparr> projectsStateRef := Some ds \<rparr>))
       \<and> trackingState (recordOutputActivity now p w)
           = trackingState (recordOutputActivity now p (w\<lparr> projectsStateRef := Some ds \<rparr>))"
proof -
  have "persistedPart (recordOutputActivity now p w) = persistedPart w"
    by (simp add: recordOutputActivity_def persistedPart_def split: option.splits)
  with stopTracking_uninit [OF assms, of rt now p] show ?thesis
    by (simp add: runtime_ignores_init)
qed

text \<open>Starting and then stopping a project on the freshly loaded module.\<close>

theorem operations_before_init_witness:
  "projectsStateRef (initialTracker 1769903000000) = None
   \<and> persistedPart (stopTracking utc_runtime 1769903990000 ''proj-1''
        (startTracking 1769903880000 ''proj-1'' (initialTracker 1769903000000)))
      = (None, emptyStore, 0)"
proof -
  have a: "projectsStateRef (initialTracker 1769903000000) = None"
    by (simp add: initialTracker_def)
  have p: "persistedPart (initialTracker 1769903000000) = (None, emptyStore, 0)"
    by (simp add: persistedPart_def initialTracker_def)
  from operations_before_init [OF a, of 1769903880000 "''proj-1''"]
  have s: "persistedPart (startTracking 1769903880000 ''proj-1'' (initialTracker 1769903000000))
      = (None, emptyStore, 0)" using p by simp
  then have "projectsStateRef (startTracking 1769903880000 ''proj-1'' (initialTracker 1769903000000)) = None"
    by (simp add: persistedPart_def)
  from operations_before_init [OF this, where rt = utc_runtime and now = 1769903990000
      and p = "''proj-1''"] s a
  show ?thesis by simp
qed

text \<open>
  C10 as stated fails: \<^verbatim>\<open>startTracking\<close> has no guard on initialisation and opens
  the project's and the global interval on the freshly loaded module.
\<close>

theorem startTracking_before_init_counterexample:
  "projectsStateRef (initialTracker 1769903000000) = None
   \<and> trackingState (startTracking 1769903880000 ''proj-1'' (initialTracker 1769903000000))
       = \<lparr> activeSessions = [(''proj-1'', \<lparr> sessionStartTime = Some 1769903880000,
              lastActivityTime = 1769903880000, isIdle = False \<rparr>)],
           globalSessionStartTime = Some 1769903880000,
           globalLastActivityTime = Some 1769903880000, globalIsIdle = False \<rparr>
   \<and> trackingState (startTracking 1769903880000 ''proj-1'' (initialTracker 1769903000000))
       \<noteq> trackingState (initialTracker 1769903000000)"
  by (simp add: initialTracker_def startTracking_def startGlobalTimer_def
      getActiveNonIdleCount_def globalActive_def truthy_str_def Let_def)

section \<open>What appending does to the archive files\<close>

lemma diskProjectSessions_file:
  "diskProjectSessions st y m k = fileProject st (getArchiveFilePath y m) k"
  by (simp add: diskProjectSessions_def fileProject_def entrySessionsAt_def readArchiveFromDisk_def
      split: option.splits)

lemma diskGlobalSessions_file:
  "diskGlobalSessions st y m = fileGlobal st (getArchiveFilePath y m)"
  by (simp add: diskGlobalSessions_def fileGlobal_def readArchiveFromDisk_def)

lemma mergeProject_entry:
  "entrySessionsAt (mergeProject (k, d) a) k' =
     (if k' = k
      then pushNew (set (map sid (entrySessionsAt a k))) (entrySessions d) (entrySessionsAt a k)
      else entrySessionsAt a k')"
  by (simp add: mergeProject_def entrySessionsAt_def Let_def split: option.splits)

lemma mergeProject_mono: "set (entrySessionsAt a k') \<subseteq> set (entrySessionsAt (mergeProject e a) k')"
  by (cases e) (auto simp: mergeProject_entry pushNew_conv)

lemma fold_mergeProject_mono: "set (entrySessionsAt a k') \<subseteq> set (entrySessionsAt (fold mergeProject P a) k')"
proof (induction P arbitrary: a)
  case Nil
  then show ?case by simp
next
  case (Cons e P)
  have "set (entrySessionsAt a k') \<subseteq> set (entrySessionsAt (mergeProject e a) k')"
    by (rule mergeProject_mono)
  also have "\<dots> \<subseteq> set (entrySessionsAt (fold mergeProject P (mergeProject e a)) k')"
    by (rule Cons.IH)
  finally show ?case by simp
qed

lemma appendToArchive_files:
  "files (appendToArchive rt now year mon G P st) =
     (if writeOk rt (writes st)
      then (files st)(getArchiveFilePath year mon \<mapsto> mergedArchive rt now year mon G P st)
      else files st)"
  by (simp add: appendToArchive_def writeArchive_def invalidateArchiveCache_def
      readArchiveFromDisk_def mergedArchive_def startArchive_def Let_def)

lemma startArchive_global:
  "globalSessions (startArchive rt now year mon st) = fileGlobal st (getArchiveFilePath year mon)"
  by (simp add: startArchive_def fileGlobal_def createEmptyArchive_def split: option.splits)

lemma startArchive_project:
  "entrySessionsAt (startArchive rt now year mon st) k = fileProject st (getArchiveFilePath year mon) k"
  by (simp add: startArchive_def fileProject_def createEmptyArchive_def entrySessionsAt_def
      split: option.splits)

lemma entrySessionsAt_update [simp]:
  "entrySessionsAt (a\<lparr> lastModifiedAt := x \<rparr>) k = entrySessionsAt a k"
  "entrySessionsAt (a\<lparr> globalSessions := g \<rparr>) k = entrySessionsAt a k"
  by (simp_all add: entrySessionsAt_def)

lemma mergedArchive_global:
  "globalSessions (mergedArchive rt now year mon G P st) =
     pushNew (set (map sid (fileGlobal st (getArchiveFilePath year mon)))) G
       (fileGlobal st (getArchiveFilePath year mon))"
  by (simp add: mergedArchive_def Let_def fold_mergeProject_global startArchive_global)

lemma mergedArchive_project_mono:
  "set (fileProject st (getArchiveFilePath year mon) k)
     \<subseteq> set (entrySessionsAt (mergedArchive rt now year mon G P st) k)"
proof -
  define a1 where "a1 = (if G \<noteq> [] then (startArchive rt now year mon st)\<lparr> globalSessions :=
       pushNew (set (map sid (globalSessions (startArchive rt now year mon st)))) G
         (globalSessions (startArchive rt now year mon st)) \<rparr>
     else startArchive rt now year mon st)"
  have "entrySessionsAt a1 k = fileProject st (getArchiveFilePath year mon) k"
    by (simp add: a1_def startArchive_project)
  moreover have "set (entrySessionsAt a1 k) \<subseteq> set (entrySessionsAt (fold mergeProject P a1) k)"
    by (rule fold_mergeProject_mono)
  moreover have "entrySessionsAt (mergedArchive rt now year mon G P st) k
      = entrySessionsAt (fold mergeProject P a1) k"
    by (simp add: mergedArchive_def Let_def a1_def)
  ultimately show ?thesis by simp
qed

lemma mergedArchive_project_single:
  "entrySessionsAt (mergedArchive rt now year mon [] [(p, d)] st) k =
     (if k = p
      then pushNew (set (map sid (fileProject st (getArchiveFilePath year mon) p))) (entrySessions d)
             (fileProject st (getArchiveFilePath year mon) p)
      else fileProject st (getArchiveFilePath year mon) k)"
  by (simp add: mergedArchive_def Let_def mergeProject_entry startArchive_project)

lemma mergedArchive_project_none:
  "entrySessionsAt (mergedArchive rt now year mon G [] st) k
     = fileProject st (getArchiveFilePath year mon) k"
  by (simp add: mergedArchive_def Let_def startArchive_project)

lemma appendToArchive_fileGlobal:
  "fileGlobal (appendToArchive rt now year mon G P st) path =
     (if writeOk rt (writes st) \<and> path = getArchiveFilePath year mon
      then pushNew (set (map sid (fileGlobal st path))) G (fileGlobal st path)
      else fileGlobal st path)"
  by (simp add: fileGlobal_def [of "appendToArchive rt now year mon G P st"]
      appendToArchive_files mergedArchive_global)
     (simp add: fileGlobal_def)

lemma appendToArchive_fileProject_mono:
  "set (fileProject st path k) \<subseteq> set (fileProject (appendToArchive rt now year mon G P st) path k)"
  using mergedArchive_project_mono [of st year mon k rt now G P]
  by (simp add: fileProject_def [of "appendToArchive rt now year mon G P st"]
      appendToArchive_files)
     (simp add: fileProject_def)

lemma appendToArchive_fileProject_single:
  "fileProject (appendToArchive rt now year mon [] [(p, d)] st) path k =
     (if writeOk rt (writes st) \<and> path = getArchiveFilePath year mon \<and> k = p
      then pushNew (set (map sid (fileProject st path p))) (entrySessions d) (fileProject st path p)
      else fileProject st path k)"
  by (simp add: fileProject_def [of "appendToArchive rt now year mon [] [(p, d)] st"]
      appendToArchive_files mergedArchive_project_single)
     (simp add: fileProject_def)

lemma appendToArchive_fileProject_none:
  "fileProject (appendToArchive rt now year mon G [] st) path k = fileProject st path k"
  by (simp add: fileProject_def [of "appendToArchive rt now year mon G [] st"]
      appendToArchive_files mergedArchive_project_none)
     (simp add: fileProject_def)

lemma appendToArchive_writes [simp]:
  "writes (appendToArchive rt now year mon G P st) = Suc (writes st)"
  by (simp add: appendToArchive_def writeArchive_def invalidateArchiveCache_def Let_def)

section \<open>Persisting never loses a session, and when it adds one\<close>

lemma saveSessionProject_pid [simp]: "pid (saveSessionProject p today s cur d q) = pid q"
  by (simp add: saveSessionProject_def Let_def)

lemma saveSessionProject_sessions:
  "projectSessionsOf (saveSessionProject p today s cur d q) =
     (if pid q = p \<and> cur then projectSessionsOf q @ [s] else projectSessionsOf q)"
  by (simp add: saveSessionProject_def projectSessionsOf_def Let_def split: option.splits)

lemma saveSessionArchive_fileGlobal [simp]:
  "fileGlobal (saveSessionArchive rt now p startT s cur q st) path = fileGlobal st path"
  by (simp add: saveSessionArchive_def appendToArchive_fileGlobal)

lemma fold_saveSessionArchive_fileGlobal [simp]:
  "fileGlobal (fold (saveSessionArchive rt now p startT s cur) qs st) path = fileGlobal st path"
  by (induction qs arbitrary: st) simp_all

lemma saveSessionArchive_mono:
  "set (fileProject st path k) \<subseteq> set (fileProject (saveSessionArchive rt now p startT s cur q st) path k)"
  by (simp add: saveSessionArchive_def appendToArchive_fileProject_mono)

lemma fold_saveSessionArchive_mono:
  "set (fileProject st path k)
     \<subseteq> set (fileProject (fold (saveSessionArchive rt now p startT s cur) qs st) path k)"
proof (induction qs arbitrary: st)
  case Nil
  then show ?case by simp
next
  case (Cons q qs)
  have "set (fileProject st path k)
      \<subseteq> set (fileProject (saveSessionArchive rt now p startT s cur q st) path k)"
    by (rule saveSessionArchive_mono)
  also have "\<dots> \<subseteq> set (fileProject (fold (saveSessionArchive rt now p startT s cur) qs
      (saveSessionArchive rt now p startT s cur q st)) path k)"
    by (rule Cons.IH)
  finally show ?case by simp
qed

lemma fold_saveSessionArchive_other:
  "k \<noteq> p \<Longrightarrow>
     fileProject (fold (saveSessionArchive rt now p startT s cur) qs st) path k = fileProject st path k"
  by (induction qs arbitrary: st)
     (simp_all add: saveSessionArchive_def appendToArchive_fileProject_single)

lemma fold_saveSessionArchive_emits:
  assumes "\<exists>q \<in> set qs. pid q = p"
    and "writeOk rt (writes st)"
    and "sid s \<notin> sid ` set (fileProject st (getArchiveFilePath (getFullYear rt startT) (getMonth rt startT)) p)"
  shows "s \<in> set (fileProject (fold (saveSessionArchive rt now p startT s False) qs st)
            (getArchiveFilePath (getFullYear rt startT) (getMonth rt startT)) p)"
  using assms
proof (induction qs arbitrary: st)
  case Nil
  then show ?case by simp
next
  case (Cons q qs)
  show ?case
  proof (cases "pid q = p")
    case True
    have "s \<in> set (fileProject (saveSessionArchive rt now p startT s False q st)
            (getArchiveFilePath (getFullYear rt startT) (getMonth rt startT)) p)"
      using True Cons.prems(2,3)
      by (simp add: saveSessionArchive_def appendToArchive_fileProject_single pushNew_conv)
    then show ?thesis
      using fold_saveSessionArchive_mono by fastforce
  next
    case False
    then have same: "saveSessionArchive rt now p startT s False q st = st"
      by (simp add: saveSessionArchive_def)
    from False Cons.prems(1) have "\<exists>q \<in> set qs. pid q = p" by auto
    from Cons.IH [OF this Cons.prems(2,3)] show ?thesis
      by (simp add: same)
  qed
qed

lemma saveSession_projectIds [simp]: "projectIds (saveSession rt now p a b d w) = projectIds w"
  by (simp add: saveSession_def projectIds_def Let_def comp_def split: option.splits)

lemma saveGlobalSession_projectIds [simp]: "projectIds (saveGlobalSession rt now a b d w) = projectIds w"
  by (simp add: saveGlobalSession_def projectIds_def Let_def split: option.splits)

lemma saveSession_initialised [simp]:
  "(projectsStateRef (saveSession rt now p a b d w) = None) = (projectsStateRef w = None)"
  by (simp add: saveSession_def Let_def split: option.splits)

lemma saveGlobalSession_initialised [simp]:
  "(projectsStateRef (saveGlobalSession rt now a b d w) = None) = (projectsStateRef w = None)"
  by (simp add: saveGlobalSession_def Let_def split: option.splits)

lemma concat_filter_mono:
  assumes "\<And>q. pid (f q) = pid q" and "\<And>q. set (projectSessionsOf q) \<subseteq> set (projectSessionsOf (f q))"
  shows "set (concat (map projectSessionsOf (filter (\<lambda>q. pid q = k) qs)))
     \<subseteq> set (concat (map projectSessionsOf (filter (\<lambda>q. pid q = k) (map f qs))))"
proof
  fix x
  assume "x \<in> set (concat (map projectSessionsOf (filter (\<lambda>q. pid q = k) qs)))"
  then obtain q where q: "q \<in> set qs" "pid q = k" "x \<in> set (projectSessionsOf q)"
    by auto
  then have "f q \<in> set (map f qs)" "pid (f q) = k" "x \<in> set (projectSessionsOf (f q))"
    using assms by auto
  then show "x \<in> set (concat (map projectSessionsOf (filter (\<lambda>q. pid q = k) (map f qs))))"
    by auto
qed

lemma saveSession_live_mono:
  "set (liveProjectSessions w k) \<subseteq> set (liveProjectSessions (saveSession rt now p a b d w) k)"
proof (cases "projectsStateRef w")
  case None
  then show ?thesis by simp
next
  case (Some ds)
  then show ?thesis
    unfolding liveProjectSessions_def saveSession_def Let_def
    by (simp del: set_concat) (rule concat_filter_mono, auto simp: saveSessionProject_sessions)
qed

lemma saveSession_live_other:
  "k \<noteq> p \<Longrightarrow> liveProjectSessions (saveSession rt now p a b d w) k = liveProjectSessions w k"
proof (cases "projectsStateRef w")
  case None
  then show ?thesis by simp
next
  case (Some ds)
  assume "k \<noteq> p"
  then have "map projectSessionsOf (filter (\<lambda>q. pid q = k) (map (saveSessionProject p t s c d) qs))
      = map projectSessionsOf (filter (\<lambda>q. pid q = k) qs)" for t s c qs
    by (induction qs) (auto simp: saveSessionProject_sessions)
  with Some show ?thesis
    by (simp add: liveProjectSessions_def saveSession_def Let_def)
qed

lemma saveSession_liveGlobal [simp]:
  "liveGlobalSessions (saveSession rt now p a b d w) = liveGlobalSessions w"
  by (simp add: liveGlobalSessions_def saveSession_def globalSessionsOf_def Let_def
      split: option.splits)

lemma saveSession_fileGlobal [simp]:
  "fileGlobal (archives (saveSession rt now p a b d w)) path = fileGlobal (archives w) path"
  by (simp add: saveSession_def Let_def split: option.splits)

lemma saveSession_fileProject_mono:
  "set (fileProject (archives w) path k)
     \<subseteq> set (fileProject (archives (saveSession rt now p a b d w)) path k)"
  by (simp add: saveSession_def Let_def fold_saveSessionArchive_mono split: option.splits)

lemma saveSession_fileProject_other:
  "k \<noteq> p \<Longrightarrow>
     fileProject (archives (saveSession rt now p a b d w)) path k = fileProject (archives w) path k"
  by (simp add: saveSession_def Let_def fold_saveSessionArchive_other split: option.splits)

lemma saveGlobalSession_liveProject [simp]:
  "liveProjectSessions (saveGlobalSession rt now a b d w) k = liveProjectSessions w k"
  by (simp add: liveProjectSessions_def saveGlobalSession_def Let_def split: option.splits)

lemma saveGlobalSession_fileProject [simp]:
  "fileProject (archives (saveGlobalSession rt now a b d w)) path k = fileProject (archives w) path k"
  by (simp add: saveGlobalSession_def Let_def appendToArchive_fileProject_none split: option.splits)

lemma saveGlobalSession_liveGlobal_mono:
  "set (liveGlobalSessions w) \<subseteq> set (liveGlobalSessions (saveGlobalSession rt now a b d w))"
  by (auto simp: liveGlobalSessions_def saveGlobalSession_def globalSessionsOf_def Let_def
      split: option.splits)

lemma saveGlobalSession_fileGlobal_mono:
  "set (fileGlobal (archives w) path)
     \<subseteq> set (fileGlobal (archives (saveGlobalSession rt now a b d w)) path)"
  by (auto simp: saveGlobalSession_def Let_def appendToArchive_fileGlobal pushNew_conv
      split: option.splits)

lemma projectSessionPersisted_iff:
  "projectSessionPersisted rt w p a b \<longleftrightarrow>
     (\<exists>s \<in> set (liveProjectSessions w p)
              \<union> set (fileProject (archives w)
                        (getArchiveFilePath (getFullYear rt a) (getMonth rt a)) p).
        covers rt a b s)"
  by (simp add: projectSessionPersisted_def list_ex_iff diskProjectSessions_file)

lemma globalSessionPersisted_iff:
  "globalSessionPersisted rt w a b \<longleftrightarrow>
     (\<exists>s \<in> set (liveGlobalSessions w)
              \<union> set (fileGlobal (archives w)
                        (getArchiveFilePath (getFullYear rt a) (getMonth rt a))).
        covers rt a b s)"
  by (simp add: globalSessionPersisted_def list_ex_iff diskGlobalSessions_file)

lemma saveSession_keeps_project:
  "projectSessionPersisted rt w q a b \<Longrightarrow>
     projectSessionPersisted rt (saveSession rt now p x y d w) q a b"
  unfolding projectSessionPersisted_iff
  using saveSession_live_mono [of w q rt now p x y d]
    saveSession_fileProject_mono [of w _ q rt now p x y d]
  by blast

lemma saveSession_keeps_global:
  "globalSessionPersisted rt (saveSession rt now p x y d w) a b = globalSessionPersisted rt w a b"
  by (simp add: globalSessionPersisted_iff)

lemma saveGlobalSession_keeps_project:
  "projectSessionPersisted rt (saveGlobalSession rt now x y d w) q a b
     = projectSessionPersisted rt w q a b"
  by (simp add: projectSessionPersisted_iff)

lemma saveGlobalSession_keeps_global:
  "globalSessionPersisted rt w a b \<Longrightarrow>
     globalSessionPersisted rt (saveGlobalSession rt now x y d w) a b"
  unfolding globalSessionPersisted_iff
  using saveGlobalSession_liveGlobal_mono [of w rt now x y d]
    saveGlobalSession_fileGlobal_mono [of w _ rt now x y d]
  by blast

lemma detector_saves:
  "sleepCutSave rt now sleepStart = cutSave rt now sleepStart"
  "midnightSave rt now midnightTs = cutSave rt now midnightTs"
  "checkpointSave rt now = cutSave rt now now"
  by (auto simp: sleepCutSave_def midnightSave_def checkpointSave_def checkpointDue_def
      cutSave_def Let_def fun_eq_iff)

lemma saveSession_emits:
  assumes p: "p \<in> set (projectIds w)"
    and ok: "persistable rt now a
               (diskProjectSessions (archives w) (getFullYear rt a) (getMonth rt a) p)"
  shows "projectSessionPersisted rt (saveSession rt now p a b (b - a) w) p a b"
proof -
  from p obtain ds where ds: "projectsStateRef w = Some ds" and q: "\<exists>q \<in> set (projects ds). pid q = p"
    by (cases "projectsStateRef w") (auto simp: projectIds_def)
  define s where "s = \<lparr> sid = generateSessionId rt now (draws w), startTime = toISOString rt a,
      endTime = toISOString rt b, duration = Fin (of_int (b - a)) \<rparr>"
  have c: "covers rt a b s" by (simp add: covers_def s_def)
  show ?thesis
  proof (cases "getFullYear rt a = getFullYear rt now \<and> getMonth rt a = getMonth rt now")
    case True
    from q obtain q0 where q0: "q0 \<in> set (projects ds)" "pid q0 = p" by blast
    then have "s \<in> set (projectSessionsOf (saveSessionProject p (getTodayString rt now) s True (b - a) q0))"
      by (simp add: saveSessionProject_sessions)
    with q0 have "s \<in> set (liveProjectSessions (saveSession rt now p a b (b - a) w) p)"
      using ds True
      by (auto simp add: liveProjectSessions_def saveSession_def Let_def s_def [symmetric]
          simp del: of_int_diff intro!: bexI [of _ q0])
    with c show ?thesis unfolding projectSessionPersisted_iff by blast
  next
    case False
    with ok have wr: "writeOk rt (writes (archives w))"
      and fresh: "sid s \<notin> sid ` set (fileProject (archives w)
          (getArchiveFilePath (getFullYear rt a) (getMonth rt a)) p)"
      by (auto simp: persistable_def s_def diskProjectSessions_file)
    from fold_saveSessionArchive_emits [OF q wr fresh, of now]
    have "s \<in> set (fileProject (archives (saveSession rt now p a b (b - a) w))
        (getArchiveFilePath (getFullYear rt a) (getMonth rt a)) p)"
    proof -
      from False have nc: "(getFullYear rt a = getFullYear rt now \<and> getMonth rt a = getMonth rt now) = False"
        by simp
      assume "s \<in> set (fileProject (fold (saveSessionArchive rt now p a s False) (projects ds) (archives w))
        (getArchiveFilePath (getFullYear rt a) (getMonth rt a)) p)"
      then show ?thesis
        using ds by (simp add: saveSession_def Let_def s_def [symmetric] nc del: of_int_diff)
    qed
    with c show ?thesis unfolding projectSessionPersisted_iff by blast
  qed
qed

lemma saveGlobalSession_emits:
  assumes init: "projectsStateRef w \<noteq> None"
    and ok: "persistable rt now a
               (diskGlobalSessions (archives w) (getFullYear rt a) (getMonth rt a))"
  shows "globalSessionPersisted rt (saveGlobalSession rt now a b (b - a) w) a b"
proof -
  from init obtain ds where ds: "projectsStateRef w = Some ds" by auto
  define s where "s = \<lparr> sid = generateSessionId rt now (draws w), startTime = toISOString rt a,
      endTime = toISOString rt b, duration = Fin (of_int (b - a)) \<rparr>"
  have c: "covers rt a b s" by (simp add: covers_def s_def)
  show ?thesis
  proof (cases "getFullYear rt a = getFullYear rt now \<and> getMonth rt a = getMonth rt now")
    case True
    then have "s \<in> set (liveGlobalSessions (saveGlobalSession rt now a b (b - a) w))"
      using ds
      by (simp add: liveGlobalSessions_def saveGlobalSession_def Let_def s_def [symmetric]
          globalSessionsOf_def del: of_int_diff)
    with c show ?thesis unfolding globalSessionPersisted_iff by blast
  next
    case False
    with ok have wr: "writeOk rt (writes (archives w))"
      and fresh: "sid s \<notin> sid ` set (fileGlobal (archives w)
          (getArchiveFilePath (getFullYear rt a) (getMonth rt a)))"
      by (auto simp: persistable_def s_def diskGlobalSessions_file)
    then have "s \<in> set (fileGlobal (archives (saveGlobalSession rt now a b (b - a) w))
        (getArchiveFilePath (getFullYear rt a) (getMonth rt a)))"
    proof -
      from False have nc: "(getFullYear rt a = getFullYear rt now \<and> getMonth rt a = getMonth rt now) = False"
        by simp
      assume "writeOk rt (writes (archives w))"
        and "sid s \<notin> sid ` set (fileGlobal (archives w)
          (getArchiveFilePath (getFullYear rt a) (getMonth rt a)))"
      then show ?thesis
        using ds
        by (simp add: saveGlobalSession_def Let_def s_def [symmetric] appendToArchive_fileGlobal
            pushNew_conv nc del: of_int_diff)
    qed
    with c show ?thesis unfolding globalSessionPersisted_iff by blast
  qed
qed

lemma cutSave_keeps_project:
  "projectSessionPersisted rt w q a b \<Longrightarrow> projectSessionPersisted rt (cutSave rt now endT e w) q a b"
  by (simp add: cutSave_def saveSession_keeps_project)

lemma fold_cutSave_keeps_project:
  "projectSessionPersisted rt w q a b \<Longrightarrow>
     projectSessionPersisted rt (fold (cutSave rt now endT) es w) q a b"
  by (induction es arbitrary: w) (simp_all add: cutSave_keeps_project)

lemma fold_cutSave_keeps_global:
  "globalSessionPersisted rt (fold (cutSave rt now endT) es w) a b = globalSessionPersisted rt w a b"
  by (induction es arbitrary: w) (simp_all add: cutSave_def saveSession_keeps_global)

lemma cutSave_frame [simp]:
  "trackingState (cutSave rt now endT e w) = trackingState w"
  "idleTimers (cutSave rt now endT e w) = idleTimers w"
  "lastOutputTimes (cutSave rt now endT e w) = lastOutputTimes w"
  "globalLastOutputTime (cutSave rt now endT e w) = globalLastOutputTime w"
  "globalIdleTimer (cutSave rt now endT e w) = globalIdleTimer w"
  "lastHeartbeat (cutSave rt now endT e w) = lastHeartbeat w"
  "lastKnownDate (cutSave rt now endT e w) = lastKnownDate w"
  "projectIds (cutSave rt now endT e w) = projectIds w"
  by (simp_all add: cutSave_def)

lemma fold_cutSave_frame [simp]:
  "trackingState (fold (cutSave rt now endT) es w) = trackingState w"
  "idleTimers (fold (cutSave rt now endT) es w) = idleTimers w"
  "lastOutputTimes (fold (cutSave rt now endT) es w) = lastOutputTimes w"
  "globalLastOutputTime (fold (cutSave rt now endT) es w) = globalLastOutputTime w"
  "globalIdleTimer (fold (cutSave rt now endT) es w) = globalIdleTimer w"
  "lastHeartbeat (fold (cutSave rt now endT) es w) = lastHeartbeat w"
  "lastKnownDate (fold (cutSave rt now endT) es w) = lastKnownDate w"
  "projectIds (fold (cutSave rt now endT) es w) = projectIds w"
  by (induction es arbitrary: w) simp_all

lemma fold_cutSave_emits:
  assumes "(p, session) \<in> set es" and "distinct (map fst es)"
    and "isActive session" and "sessionStartTime session = Some start"
    and "endT - start > 1000"
    and "p \<in> set (projectIds w)"
    and "persistable rt now start
           (diskProjectSessions (archives w) (getFullYear rt start) (getMonth rt start) p)"
  shows "projectSessionPersisted rt (fold (cutSave rt now endT) es w) p start endT"
  using assms(1,2,6,7)
proof (induction es arbitrary: w)
  case Nil
  then show ?case by simp
next
  case (Cons e es)
  show ?case
  proof (cases "e = (p, session)")
    case True
    have "projectSessionPersisted rt (cutSave rt now endT e w) p start endT"
      using True assms(3,4,5) saveSession_emits [OF Cons.prems(3,4), of endT]
      by (simp add: cutSave_def)
    then show ?thesis by (simp add: fold_cutSave_keeps_project)
  next
    case False
    with Cons.prems have rest: "(p, session) \<in> set es" and d: "distinct (map fst es)"
      and other: "fst e \<noteq> p"
      by (auto simp: rev_image_eqI)
    have same: "diskProjectSessions (archives (cutSave rt now endT e w)) y m p
        = diskProjectSessions (archives w) y m p" for y m
      using other by (simp add: cutSave_def diskProjectSessions_file saveSession_fileProject_other)
    from Cons.IH [OF rest d, of "cutSave rt now endT e w"] Cons.prems(3,4)
    show ?thesis by (simp add: same)
  qed
qed

section \<open>Concurrent projects and the global interval\<close>

lemma initialised_saves [simp]:
  "initialised (saveSession rt now p a b d w) = initialised w"
  "initialised (saveGlobalSession rt now a b d w) = initialised w"
  by (simp_all add: initialised_def)

lemma initialised_updates [simp]:
  "initialised (w\<lparr> trackingState := ts \<rparr>) = initialised w"
  "initialised (w\<lparr> idleTimers := it \<rparr>) = initialised w"
  "initialised (w\<lparr> lastOutputTimes := lo \<rparr>) = initialised w"
  "initialised (w\<lparr> globalLastOutputTime := glo \<rparr>) = initialised w"
  "initialised (w\<lparr> globalIdleTimer := gi \<rparr>) = initialised w"
  "initialised (w\<lparr> lastHeartbeat := hb \<rparr>) = initialised w"
  by (simp_all add: initialised_def)

lemma update_absent: "map_of al k = None \<Longrightarrow> AList.update k v al = al @ [(k, v)]"
  by (induction al) (auto split: if_splits)

lemma delete_absent: "map_of al k = None \<Longrightarrow> AList.delete k al = al"
  by (induction al) (auto split: if_splits)

lemma delete_append_absent:
  "map_of al k = None \<Longrightarrow> AList.delete k (al @ bl) = al @ AList.delete k bl"
  by (simp add: AList.delete_eq delete_absent [unfolded AList.delete_eq])

lemma getActiveNonIdleCount_alt: "getActiveNonIdleCount w = activeCount (activeSessions (trackingState w))"
  by (simp add: getActiveNonIdleCount_def activeCount_def)

lemma getActiveProjectCount_alt: "getActiveProjectCount w = activeCount (activeSessions (trackingState w))"
  by (simp add: getActiveProjectCount_def activeCount_def)

lemma activeCount_append [simp]: "activeCount (al @ bl) = activeCount al + activeCount bl"
  by (simp add: activeCount_def)

lemma activeCount_single [simp]: "activeCount [(k, s)] = (if isActive s then 1 else 0)"
  by (simp add: activeCount_def)

lemma startTracking_fresh:
  assumes "truthy_str p" and "map_of (activeSessions (trackingState w)) p = None"
  shows "trackingState (startTracking now p w) =
     (let state = (trackingState w)\<lparr> activeSessions := activeSessions (trackingState w)
              @ [(p, \<lparr> sessionStartTime = Some now, lastActivityTime = now, isIdle = False \<rparr>)] \<rparr>
      in if getActiveNonIdleCount w = 0 \<and> \<not> globalActive (trackingState w)
         then state\<lparr> globalSessionStartTime := Some now, globalLastActivityTime := Some now,
                     globalIsIdle := False \<rparr>
         else state)"
  using assms
  by (simp add: startTracking_def startGlobalTimer_def Let_def update_absent globalActive_def)

lemma startTracking_persistedPart:
  "projectsStateRef (startTracking now p w) = projectsStateRef w"
  "archives (startTracking now p w) = archives w"
  using startTracking_persisted [of now p w] by (simp_all add: persistedPart_def)

lemma globalSessionPersisted_cong:
  assumes "liveGlobalSessions w' = liveGlobalSessions w"
    and "\<And>path. fileGlobal (archives w') path = fileGlobal (archives w) path"
  shows "globalSessionPersisted rt w' a b = globalSessionPersisted rt w a b"
  using assms by (simp add: globalSessionPersisted_iff)

lemma stopGlobalTimer_emits:
  assumes "globalSessionStartTime (trackingState w) = Some start" and "start \<noteq> 0"
    and "\<not> globalIsIdle (trackingState w)" and "now - start > 1000"
    and "initialised w"
    and "persistable rt now start
           (diskGlobalSessions (archives w) (getFullYear rt start) (getMonth rt start))"
  shows "globalSessionPersisted rt (stopGlobalTimer rt now w) start now"
proof -
  have "globalSessionPersisted rt (stopGlobalTimer rt now w) start now
      = globalSessionPersisted rt (saveGlobalSession rt now start now (now - start) w) start now"
    using assms(1-4)
    by (intro globalSessionPersisted_cong)
       (simp_all add: stopGlobalTimer_def Let_def liveGlobalSessions_def)
  with saveGlobalSession_emits [OF assms(5) [unfolded initialised_def] assms(6), of now]
  show ?thesis by simp
qed

lemma activeCount_Cons [simp]:
  "activeCount ((k, s) # al) = (if isActive s then 1 else 0) + activeCount al"
  by (simp add: activeCount_def)

lemma activeCount_Nil [simp]: "activeCount [] = 0"
  by (simp add: activeCount_def)

lemma stopGlobalTimer_initialised [simp]:
  "initialised (stopGlobalTimer rt now w) = initialised w"
  by (simp add: stopGlobalTimer_def Let_def split: option.splits)

lemma stopTracking_active:
  assumes "map_of (activeSessions (trackingState w)) p = Some session"
    and "sessionStartTime session = Some start" and "start \<noteq> 0"
  shows "stopTracking rt now p w =
     (let w1 = (if now - start > 1000 then saveSession rt now p start now (now - start) w else w);
          w2 = w1\<lparr> idleTimers := (idleTimers w)(p := None),
                   lastOutputTimes := (lastOutputTimes w)(p := None),
                   trackingState := (trackingState w)\<lparr> activeSessions :=
                     AList.delete p (activeSessions (trackingState w)) \<rparr> \<rparr>
      in if activeCount (AList.delete p (activeSessions (trackingState w))) = 0
         then stopGlobalTimer rt now w2 else w2)"
  using assms by (simp add: stopTracking_def Let_def getActiveNonIdleCount_alt)


lemma readyTracker_facts:
  "trackingState (readyTracker t) = \<lparr> activeSessions = [], globalSessionStartTime = None,
      globalLastActivityTime = None, globalIsIdle = False \<rparr>"
  "projectsStateRef (readyTracker t) = Some sampleProjects"
  "archives (readyTracker t) = emptyStore"
  "saveRequests (readyTracker t) = 0"
  "draws (readyTracker t) = 0"
  "initialised (readyTracker t)"
  "projectIds (readyTracker t) = [''proj-1'', ''proj-2'']"
  by (simp_all add: readyTracker_def initialTracker_def initialised_def projectIds_def
      sampleProjects_def)

lemma same_month_persistable:
  "getFullYear rt a = getFullYear rt now \<Longrightarrow> getMonth rt a = getMonth rt now
     \<Longrightarrow> persistable rt now a stored"
  by (simp add: persistable_def)

lemma january_times:
  "getFullYear utc_runtime 1769903880000 = 2026" "getMonth utc_runtime 1769903880000 = 0"
  "getFullYear utc_runtime 1769903970000 = 2026" "getMonth utc_runtime 1769903970000 = 0"
  by code_simp+



section \<open>Sleep and wake\<close>

lemma persisted_runtime_updates [simp]:
  "projectSessionPersisted rt (w\<lparr> trackingState := ts \<rparr>) p a b = projectSessionPersisted rt w p a b"
  "projectSessionPersisted rt (w\<lparr> lastHeartbeat := hb \<rparr>) p a b = projectSessionPersisted rt w p a b"
  "globalSessionPersisted rt (w\<lparr> trackingState := ts \<rparr>) a b = globalSessionPersisted rt w a b"
  "globalSessionPersisted rt (w\<lparr> lastHeartbeat := hb \<rparr>) a b = globalSessionPersisted rt w a b"
  by (simp_all add: projectSessionPersisted_def globalSessionPersisted_def
      liveProjectSessions_def liveGlobalSessions_def)

lemma projectIds_runtime_updates [simp]:
  "projectIds (w\<lparr> trackingState := ts \<rparr>) = projectIds w"
  "projectIds (w\<lparr> lastHeartbeat := hb \<rparr>) = projectIds w"
  by (simp_all add: projectIds_def)

lemma map_of_map_entries:
  assumes "\<And>e. fst (f e) = fst e"
  shows "map_of (map f es) k = map_option (\<lambda>v. snd (f (k, v))) (map_of es k)"
  by (induction es) (auto simp: assms)

lemma sleepCutEntry_key [simp]: "fst (sleepCutEntry wakeTime e) = fst e"
  by (simp add: sleepCutEntry_def Let_def)

lemma midnightEntry_key [simp]: "fst (midnightEntry now midnightTs e) = fst e"
  by (simp add: midnightEntry_def Let_def)

lemma checkpointEntry_key [simp]: "fst (checkpointEntry now e) = fst e"
  by (simp add: checkpointEntry_def)

lemma globalCut_frame [simp]:
  "trackingState (globalCut rt now endT w) = trackingState w"
  "idleTimers (globalCut rt now endT w) = idleTimers w"
  "lastOutputTimes (globalCut rt now endT w) = lastOutputTimes w"
  "globalLastOutputTime (globalCut rt now endT w) = globalLastOutputTime w"
  "globalIdleTimer (globalCut rt now endT w) = globalIdleTimer w"
  "lastHeartbeat (globalCut rt now endT w) = lastHeartbeat w"
  "lastKnownDate (globalCut rt now endT w) = lastKnownDate w"
  "projectIds (globalCut rt now endT w) = projectIds w"
  "fileProject (archives (globalCut rt now endT w)) path k = fileProject (archives w) path k"
  "projectSessionPersisted rt' (globalCut rt now endT w) p a b = projectSessionPersisted rt' w p a b"
  by (simp_all add: globalCut_def projectSessionPersisted_iff)

lemma globalCut_emits:
  assumes "globalActive (trackingState w)" and "globalSessionStartTime (trackingState w) = Some g0"
    and "endT - g0 > 1000" and "initialised w"
    and "persistable rt now g0
           (diskGlobalSessions (archives w) (getFullYear rt g0) (getMonth rt g0))"
  shows "globalSessionPersisted rt (globalCut rt now endT w) g0 endT"
  using assms saveGlobalSession_emits [of w rt now g0 endT]
  by (simp add: globalCut_def initialised_def)

lemma saveSession_swap:
  "saveSession rt now p a b d (w\<lparr> trackingState := ts \<rparr>)
     = (saveSession rt now p a b d w)\<lparr> trackingState := ts \<rparr>"
  by (simp add: saveSession_def Let_def split: option.splits)

lemma cutSave_swap:
  "cutSave rt now endT e (w\<lparr> trackingState := ts \<rparr>) = (cutSave rt now endT e w)\<lparr> trackingState := ts \<rparr>"
  by (simp add: cutSave_def saveSession_swap)

lemma fold_cutSave_swap:
  "fold (cutSave rt now endT) es (w\<lparr> trackingState := ts \<rparr>)
     = (fold (cutSave rt now endT) es w)\<lparr> trackingState := ts \<rparr>"
  by (induction es arbitrary: w) (simp_all add: cutSave_swap)

lemma handleSleepWake_alt:
  "handleSleepWake rt now sleepStart wakeTime w =
     (let entries = activeSessions (trackingState w);
          w2 = fold (cutSave rt now sleepStart) entries (globalCut rt now sleepStart w)
      in w2\<lparr> trackingState :=
             (if globalActive (trackingState w)
              then (trackingState w)\<lparr> globalSessionStartTime := Some wakeTime,
                                        globalLastActivityTime := Some wakeTime \<rparr>
              else trackingState w)
             \<lparr> activeSessions := map (sleepCutEntry wakeTime) entries \<rparr> \<rparr>)"
  by (simp add: handleSleepWake_def globalCut_def detector_saves Let_def fold_cutSave_swap)

lemma cut_emits_global:
  assumes "globalActive (trackingState w)" and "globalSessionStartTime (trackingState w) = Some g0"
    and "endT - g0 > 1000" and "initialised w"
    and "persistable rt now g0
           (diskGlobalSessions (archives w) (getFullYear rt g0) (getMonth rt g0))"
  shows "globalSessionPersisted rt (fold (cutSave rt now endT) es (globalCut rt now endT w)) g0 endT"
  using globalCut_emits [OF assms] by (simp add: fold_cutSave_keeps_global)

lemma cut_emits_project:
  assumes "map_of es p = Some session" and "distinct (map fst es)"
    and "isActive session" and "sessionStartTime session = Some s0"
    and "endT - s0 > 1000" and "p \<in> set (projectIds w)"
    and "persistable rt now s0
           (diskProjectSessions (archives w) (getFullYear rt s0) (getMonth rt s0) p)"
  shows "projectSessionPersisted rt (fold (cutSave rt now endT) es (globalCut rt now endT w)) p s0 endT"
proof -
  have mem: "(p, session) \<in> set es" using assms(1) by (rule map_of_SomeD)
  have ids: "p \<in> set (projectIds (globalCut rt now endT w))" using assms(6) by simp
  have store: "persistable rt now s0
      (diskProjectSessions (archives (globalCut rt now endT w)) (getFullYear rt s0) (getMonth rt s0) p)"
    using assms(7) by (simp add: diskProjectSessions_file)
  show ?thesis
    by (rule fold_cutSave_emits [OF mem assms(2,3,4,5) ids store])
qed


lemma workingTracker_facts:
  "trackingState (workingTracker s h) =
     \<lparr> activeSessions = [(''proj-1'', \<lparr> sessionStartTime = Some s,
                            lastActivityTime = s, isIdle = False \<rparr>)],
       globalSessionStartTime = Some s, globalLastActivityTime = Some s, globalIsIdle = False \<rparr>"
  "lastHeartbeat (workingTracker s h) = h"
  "projectsStateRef (workingTracker s h) = Some sampleProjects"
  "archives (workingTracker s h) = emptyStore"
  "saveRequests (workingTracker s h) = 0"
  "draws (workingTracker s h) = 0"
  "initialised (workingTracker s h)"
  "projectIds (workingTracker s h) = [''proj-1'', ''proj-2'']"
  by (simp_all add: workingTracker_def readyTracker_facts initialised_def projectIds_def
      sampleProjects_def)

lemma empty_archive_persistable:
  "\<forall>n. writeOk rt n \<Longrightarrow> persistable rt now a []"
  by (simp add: persistable_def)

lemma emptyStore_disk [simp]:
  "diskGlobalSessions emptyStore y m = []" "diskProjectSessions emptyStore y m p = []"
  by (simp_all add: diskGlobalSessions_def diskProjectSessions_def readArchiveFromDisk_def
      emptyStore_def)



section \<open>The midnight split\<close>

lemma persisted_timer_updates [simp]:
  "projectSessionPersisted rt (w\<lparr> idleTimers := it \<rparr>) p a b = projectSessionPersisted rt w p a b"
  "projectSessionPersisted rt (w\<lparr> lastOutputTimes := lo \<rparr>) p a b = projectSessionPersisted rt w p a b"
  "projectSessionPersisted rt (w\<lparr> globalIdleTimer := gi \<rparr>) p a b = projectSessionPersisted rt w p a b"
  "globalSessionPersisted rt (w\<lparr> idleTimers := it \<rparr>) a b = globalSessionPersisted rt w a b"
  "globalSessionPersisted rt (w\<lparr> lastOutputTimes := lo \<rparr>) a b = globalSessionPersisted rt w a b"
  "globalSessionPersisted rt (w\<lparr> globalIdleTimer := gi \<rparr>) a b = globalSessionPersisted rt w a b"
  by (simp_all add: projectSessionPersisted_def globalSessionPersisted_def
      liveProjectSessions_def liveGlobalSessions_def)

lemma stopGlobalTimer_keeps_project [simp]:
  "projectSessionPersisted rt (stopGlobalTimer rt now w) p a b = projectSessionPersisted rt w p a b"
  by (simp add: stopGlobalTimer_def Let_def saveGlobalSession_keeps_project split: option.splits)

lemma stopTracking_emits:
  assumes "map_of (activeSessions (trackingState w)) p = Some session"
    and "sessionStartTime session = Some start" and "start \<noteq> 0" and "now - start > 1000"
    and "p \<in> set (projectIds w)"
    and "persistable rt now start
           (diskProjectSessions (archives w) (getFullYear rt start) (getMonth rt start) p)"
  shows "projectSessionPersisted rt (stopTracking rt now p w) p start now"
  unfolding stopTracking_active [OF assms(1,2,3)]
  using saveSession_emits [OF assms(5,6), of now] assms(4)
  by (simp add: Let_def)

lemma splitSessionsAtMidnight_alt:
  "splitSessionsAtMidnight rt now w =
     (let midnightTs = setHours0 rt now;
          entries = activeSessions (trackingState w);
          w2 = fold (cutSave rt now midnightTs) entries (globalCut rt now midnightTs w)
      in w2\<lparr> trackingState :=
             (if globalActive (trackingState w)
              then (trackingState w)\<lparr> globalSessionStartTime := Some midnightTs,
                                        globalLastActivityTime := Some now \<rparr>
              else trackingState w)
             \<lparr> activeSessions := map (midnightEntry now midnightTs) entries \<rparr> \<rparr>)"
  by (simp add: splitSessionsAtMidnight_def globalCut_def detector_saves Let_def fold_cutSave_swap)

lemma splitSessionsAtMidnight_projectIds [simp]:
  "projectIds (splitSessionsAtMidnight rt now w) = projectIds w"
  by (simp add: splitSessionsAtMidnight_alt Let_def)

lemma splitSessionsAtMidnight_initialised [simp]:
  "initialised (splitSessionsAtMidnight rt now w) = initialised w"
proof -
  have "initialised (fold (cutSave rt now e) es w') = initialised w'" for e es w'
    by (induction es arbitrary: w') (simp_all add: cutSave_def)
  then show ?thesis
    by (simp add: splitSessionsAtMidnight_alt Let_def globalCut_def)
qed


lemma february_times:
  "setHours0 utc_runtime 1769904025000 = 1769904000000"
  "getFullYear utc_runtime 1769904000000 = 2026" "getMonth utc_runtime 1769904000000 = 1"
  "getFullYear utc_runtime 1769904120000 = 2026" "getMonth utc_runtime 1769904120000 = 1"
  by code_simp+



section \<open>Idle timeout and the output grace window\<close>

lemma isTracking_entryOf:
  "isTracking w p = (case entryOf w p of None \<Rightarrow> False | Some session \<Rightarrow> isActive session)"
  by (simp add: isTracking_def entryOf_def)

lemma global_ops_entries [simp]:
  "entryOf (startGlobalTimer now w) p = entryOf w p"
  "entryOf (resumeGlobalTimer now w) p = entryOf w p"
  "entryOf (resetGlobalIdleTimer now w) p = entryOf w p"
  "entryOf (pauseGlobalTimer rt now w) p = entryOf w p"
  "entryOf (stopGlobalTimer rt now w) p = entryOf w p"
  "entryOf (checkAndPauseGlobalTimer rt now w) p = entryOf w p"
  by (simp_all add: entryOf_def startGlobalTimer_def resumeGlobalTimer_def
      resetGlobalIdleTimer_def pauseGlobalTimer_def stopGlobalTimer_def
      checkAndPauseGlobalTimer_def Let_def split: option.splits)

lemma global_ops_outputs [simp]:
  "lastOutputTimes (startGlobalTimer now w) = lastOutputTimes w"
  "lastOutputTimes (resumeGlobalTimer now w) = lastOutputTimes w"
  "lastOutputTimes (resetGlobalIdleTimer now w) = lastOutputTimes w"
  "lastOutputTimes (pauseGlobalTimer rt now w) = lastOutputTimes w"
  "lastOutputTimes (stopGlobalTimer rt now w) = lastOutputTimes w"
  "lastOutputTimes (checkAndPauseGlobalTimer rt now w) = lastOutputTimes w"
  by (simp_all add: startGlobalTimer_def resumeGlobalTimer_def
      resetGlobalIdleTimer_def pauseGlobalTimer_def stopGlobalTimer_def
      checkAndPauseGlobalTimer_def Let_def split: option.splits)

lemma entryOf_updates [simp]:
  "entryOf (w\<lparr> idleTimers := it \<rparr>) p = entryOf w p"
  "entryOf (w\<lparr> lastOutputTimes := lo \<rparr>) p = entryOf w p"
  "entryOf (w\<lparr> globalLastOutputTime := glo \<rparr>) p = entryOf w p"
  "entryOf (w\<lparr> lastHeartbeat := hb \<rparr>) p = entryOf w p"
  "entryOf (w\<lparr> trackingState := (trackingState w')\<lparr> activeSessions := al \<rparr> \<rparr>) p = map_of al p"
  "entryOf (saveSession rt now q a b d w) p = entryOf w p"
  "entryOf (saveGlobalSession rt now a b d w) p = entryOf w p"
  by (simp_all add: entryOf_def)

lemma resumeTracking_entry:
  "entryOf (resumeTracking now q w) p =
     (if p = q \<and> (case entryOf w q of None \<Rightarrow> False | Some e \<Rightarrow> isIdle e)
      then Some \<lparr> sessionStartTime = Some now, lastActivityTime = now, isIdle = False \<rparr>
      else entryOf w p)"
  by (auto simp: resumeTracking_def Let_def update_conv' entryOf_def [of w] split: option.splits)

lemma resumeTracking_outputs [simp]:
  "lastOutputTimes (resumeTracking now q w) = lastOutputTimes w"
  by (simp add: resumeTracking_def Let_def split: option.splits)

lemma startTracking_entry:
  "isTracking w p \<Longrightarrow> isTracking (startTracking now q w) p"
  by (auto simp: startTracking_def Let_def isTracking_entryOf resumeTracking_entry update_conv'
      entryOf_def [of w] isActive_def split: option.splits)

lemma startTracking_outputs [simp]:
  "lastOutputTimes (startTracking now q w) = lastOutputTimes w"
  by (simp add: startTracking_def Let_def split: option.splits)

lemma recordActivity_entry:
  "isTracking w p \<Longrightarrow> isTracking (recordActivity now q w) p"
  using startTracking_entry [of w p now q]
  by (auto simp: recordActivity_def Let_def isTracking_entryOf resumeTracking_entry update_conv'
      entryOf_def [of w] isActive_def split: option.splits)

lemma recordActivity_outputs [simp]:
  "lastOutputTimes (recordActivity now q w) = lastOutputTimes w"
  by (simp add: recordActivity_def Let_def split: option.splits)

lemma stopTracking_entry:
  "q \<noteq> p \<Longrightarrow> entryOf (stopTracking rt now q w) p = entryOf w p"
  by (simp add: entryOf_def stopTracking_trackingState Let_def delete_conv' split: option.splits)

lemma stopTracking_outputs:
  "q \<noteq> p \<Longrightarrow> lastOutputTimes (stopTracking rt now q w) p = lastOutputTimes w p"
  by (simp add: stopTracking_def Let_def split: option.splits)

lemma pauseTracking_entry:
  "q \<noteq> p \<Longrightarrow> entryOf (pauseTracking rt now q w) p = entryOf w p"
  by (simp add: pauseTracking_def Let_def update_conv' entryOf_def [of w] split: option.splits)

lemma pauseTracking_outputs [simp]:
  "lastOutputTimes (pauseTracking rt now q w) = lastOutputTimes w"
  by (simp add: pauseTracking_def Let_def split: option.splits)

lemma checkAndPauseTracking_fresh:
  "now - lastOutputOf w p < OUTPUT_IDLE_TIMEOUT \<Longrightarrow>
     checkAndPauseTracking rt now p w =
       w\<lparr> idleTimers := (idleTimers w)(p \<mapsto> now + (OUTPUT_IDLE_TIMEOUT - (now - lastOutputOf w p) + 100)) \<rparr>"
  by (simp add: checkAndPauseTracking_def lastOutputOf_def Let_def)

lemma checkAndPauseTracking_stale:
  assumes "\<not> now - lastOutputOf w p < OUTPUT_IDLE_TIMEOUT" and "entryOf w p = Some session"
    and "isActive session"
  shows "entryOf (checkAndPauseTracking rt now p w) p
     = Some (session\<lparr> sessionStartTime := None, isIdle := True \<rparr>)"
proof -
  have "entryOf (pauseTracking rt now p w) p = Some (session\<lparr> sessionStartTime := None, isIdle := True \<rparr>)"
    using assms(2,3)
    by (simp add: pauseTracking_def Let_def isActive_def update_conv' entryOf_def [of w])
  with assms(1) show ?thesis
    by (simp add: checkAndPauseTracking_def lastOutputOf_def Let_def)
qed

lemma checkAndPauseTracking_other:
  "q \<noteq> p \<Longrightarrow> entryOf (checkAndPauseTracking rt now q w) p = entryOf w p"
  by (simp add: checkAndPauseTracking_def Let_def pauseTracking_entry)

lemma checkAndPauseTracking_outputs [simp]:
  "lastOutputTimes (checkAndPauseTracking rt now q w) = lastOutputTimes w"
  by (simp add: checkAndPauseTracking_def Let_def)

lemma checkAndPauseGlobalTimer_fresh:
  "now - globalLastOutputTime w < OUTPUT_IDLE_TIMEOUT \<Longrightarrow>
     checkAndPauseGlobalTimer rt now w =
       w\<lparr> globalIdleTimer := Some (now + (OUTPUT_IDLE_TIMEOUT - (now - globalLastOutputTime w) + 100)) \<rparr>"
  by (simp add: checkAndPauseGlobalTimer_def Let_def)

lemma recordOutputActivity_entry [simp]:
  "entryOf (recordOutputActivity now q w) p = entryOf w p"
  by (simp add: recordOutputActivity_def split: option.splits)

lemma recordOutputActivity_outputs:
  "lastOutputOf (recordOutputActivity now q w) p =
     (if q = p \<and> truthy_str p \<and> (case entryOf w p of None \<Rightarrow> False | Some e \<Rightarrow> \<not> isIdle e)
      then now else lastOutputOf w p)"
  by (auto simp: recordOutputActivity_def lastOutputOf_def entryOf_def split: option.splits)

lemma handleSleepWake_entry:
  "entryOf (handleSleepWake rt now sleepStart wakeTime w) p =
     map_option (\<lambda>v. snd (sleepCutEntry wakeTime (p, v))) (entryOf w p)"
  by (simp add: handleSleepWake_alt Let_def entryOf_def map_of_map_entries)

lemma checkSleepWake_tracking:
  assumes "isTracking w p" and "now \<noteq> 0"
  shows "isTracking (checkSleepWake rt now w) p"
  using assms
  by (auto simp: checkSleepWake_def Let_def isTracking_entryOf handleSleepWake_entry
      sleepCutEntry_def isActive_def split: option.splits)

lemma checkSleepWake_outputs [simp]:
  "lastOutputTimes (checkSleepWake rt now w) = lastOutputTimes w"
  by (simp add: checkSleepWake_def handleSleepWake_alt Let_def)

lemma splitSessionsAtMidnight_tracking:
  assumes "isTracking w p" and "setHours0 rt now \<noteq> 0"
  shows "isTracking (splitSessionsAtMidnight rt now w) p"
  using assms
  by (auto simp: splitSessionsAtMidnight_alt Let_def isTracking_entryOf entryOf_def
      map_of_map_entries midnightEntry_def isActive_def split: option.splits)

lemma splitSessionsAtMidnight_outputs [simp]:
  "lastOutputTimes (splitSessionsAtMidnight rt now w) = lastOutputTimes w"
  by (simp add: splitSessionsAtMidnight_alt Let_def)

lemma saveCheckpoints_outputs [simp]:
  "lastOutputTimes (saveCheckpoints rt now w) = lastOutputTimes w"
  by (simp add: saveCheckpoints_def Let_def detector_saves)

lemma map_checkpointEntry_id:
  "\<not> list_ex (\<lambda>entry. checkpointDue now (snd entry)) es \<Longrightarrow> map (checkpointEntry now) es = es"
  by (induction es) (simp_all add: checkpointEntry_def)

lemma saveCheckpoints_entry:
  "entryOf (saveCheckpoints rt now w) p =
     map_option (\<lambda>v. snd (checkpointEntry now (p, v))) (entryOf w p)"
proof -
  have "activeSessions (trackingState (saveCheckpoints rt now w))
      = map (checkpointEntry now) (activeSessions (trackingState w))"
    by (simp add: saveCheckpoints_def Let_def detector_saves map_checkpointEntry_id)
  then show ?thesis
    by (simp add: entryOf_def map_of_map_entries)
qed

lemma saveCheckpoints_tracking:
  assumes "isTracking w p" and "now \<noteq> 0"
  shows "isTracking (saveCheckpoints rt now w) p"
  using assms
  by (auto simp: isTracking_entryOf saveCheckpoints_entry checkpointEntry_def isActive_def
      split: option.splits)

lemma isTracking_nonidle:
  "isTracking w p \<Longrightarrow> (case entryOf w p of None \<Rightarrow> False | Some e \<Rightarrow> \<not> isIdle e)"
  by (auto simp: isTracking_entryOf isActive_def split: option.splits)

lemma step_keeps_tracking:
  assumes "isTracking w p" and "e \<noteq> StopTracking p" and "t \<noteq> 0" and "setHours0 rt t \<noteq> 0"
    and "e = IdleTimeout p \<Longrightarrow> t - lastOutputOf w p < OUTPUT_IDLE_TIMEOUT"
  shows "isTracking (step rt (t, e) w) p"
proof (cases e)
  case (StartTracking q)
  then show ?thesis using assms(1) by (simp add: startTracking_entry)
next
  case (StopTracking q)
  with assms(2) have "q \<noteq> p" by simp
  then show ?thesis using assms(1) StopTracking
    by (simp add: isTracking_entryOf stopTracking_entry)
next
  case (RecordActivity q)
  then show ?thesis using assms(1) by (simp add: recordActivity_entry)
next
  case (RecordOutputActivity q)
  then show ?thesis using assms(1) by (simp add: isTracking_entryOf)
next
  case (IdleTimeout q)
  show ?thesis
  proof (cases "q = p")
    case True
    with IdleTimeout assms(5) have "t - lastOutputOf w p < OUTPUT_IDLE_TIMEOUT" by simp
    then show ?thesis using assms(1) IdleTimeout True
      by (simp add: checkAndPauseTracking_fresh isTracking_entryOf)
  next
    case False
    then show ?thesis using assms(1) IdleTimeout
      by (simp add: isTracking_entryOf checkAndPauseTracking_other)
  qed
next
  case GlobalIdleTimeout
  then show ?thesis using assms(1) by (simp add: isTracking_entryOf)
next
  case HeartbeatTick
  then show ?thesis using assms(1,3) by (simp add: checkSleepWake_tracking)
next
  case MidnightSplit
  then show ?thesis using assms(1,4) by (simp add: splitSessionsAtMidnight_tracking)
next
  case CheckpointTick
  then show ?thesis using assms(1,3) by (simp add: saveCheckpoints_tracking)
qed

lemma step_lastOutput:
  assumes "isTracking w p" and "truthy_str p" and "e \<noteq> StopTracking p"
  shows "lastOutputOf (step rt (t, e) w) p
     = (if e = RecordOutputActivity p then t else lastOutputOf w p)"
proof (cases e)
  case (StopTracking q)
  with assms(3) have "q \<noteq> p" by simp
  then show ?thesis using StopTracking
    by (simp add: lastOutputOf_def stopTracking_outputs)
next
  case (RecordOutputActivity q)
  then show ?thesis using isTracking_nonidle [OF assms(1)] assms(2)
    by (simp add: recordOutputActivity_outputs)
qed (simp_all add: lastOutputOf_def)

lemma outputFresh_step:
  assumes "outputFresh p l ((t, e) # evs)"
  shows "(e = IdleTimeout p \<longrightarrow> t - l < OUTPUT_IDLE_TIMEOUT)
     \<and> outputFresh p (if e = RecordOutputActivity p then t else l) evs"
  using assms by (cases e) auto

lemma run_keeps_tracking:
  assumes "truthy_str p"
  shows "isTracking w p \<Longrightarrow> neverStopped p evs \<Longrightarrow> clockSane rt evs
     \<Longrightarrow> outputFresh p (lastOutputOf w p) evs \<Longrightarrow> isTracking (run rt evs w) p"
proof (induction evs arbitrary: w)
  case Nil
  then show ?case by (simp add: run_def)
next
  case (Cons te evs)
  obtain t e where te: "te = (t, e)" by (cases te)
  from Cons.prems(2) te have ns: "e \<noteq> StopTracking p" "neverStopped p evs"
    by (simp_all add: neverStopped_def)
  from Cons.prems(3) te have cs: "t \<noteq> 0" "setHours0 rt t \<noteq> 0" "clockSane rt evs"
    by (simp_all add: clockSane_def)
  from Cons.prems(4) te have fr: "e = IdleTimeout p \<longrightarrow> t - lastOutputOf w p < OUTPUT_IDLE_TIMEOUT"
    "outputFresh p (if e = RecordOutputActivity p then t else lastOutputOf w p) evs"
    using outputFresh_step [of p "lastOutputOf w p" t e evs] by simp_all
  have a: "isTracking (step rt (t, e) w) p"
    using step_keeps_tracking [OF Cons.prems(1) ns(1) cs(1,2)] fr(1) by blast
  have b: "outputFresh p (lastOutputOf (step rt (t, e) w) p) evs"
    using fr(2) step_lastOutput [OF Cons.prems(1) assms ns(1), of rt t] by simp
  have "isTracking (run rt evs (step rt (t, e) w)) p"
    by (rule Cons.IH [OF a ns(2) cs(3) b])
  then show ?case by (simp add: run_def te)
qed

lemma outputFresh_take:
  "outputFresh p l evs \<Longrightarrow> outputFresh p l (take n evs)"
proof (induction p l evs arbitrary: n rule: outputFresh.induct)
  case (1 p lastOutput)
  then show ?case by simp
qed (case_tac n; simp)+

lemma run_keeps_tracking_prefix:
  assumes "truthy_str p" and "isTracking w p" and "neverStopped p evs" and "clockSane rt evs"
    and "outputFresh p (lastOutputOf w p) evs"
  shows "isTracking (run rt (take n evs) w) p"
proof -
  have "neverStopped p (take n evs)" "clockSane rt (take n evs)"
    using assms(3,4) by (auto simp: neverStopped_def clockSane_def list_all_iff dest: in_set_takeD)
  then show ?thesis
    using run_keeps_tracking [OF assms(1,2) _ _ outputFresh_take [OF assms(5)]] by blast
qed

lemma checkAndPauseGlobalTimer_stale:
  assumes "globalActive (trackingState w)" and "\<not> now - globalLastOutputTime w < OUTPUT_IDLE_TIMEOUT"
  shows "\<not> globalActive (trackingState (checkAndPauseGlobalTimer rt now w))"
  using assms
  by (auto simp: checkAndPauseGlobalTimer_def pauseGlobalTimer_def globalActive_def Let_def
      split: option.splits)

lemma activeCount_pos:
  "map_of al p = Some s \<Longrightarrow> isActive s \<Longrightarrow> 0 < activeCount al"
  by (induction al) (auto split: if_splits)

lemma tracking_count:
  "isTracking w p \<Longrightarrow> 0 < activeCount (activeSessions (trackingState w))"
  by (auto simp: isTracking_def split: option.splits intro: activeCount_pos)

lemma global_ops_keep:
  assumes "globalActive (trackingState w)"
  shows "startGlobalTimer now w = w" "resumeGlobalTimer now w = w"
    "globalActive (trackingState (resetGlobalIdleTimer now w))"
  using assms
  by (simp_all add: startGlobalTimer_def resumeGlobalTimer_def resetGlobalIdleTimer_def
      globalActive_def Let_def)

lemma resumeTracking_global:
  assumes "globalActive (trackingState w)"
  shows "globalActive (trackingState (resumeTracking now q w))"
  using assms
  by (auto simp: resumeTracking_def Let_def resumeGlobalTimer_def globalActive_def
      split: option.splits)

lemma startTracking_global:
  assumes "globalActive (trackingState w)"
  shows "globalActive (trackingState (startTracking now q w))"
  using assms resumeTracking_global [OF assms, of now q]
  by (auto simp: startTracking_def Let_def startGlobalTimer_def globalActive_def
      split: option.splits)

lemma recordActivity_global:
  assumes "globalActive (trackingState w)"
  shows "globalActive (trackingState (recordActivity now q w))"
  using assms resumeTracking_global [OF assms, of now q] startTracking_global [OF assms, of now q]
  by (auto simp: recordActivity_def Let_def resetGlobalIdleTimer_def globalActive_def
      split: option.splits)

lemma stopTracking_global:
  assumes "globalActive (trackingState w)" and "isTracking w p" and "q \<noteq> p"
  shows "globalActive (trackingState (stopTracking rt now q w))"
proof -
  from assms(2) obtain s where s: "map_of (activeSessions (trackingState w)) p = Some s" "isActive s"
    by (auto simp: isTracking_def split: option.splits)
  have "map_of (AList.delete q (activeSessions (trackingState w))) p = Some s"
    using s(1) assms(3) by (simp add: delete_conv')
  from activeCount_pos [OF this s(2)]
  have pos: "activeCount (AList.delete q (activeSessions (trackingState w))) \<noteq> 0" by simp
  show ?thesis using assms(1)
    by (simp add: stopTracking_def Let_def getActiveNonIdleCount_alt pos globalActive_def
        split: option.splits)
qed

lemma pauseTracking_global:
  assumes "globalActive (trackingState w)" and "isTracking w p" and "q \<noteq> p"
  shows "globalActive (trackingState (pauseTracking rt now q w))"
proof -
  from assms(2) obtain s where s: "map_of (activeSessions (trackingState w)) p = Some s" "isActive s"
    by (auto simp: isTracking_def split: option.splits)
  have "map_of (AList.update q v (activeSessions (trackingState w))) p = Some s" for v
    using s(1) assms(3) by (simp add: update_conv')
  from activeCount_pos [OF this s(2)]
  have pos: "activeCount (AList.update q v (activeSessions (trackingState w))) \<noteq> 0" for v
    by simp
  show ?thesis using assms(1)
    by (simp add: pauseTracking_def Let_def getActiveNonIdleCount_alt pos globalActive_def
        split: option.splits)
qed

lemma checkAndPauseTracking_global:
  assumes "globalActive (trackingState w)" and "isTracking w p"
    and "q = p \<Longrightarrow> now - lastOutputOf w p < OUTPUT_IDLE_TIMEOUT"
  shows "globalActive (trackingState (checkAndPauseTracking rt now q w))"
proof (cases "q = p")
  case True
  with assms(1,3) show ?thesis by (simp add: checkAndPauseTracking_fresh)
next
  case False
  then show ?thesis using assms(1) pauseTracking_global [OF assms(1,2) False]
    by (simp add: checkAndPauseTracking_def Let_def)
qed

lemma checkSleepWake_global:
  assumes "globalActive (trackingState w)" and "now \<noteq> 0"
  shows "globalActive (trackingState (checkSleepWake rt now w))"
  using assms
  by (simp add: checkSleepWake_def handleSleepWake_alt Let_def globalActive_def)

lemma splitSessionsAtMidnight_global:
  assumes "globalActive (trackingState w)" and "setHours0 rt now \<noteq> 0"
  shows "globalActive (trackingState (splitSessionsAtMidnight rt now w))"
  using assms
  by (simp add: splitSessionsAtMidnight_alt Let_def globalActive_def)

lemma saveCheckpoints_global:
  assumes "globalActive (trackingState w)" and "now \<noteq> 0"
  shows "globalActive (trackingState (saveCheckpoints rt now w))"
  using assms
  by (simp add: saveCheckpoints_def Let_def detector_saves globalActive_def)

lemma globalLastOutputTime_frame [simp]:
  "globalLastOutputTime (startTracking now q w) = globalLastOutputTime w"
  "globalLastOutputTime (stopTracking rt now q w) = globalLastOutputTime w"
  "globalLastOutputTime (recordActivity now q w) = globalLastOutputTime w"
  "globalLastOutputTime (checkAndPauseTracking rt now q w) = globalLastOutputTime w"
  "globalLastOutputTime (checkAndPauseGlobalTimer rt now w) = globalLastOutputTime w"
  "globalLastOutputTime (checkSleepWake rt now w) = globalLastOutputTime w"
  "globalLastOutputTime (splitSessionsAtMidnight rt now w) = globalLastOutputTime w"
  "globalLastOutputTime (saveCheckpoints rt now w) = globalLastOutputTime w"
  by (simp_all add: startTracking_def stopTracking_def recordActivity_def resumeTracking_def
      pauseTracking_def checkAndPauseTracking_def checkAndPauseGlobalTimer_def
      startGlobalTimer_def resumeGlobalTimer_def resetGlobalIdleTimer_def pauseGlobalTimer_def
      stopGlobalTimer_def checkSleepWake_def handleSleepWake_alt splitSessionsAtMidnight_alt
      saveCheckpoints_def detector_saves Let_def split: option.splits)

lemma recordOutputActivity_global [simp]:
  "trackingState (recordOutputActivity now q w) = trackingState w"
  by (simp add: recordOutputActivity_def split: option.splits)

lemma recordOutputActivity_globalOutput:
  "globalLastOutputTime (recordOutputActivity now q w) =
     (if truthy_str q \<and> (case entryOf w q of None \<Rightarrow> False | Some e \<Rightarrow> \<not> isIdle e)
      then now else globalLastOutputTime w)"
  by (auto simp: recordOutputActivity_def entryOf_def split: option.splits)

lemma step_keeps_global:
  assumes "isTracking w p" and "globalActive (trackingState w)"
    and "e \<noteq> StopTracking p" and "t \<noteq> 0" and "setHours0 rt t \<noteq> 0"
    and "e = IdleTimeout p \<Longrightarrow> t - lastOutputOf w p < OUTPUT_IDLE_TIMEOUT"
    and "e = GlobalIdleTimeout \<Longrightarrow> t - globalLastOutputTime w < OUTPUT_IDLE_TIMEOUT"
  shows "globalActive (trackingState (step rt (t, e) w))"
proof (cases e)
  case (StartTracking q)
  then show ?thesis using assms(2) by (simp add: startTracking_global)
next
  case (StopTracking q)
  with assms(3) have "q \<noteq> p" by simp
  then show ?thesis using StopTracking stopTracking_global [OF assms(2,1)] by simp
next
  case (RecordActivity q)
  then show ?thesis using assms(2) by (simp add: recordActivity_global)
next
  case (RecordOutputActivity q)
  then show ?thesis using assms(2) by simp
next
  case (IdleTimeout q)
  then show ?thesis using checkAndPauseTracking_global [OF assms(2,1), of q t rt] assms(6)
    by simp
next
  case GlobalIdleTimeout
  then show ?thesis using assms(2,7) by (simp add: checkAndPauseGlobalTimer_fresh)
next
  case HeartbeatTick
  then show ?thesis using assms(2,4) by (simp add: checkSleepWake_global)
next
  case MidnightSplit
  then show ?thesis using assms(2,5) by (simp add: splitSessionsAtMidnight_global)
next
  case CheckpointTick
  then show ?thesis using assms(2,4) by (simp add: saveCheckpoints_global)
qed

lemma step_globalLastOutput:
  assumes "isTracking w p" and "truthy_str p" and "e \<noteq> StopTracking p"
    and "lastOutputOf w p \<le> globalLastOutputTime w" and "lastOutputOf w p \<le> t"
  shows "lastOutputOf (step rt (t, e) w) p \<le> globalLastOutputTime (step rt (t, e) w)"
proof (cases e)
  case (RecordOutputActivity q)
  then show ?thesis using assms(4,5) isTracking_nonidle [OF assms(1)] assms(2)
    by (auto simp: recordOutputActivity_outputs recordOutputActivity_globalOutput)
qed (use assms(4) step_lastOutput [OF assms(1-3), of rt t] in simp_all)

lemma globalFresh_step:
  assumes "globalFresh p l ((t, e) # evs)"
  shows "(e = GlobalIdleTimeout \<longrightarrow> t - l < OUTPUT_IDLE_TIMEOUT)
     \<and> globalFresh p (if e = RecordOutputActivity p then t else l) evs"
  using assms by (cases e) auto

lemma inOrder_lower:
  "inOrder t evs \<Longrightarrow> l \<le> t \<Longrightarrow> inOrder l evs"
  by (cases evs) auto

lemma run_keeps_global:
  assumes "truthy_str p"
  shows "isTracking w p \<Longrightarrow> globalActive (trackingState w)
     \<Longrightarrow> lastOutputOf w p \<le> globalLastOutputTime w
     \<Longrightarrow> inOrder (lastOutputOf w p) evs
     \<Longrightarrow> neverStopped p evs \<Longrightarrow> clockSane rt evs
     \<Longrightarrow> outputFresh p (lastOutputOf w p) evs
     \<Longrightarrow> globalFresh p (lastOutputOf w p) evs
     \<Longrightarrow> globalActive (trackingState (run rt evs w))"
proof (induction evs arbitrary: w)
  case Nil
  then show ?case by (simp add: run_def)
next
  case (Cons te evs)
  obtain t e where te: "te = (t, e)" by (cases te)
  let ?w = "step rt (t, e) w"
  let ?l = "if e = RecordOutputActivity p then t else lastOutputOf w p"
  from Cons.prems(5) te have ns: "e \<noteq> StopTracking p" "neverStopped p evs"
    by (simp_all add: neverStopped_def)
  from Cons.prems(6) te have cs: "t \<noteq> 0" "setHours0 rt t \<noteq> 0" "clockSane rt evs"
    by (simp_all add: clockSane_def)
  from Cons.prems(4) te have ord: "lastOutputOf w p \<le> t" "inOrder t evs" by simp_all
  from Cons.prems(7) te have fr: "e = IdleTimeout p \<longrightarrow> t - lastOutputOf w p < OUTPUT_IDLE_TIMEOUT"
    "outputFresh p ?l evs"
    using outputFresh_step [of p "lastOutputOf w p" t e evs] by simp_all
  from Cons.prems(8) te have gf: "e = GlobalIdleTimeout \<longrightarrow> t - lastOutputOf w p < OUTPUT_IDLE_TIMEOUT"
    "globalFresh p ?l evs"
    using globalFresh_step [of p "lastOutputOf w p" t e evs] by simp_all
  have gfresh: "e = GlobalIdleTimeout \<longrightarrow> t - globalLastOutputTime w < OUTPUT_IDLE_TIMEOUT"
    using gf(1) Cons.prems(3) by auto
  have l: "lastOutputOf ?w p = ?l"
    by (rule step_lastOutput [OF Cons.prems(1) assms ns(1)])
  have a: "isTracking ?w p"
    using step_keeps_tracking [OF Cons.prems(1) ns(1) cs(1,2)] fr(1) by blast
  have b: "globalActive (trackingState ?w)"
    using step_keeps_global [OF Cons.prems(1,2) ns(1) cs(1,2)] fr(1) gfresh by blast
  have c: "lastOutputOf ?w p \<le> globalLastOutputTime ?w"
    by (rule step_globalLastOutput [OF Cons.prems(1) assms ns(1) Cons.prems(3) ord(1)])
  have d: "inOrder (lastOutputOf ?w p) evs"
    using inOrder_lower [OF ord(2), of ?l] ord(1) l by simp
  have "globalActive (trackingState (run rt evs ?w))"
    using Cons.IH [OF a b c d ns(2) cs(3)] fr(2) gf(2) l by simp
  then show ?case by (simp add: run_def te)
qed

lemma globalFresh_take:
  "globalFresh p l evs \<Longrightarrow> globalFresh p l (take n evs)"
proof (induction p l evs arbitrary: n rule: globalFresh.induct)
  case (1 p lastOutput)
  then show ?case by simp
qed (case_tac n; simp)+

lemma inOrder_take:
  "inOrder l evs \<Longrightarrow> inOrder l (take n evs)"
proof (induction l evs arbitrary: n rule: inOrder.induct)
  case (1 previous)
  then show ?case by simp
next
  case (2 previous t e evs)
  then show ?case by (cases n) simp_all
qed

lemma run_keeps_global_prefix:
  assumes "truthy_str p" and "isTracking w p" and "globalActive (trackingState w)"
    and "lastOutputOf w p \<le> globalLastOutputTime w"
    and "inOrder (lastOutputOf w p) evs"
    and "neverStopped p evs" and "clockSane rt evs"
    and "outputFresh p (lastOutputOf w p) evs"
    and "globalFresh p (lastOutputOf w p) evs"
  shows "globalActive (trackingState (run rt (take n evs) w))"
proof -
  have "neverStopped p (take n evs)" "clockSane rt (take n evs)"
    using assms(6,7) by (auto simp: neverStopped_def clockSane_def list_all_iff dest: in_set_takeD)
  then show ?thesis
    using run_keeps_global [OF assms(1-4) inOrder_take [OF assms(5)] _ _
        outputFresh_take [OF assms(8)] globalFresh_take [OF assms(9)]] by blast
qed

text \<open>
  C4, as amended. When the idle callback of a project runs and the last recorded output
  of that project is less than \<open>OUTPUT_IDLE_TIMEOUT\<close> (2 minutes) old, nothing changes except
  the project's idle timer, which is set to fire after \<open>2 min - elapsed + 100 ms\<close>; the global
  callback does the same with the global output time and the global timer. When the
  callback of a tracked project (of the active global interval) runs with output at least
  2 minutes stale, the project (the global interval) is paused. No event other than a stop
  of the project and an idle callback with stale output ends the tracking of a project,
  provided the clock readings are not the epoch. Consequently, in a run in which the project
  is not stopped and every idle callback of the project finds output \<^emph>\<open>less than\<close> 2 minutes
  old, the project is tracked after every event of the run; when moreover the clock does
  not go backwards and every callback of the global timer finds the output of the project
  less than 2 minutes old, the global interval is active after every event of the run.
\<close>

theorem output_grace:
  "(now - lastOutputOf w p < OUTPUT_IDLE_TIMEOUT \<longrightarrow>
      checkAndPauseTracking rt now p w =
        w\<lparr> idleTimers := (idleTimers w)
              (p \<mapsto> now + (OUTPUT_IDLE_TIMEOUT - (now - lastOutputOf w p) + 100)) \<rparr>)
   \<and> (now - globalLastOutputTime w < OUTPUT_IDLE_TIMEOUT \<longrightarrow>
      checkAndPauseGlobalTimer rt now w =
        w\<lparr> globalIdleTimer :=
              Some (now + (OUTPUT_IDLE_TIMEOUT - (now - globalLastOutputTime w) + 100)) \<rparr>)
   \<and> (isTracking w p \<and> OUTPUT_IDLE_TIMEOUT \<le> now - lastOutputOf w p \<longrightarrow>
      \<not> isTracking (checkAndPauseTracking rt now p w) p)
   \<and> (globalActive (trackingState w) \<and> OUTPUT_IDLE_TIMEOUT \<le> now - globalLastOutputTime w \<longrightarrow>
      \<not> globalActive (trackingState (checkAndPauseGlobalTimer rt now w)))
   \<and> (isTracking w p \<and> e \<noteq> StopTracking p \<and> now \<noteq> 0 \<and> setHours0 rt now \<noteq> 0
        \<and> \<not> isTracking (step rt (now, e) w) p \<longrightarrow>
      e = IdleTimeout p \<and> OUTPUT_IDLE_TIMEOUT \<le> now - lastOutputOf w p)
   \<and> (truthy_str p \<and> isTracking w p \<and> neverStopped p evs \<and> clockSane rt evs
        \<and> outputFresh p (lastOutputOf w p) evs \<longrightarrow>
      (\<forall>n. isTracking (run rt (take n evs) w) p))
   \<and> (truthy_str p \<and> isTracking w p \<and> globalActive (trackingState w)
        \<and> lastOutputOf w p \<le> globalLastOutputTime w \<and> inOrder (lastOutputOf w p) evs
        \<and> neverStopped p evs \<and> clockSane rt evs
        \<and> outputFresh p (lastOutputOf w p) evs \<and> globalFresh p (lastOutputOf w p) evs \<longrightarrow>
      (\<forall>n. globalActive (trackingState (run rt (take n evs) w))))"
proof -
  have stale: "\<not> isTracking (checkAndPauseTracking rt now p w) p"
    if "isTracking w p" and "OUTPUT_IDLE_TIMEOUT \<le> now - lastOutputOf w p"
  proof -
    from that(1) obtain session where s: "entryOf w p = Some session" "isActive session"
      by (auto simp: isTracking_entryOf split: option.splits)
    from that(2) have "\<not> now - lastOutputOf w p < OUTPUT_IDLE_TIMEOUT" by simp
    from checkAndPauseTracking_stale [OF this s] show ?thesis
      by (simp add: isTracking_entryOf isActive_def)
  qed
  have only: "e = IdleTimeout p \<and> OUTPUT_IDLE_TIMEOUT \<le> now - lastOutputOf w p"
    if "isTracking w p" and "e \<noteq> StopTracking p" and "now \<noteq> 0" and "setHours0 rt now \<noteq> 0"
      and "\<not> isTracking (step rt (now, e) w) p"
  proof -
    have "\<not> (e = IdleTimeout p \<longrightarrow> now - lastOutputOf w p < OUTPUT_IDLE_TIMEOUT)"
      using step_keeps_tracking [OF that(1-4)] that(5) by blast
    then show ?thesis by simp
  qed
  have gstale: "\<not> globalActive (trackingState (checkAndPauseGlobalTimer rt now w))"
    if "globalActive (trackingState w)" and "OUTPUT_IDLE_TIMEOUT \<le> now - globalLastOutputTime w"
  proof -
    from that(2) have "\<not> now - globalLastOutputTime w < OUTPUT_IDLE_TIMEOUT" by simp
    from checkAndPauseGlobalTimer_stale [OF that(1) this] show ?thesis .
  qed
  have trace: "\<forall>n. isTracking (run rt (take n evs) w) p"
    if "truthy_str p" and "isTracking w p" and "neverStopped p evs" and "clockSane rt evs"
      and "outputFresh p (lastOutputOf w p) evs"
    using run_keeps_tracking_prefix [OF that] by blast
  have gtrace: "\<forall>n. globalActive (trackingState (run rt (take n evs) w))"
    if "truthy_str p" and "isTracking w p" and "globalActive (trackingState w)"
      and "lastOutputOf w p \<le> globalLastOutputTime w" and "inOrder (lastOutputOf w p) evs"
      and "neverStopped p evs" and "clockSane rt evs"
      and "outputFresh p (lastOutputOf w p) evs" and "globalFresh p (lastOutputOf w p) evs"
    using run_keeps_global_prefix [OF that] by blast
  note fresh = checkAndPauseTracking_fresh [of now w p rt]
  note gfresh = checkAndPauseGlobalTimer_fresh [of now w rt]
  from fresh gfresh stale gstale only trace gtrace show ?thesis by blast
qed

text \<open>
  The theorem on the sample dataset, with \<open>t0\<close> = 23:00:00 on 31 January 2026. With output
  last seen 90 s before the callback at \<open>t0 + 15 min\<close>, the project and the global timer are
  rescheduled to \<open>t0 + 15 min + 30.1 s\<close>; with output last seen 120 s before it, both are
  paused. In the run where \<^verbatim>\<open>proj-1\<close> receives output every 90 seconds while the heartbeat,
  the checkpoint, three idle callbacks of the project and two of the global timer run, the
  project is tracked and the global interval is active at the end.
\<close>

theorem output_grace_witness:
  "1769901300000 - lastOutputOf (outputTracker 1769900400000 1769901210000) ''proj-1''
      < OUTPUT_IDLE_TIMEOUT
   \<and> checkAndPauseTracking utc_runtime 1769901300000 ''proj-1''
        (outputTracker 1769900400000 1769901210000)
      = (outputTracker 1769900400000 1769901210000)
          \<lparr> idleTimers := (idleTimers (outputTracker 1769900400000 1769901210000))
                (''proj-1'' \<mapsto> 1769901330100) \<rparr>
   \<and> checkAndPauseGlobalTimer utc_runtime 1769901300000
        (outputTracker 1769900400000 1769901210000)
      = (outputTracker 1769900400000 1769901210000)\<lparr> globalIdleTimer := Some 1769901330100 \<rparr>
   \<and> isTracking (outputTracker 1769900400000 1769901180000) ''proj-1''
   \<and> globalActive (trackingState (outputTracker 1769900400000 1769901180000))
   \<and> OUTPUT_IDLE_TIMEOUT
        \<le> 1769901300000 - lastOutputOf (outputTracker 1769900400000 1769901180000) ''proj-1''
   \<and> \<not> isTracking (checkAndPauseTracking utc_runtime 1769901300000 ''proj-1''
          (outputTracker 1769900400000 1769901180000)) ''proj-1''
   \<and> \<not> isTracking (step utc_runtime (1769901300000, IdleTimeout ''proj-1'')
          (outputTracker 1769900400000 1769901180000)) ''proj-1''
   \<and> \<not> globalActive (trackingState (checkAndPauseGlobalTimer utc_runtime 1769901300000
          (outputTracker 1769900400000 1769901180000)))
   \<and> truthy_str ''proj-1''
   \<and> isTracking (workingTracker 1769900400000 1769900400000) ''proj-1''
   \<and> neverStopped ''proj-1'' (graceRun 1769900400000)
   \<and> clockSane utc_runtime (graceRun 1769900400000)
   \<and> outputFresh ''proj-1'' (lastOutputOf (workingTracker 1769900400000 1769900400000) ''proj-1'')
        (graceRun 1769900400000)
   \<and> outputWithin ''proj-1'' 90000 1769900400000 (graceRun 1769900400000)
   \<and> isTracking (run utc_runtime (graceRun 1769900400000)
        (workingTracker 1769900400000 1769900400000)) ''proj-1''
   \<and> globalActive (trackingState (workingTracker 1769900400000 1769900400000))
   \<and> lastOutputOf (workingTracker 1769900400000 1769900400000) ''proj-1''
        \<le> globalLastOutputTime (workingTracker 1769900400000 1769900400000)
   \<and> inOrder (lastOutputOf (workingTracker 1769900400000 1769900400000) ''proj-1'')
        (graceRun 1769900400000)
   \<and> globalFresh ''proj-1'' (lastOutputOf (workingTracker 1769900400000 1769900400000) ''proj-1'')
        (graceRun 1769900400000)
   \<and> globalActive (trackingState (run utc_runtime (graceRun 1769900400000)
        (workingTracker 1769900400000 1769900400000)))"
proof -
  define A where "A = outputTracker 1769900400000 1769901210000"
  define B where "B = outputTracker 1769900400000 1769901180000"
  define W where "W = workingTracker 1769900400000 1769900400000"
  have la: "lastOutputOf A ''proj-1'' = 1769901210000" "globalLastOutputTime A = 1769901210000"
    by (simp_all add: A_def outputTracker_def lastOutputOf_def)
  have lb: "lastOutputOf B ''proj-1'' = 1769901180000" "globalLastOutputTime B = 1769901180000"
    by (simp_all add: B_def outputTracker_def lastOutputOf_def)
  have lw: "lastOutputOf W ''proj-1'' = 0"
    by (simp add: W_def workingTracker_def readyTracker_def initialTracker_def lastOutputOf_def)
  have tb: "isTracking B ''proj-1''" "globalActive (trackingState B)"
    by (simp_all add: B_def outputTracker_def workingTracker_facts isTracking_def isActive_def
        globalActive_def)
  have tw: "isTracking W ''proj-1''"
    by (simp add: W_def workingTracker_facts isTracking_def isActive_def)
  have gw: "globalActive (trackingState W)"
    by (simp add: W_def workingTracker_facts globalActive_def)
  have "globalLastOutputTime W = 0"
    by (simp add: W_def workingTracker_def readyTracker_def initialTracker_def)
  then have lg: "lastOutputOf W ''proj-1'' \<le> globalLastOutputTime W"
    by (simp add: lw)
  have io: "inOrder (lastOutputOf W ''proj-1'') (graceRun 1769900400000)"
    by (simp add: lw graceRun_def)
  have gf: "globalFresh ''proj-1'' (lastOutputOf W ''proj-1'') (graceRun 1769900400000)"
    by (simp add: lw graceRun_def OUTPUT_IDLE_TIMEOUT_def)
  have tr: "truthy_str ''proj-1''" by (simp add: truthy_str_def)
  have ns: "neverStopped ''proj-1'' (graceRun 1769900400000)"
    by (simp add: neverStopped_def graceRun_def)
  have cs: "clockSane utc_runtime (graceRun 1769900400000)"
    unfolding clockSane_def graceRun_def by code_simp
  have fr: "outputFresh ''proj-1'' (lastOutputOf W ''proj-1'') (graceRun 1769900400000)"
    by (simp add: lw graceRun_def OUTPUT_IDLE_TIMEOUT_def)
  have wi: "outputWithin ''proj-1'' 90000 1769900400000 (graceRun 1769900400000)"
    by (simp add: graceRun_def)
  have clock: "(1769901300000::int) \<noteq> 0" "setHours0 utc_runtime 1769901300000 \<noteq> 0"
    by code_simp+
  have fresh: "1769901300000 - lastOutputOf A ''proj-1'' < OUTPUT_IDLE_TIMEOUT"
    "1769901300000 - globalLastOutputTime A < OUTPUT_IDLE_TIMEOUT"
    by (simp_all add: la OUTPUT_IDLE_TIMEOUT_def)
  have stale: "OUTPUT_IDLE_TIMEOUT \<le> 1769901300000 - lastOutputOf B ''proj-1''"
    "OUTPUT_IDLE_TIMEOUT \<le> 1769901300000 - globalLastOutputTime B"
    by (simp_all add: lb OUTPUT_IDLE_TIMEOUT_def)
  note a = output_grace [of 1769901300000 A "''proj-1''" utc_runtime "IdleTimeout ''proj-1''" "[]"]
  note b = output_grace [of 1769901300000 B "''proj-1''" utc_runtime "IdleTimeout ''proj-1''" "[]"]
  note c = output_grace [of 0 W "''proj-1''" utc_runtime "IdleTimeout ''proj-1''"
      "graceRun 1769900400000"]
  have a1: "checkAndPauseTracking utc_runtime 1769901300000 ''proj-1'' A
      = A\<lparr> idleTimers := (idleTimers A)(''proj-1'' \<mapsto> 1769901330100) \<rparr>"
    using a fresh(1) by (simp add: la OUTPUT_IDLE_TIMEOUT_def)
  have a2: "checkAndPauseGlobalTimer utc_runtime 1769901300000 A
      = A\<lparr> globalIdleTimer := Some 1769901330100 \<rparr>"
    using a fresh(2) by (simp add: la OUTPUT_IDLE_TIMEOUT_def)
  have b1: "\<not> isTracking (checkAndPauseTracking utc_runtime 1769901300000 ''proj-1'' B) ''proj-1''"
    using b tb(1) stale(1) by blast
  have b2: "\<not> globalActive (trackingState (checkAndPauseGlobalTimer utc_runtime 1769901300000 B))"
    using b tb(2) stale(2) by blast
  have b3: "\<not> isTracking (step utc_runtime (1769901300000, IdleTimeout ''proj-1'') B) ''proj-1''"
    using b1 by simp
  have "\<forall>n. isTracking (run utc_runtime (take n (graceRun 1769900400000)) W) ''proj-1''"
    using c tr tw ns cs fr by blast
  then have "isTracking (run utc_runtime (take (length (graceRun 1769900400000))
      (graceRun 1769900400000)) W) ''proj-1''" by blast
  then have c1: "isTracking (run utc_runtime (graceRun 1769900400000) W) ''proj-1''" by simp
  have "\<forall>n. globalActive (trackingState (run utc_runtime (take n (graceRun 1769900400000)) W))"
    using c tr tw gw lg io ns cs fr gf by blast
  then have "globalActive (trackingState (run utc_runtime (take (length (graceRun 1769900400000))
      (graceRun 1769900400000)) W))" by blast
  then have c2: "globalActive (trackingState (run utc_runtime (graceRun 1769900400000) W))"
    by simp
  from fresh(1) a1 a2 tb stale(1) b1 b3 b2 tr tw ns cs fr wi c1 gw lg io gf c2 show ?thesis
    unfolding A_def B_def W_def by blast
qed

text \<open>
  C4 as stated fails at the boundary. \<^verbatim>\<open>proj-1\<close> is tracked from \<open>t0\<close> = 23:00:00 and
  receives output at \<open>t0 + 1 min\<close> and then every 2 minutes, so at no event of the run is
  its last output more than 2 minutes old. The idle callback, due at \<open>t0 + 15 min\<close>, runs
  exactly 2 minutes after the output of \<open>t0 + 13 min\<close>: the guard
  \<open>timeSinceOutput < OUTPUT_IDLE_TIMEOUT\<close> is false and the project is paused; the output
  that arrives next, in the same millisecond, is ignored because the project is idle.
\<close>

theorem output_grace_boundary_counterexample:
  "isTracking (workingTracker 1769900400000 1769900400000) ''proj-1''
   \<and> idleTimers (workingTracker 1769900400000 1769900400000) ''proj-1'' = Some 1769901300000
   \<and> neverStopped ''proj-1'' (boundaryRun 1769900400000)
   \<and> clockSane utc_runtime (boundaryRun 1769900400000)
   \<and> outputWithin ''proj-1'' OUTPUT_IDLE_TIMEOUT 1769900400000 (boundaryRun 1769900400000)
   \<and> \<not> isTracking (run utc_runtime (boundaryRun 1769900400000)
          (workingTracker 1769900400000 1769900400000)) ''proj-1''
   \<and> entryOf (run utc_runtime (boundaryRun 1769900400000)
          (workingTracker 1769900400000 1769900400000)) ''proj-1''
       = Some \<lparr> sessionStartTime = None, lastActivityTime = 1769900400000, isIdle = True \<rparr>"
proof -
  define W where "W = workingTracker 1769900400000 1769900400000"
  define W1 where "W1 = run utc_runtime (take 7 (boundaryRun 1769900400000)) W"
  define session where "session = \<lparr> sessionStartTime = Some (1769900400000::int),
      lastActivityTime = 1769900400000, isIdle = False \<rparr>"
  have tw: "isTracking W ''proj-1''"
    by (simp add: W_def workingTracker_facts isTracking_def isActive_def)
  have ti: "idleTimers W ''proj-1'' = Some 1769901300000"
    by (simp add: W_def workingTracker_def IDLE_TIMEOUT_def)
  have ns: "neverStopped ''proj-1'' (boundaryRun 1769900400000)"
    by (simp add: neverStopped_def boundaryRun_def)
  have cs: "clockSane utc_runtime (boundaryRun 1769900400000)"
    unfolding clockSane_def boundaryRun_def by code_simp
  have wi: "outputWithin ''proj-1'' OUTPUT_IDLE_TIMEOUT 1769900400000 (boundaryRun 1769900400000)"
    by (simp add: boundaryRun_def OUTPUT_IDLE_TIMEOUT_def)
  have e0: "entryOf W ''proj-1'' = Some session"
    by (simp add: W_def entryOf_def workingTracker_facts session_def)
  have e1: "entryOf W1 ''proj-1'' = Some session"
    by (simp add: W1_def run_def boundaryRun_def e0)
  have l1: "lastOutputOf W1 ''proj-1'' = 1769901180000"
    by (simp add: W1_def run_def boundaryRun_def recordOutputActivity_outputs e0 session_def
        truthy_str_def)
  have act: "isActive session" by (simp add: session_def isActive_def)
  have st: "\<not> 1769901300000 - lastOutputOf W1 ''proj-1'' < OUTPUT_IDLE_TIMEOUT"
    by (simp add: l1 OUTPUT_IDLE_TIMEOUT_def)
  have whole: "run utc_runtime (boundaryRun 1769900400000) W
      = recordOutputActivity 1769901300000 ''proj-1''
          (checkAndPauseTracking utc_runtime 1769901300000 ''proj-1'' W1)"
    by (simp add: W1_def run_def boundaryRun_def)
  have en: "entryOf (run utc_runtime (boundaryRun 1769900400000) W) ''proj-1''
      = Some \<lparr> sessionStartTime = None, lastActivityTime = 1769900400000, isIdle = True \<rparr>"
    using checkAndPauseTracking_stale [OF st e1 act] by (simp add: whole session_def)
  then have nt: "\<not> isTracking (run utc_runtime (boundaryRun 1769900400000) W) ''proj-1''"
    by (simp add: isTracking_entryOf isActive_def)
  from tw ti ns cs wi nt en show ?thesis
    unfolding W_def by blast
qed

end
